(* ===== verification/Prelude.thy ===== *)
theory Prelude
  imports Main "HOL-Library.Word" "HOL-Library.AList"
begin

text \<open>
  The vocabulary the component theories share: Python's byte strings, strings, exceptions and
  dictionaries; big-endian integers as \<^verbatim>\<open>struct\<close> and \<^verbatim>\<open>int.from_bytes\<close> lay them out; slices;
  and the lemmas about them that carry the component proofs.

  \<^item> a \<open>bytes\<close> object is a list of 8-bit words;
  \<^item> a \<open>str\<close> is the list of its Unicode code points (so \<open>length\<close> is Python's \<open>len\<close>, which counts
    code points and not encoded bytes);
  \<^item> a fallible operation returns \<open>exn + 'a\<close>: \<open>Inl\<close> is the exception raised;
  \<^item> a \<open>dict\<close> is an association list in insertion order: \<open>AList.update\<close> replaces the value in
    place or appends at the end, and \<open>AList.delete\<close> removes the key, as Python's dictionaries do.
\<close>

named_theorems res_simps \<open>rewriting of fallible computations\<close>
named_theorems wire \<open>encoding and decoding facts of the wire formats\<close>
named_theorems dict_simps \<open>lookups in updated dictionaries\<close>

section \<open>Values\<close>

type_synonym byte = "8 word"
type_synonym bytes = "byte list"
type_synonym pystr = "nat list"

text \<open>A string literal of the source, as its code points.\<close>

definition lit :: "string \<Rightarrow> pystr" where
  "lit s = map of_char s"

lemma lit_Nil [simp]: "lit [] = []"
  by (simp add: lit_def)

lemma lit_Cons [simp]: "lit (c # cs) = of_char c # lit cs"
  by (simp add: lit_def)

section \<open>Exceptions and fallible computations\<close>

text \<open>
  The exceptions the modelled code raises or lets through. A \<open>ValueError\<close> carries the message the
  code gives it; the library's own exceptions are named only.
\<close>

datatype exn =
    ValueError pystr
  | UnicodeEncodeError
  | UnicodeDecodeError
  | JSONDecodeError
  | GzipError
  | StructError
  | OverflowError
  | IndexError
  | KeyError
  | TypeError
  | AttributeError
  | OSError
  | ConnectionClosed
  | TimeoutError
  | RuntimeError pystr
  | GenericException pystr
  | OutOfFuel

type_synonym 'a res = "exn + 'a"

text \<open>Python's class hierarchy: these are the subclasses of \<^verbatim>\<open>ValueError\<close>.\<close>

fun is_value_error :: "exn \<Rightarrow> bool" where
  "is_value_error (ValueError _) = True"
| "is_value_error UnicodeEncodeError = True"
| "is_value_error UnicodeDecodeError = True"
| "is_value_error JSONDecodeError = True"
| "is_value_error _ = False"

abbreviation value_error :: "string \<Rightarrow> 'a res" where
  "value_error s \<equiv> Inl (ValueError (lit s))"

definition rbind :: "'a res \<Rightarrow> ('a \<Rightarrow> 'b res) \<Rightarrow> 'b res" where
  "rbind r f = (case r of Inl e \<Rightarrow> Inl e | Inr x \<Rightarrow> f x)"

lemma rbind_simps [simp]:
  "rbind (Inl e) f = Inl e"
  "rbind (Inr x) f = f x"
  by (simp_all add: rbind_def)

lemma rbind_eq_Inr [res_simps]: "rbind r f = Inr y \<longleftrightarrow> (\<exists>x. r = Inr x \<and> f x = Inr y)"
  by (cases r) auto

lemma rbind_eq_Inl [res_simps]:
  "rbind r f = Inl e \<longleftrightarrow> r = Inl e \<or> (\<exists>x. r = Inr x \<and> f x = Inl e)"
  by (cases r) auto

lemma rbind_cong [fundef_cong]:
  "r = r' \<Longrightarrow> (\<And>x. r' = Inr x \<Longrightarrow> f x = g x) \<Longrightarrow> rbind r f = rbind r' g"
  by (cases r') auto

text \<open>
  A sequence of \<open>append\<close> and \<open>extend\<close> calls on a \<^verbatim>\<open>bytearray\<close>: the pieces in order, up to the
  first call that raises.
\<close>

fun concat_res :: "bytes res list \<Rightarrow> bytes res" where
  "concat_res [] = Inr []"
| "concat_res (p # ps) = rbind p (\<lambda>b. rbind (concat_res ps) (\<lambda>bs. Inr (b @ bs)))"

lemma concat_res_Cons_Inr [res_simps]:
  "concat_res (p # ps) = Inr out \<longleftrightarrow>
     (\<exists>b bs. p = Inr b \<and> concat_res ps = Inr bs \<and> out = b @ bs)"
  by (auto simp: rbind_eq_Inr)

lemma byte_256 [simp]: "(256 :: byte) = 0"
  by (transfer, simp)

text \<open>A number as a byte (kept opaque, so that the simplifier does not split sums over it).\<close>

definition byte_of :: "nat \<Rightarrow> byte" where
  "byte_of n = word_of_nat n"

lemma unat_byte_of_mod: "unat (byte_of n) = n mod 256"
  by (simp add: byte_of_def unat_of_nat)

lemma unat_byte_of [simp]: "n < 256 \<Longrightarrow> unat (byte_of n) = n"
  by (simp add: unat_byte_of_mod)

lemma byte_of_unat [simp]: "byte_of (unat b) = b"
  by (simp add: byte_of_def)

lemma byte_of_eq_iff: "m < 256 \<Longrightarrow> n < 256 \<Longrightarrow> byte_of m = byte_of n \<longleftrightarrow> m = n"
  by (metis unat_byte_of)

lemma unat_byte_less [simp]: "unat (b :: byte) < 256"
  using unsigned_less [of b] by simp

text \<open>\<^verbatim>\<open>bytearray.append\<close>: a value outside \<open>range(256)\<close> raises.\<close>

definition append_byte :: "int \<Rightarrow> bytes res" where
  "append_byte n =
     (if 0 \<le> n \<and> n < 256 then Inr [byte_of (nat n)]
      else value_error ''byte must be in range(0, 256)'')"

lemma append_byte_eq_Inr [res_simps]:
  "append_byte n = Inr b \<longleftrightarrow> 0 \<le> n \<and> n < 256 \<and> b = [byte_of (nat n)]"
  by (auto simp: append_byte_def)

lemma append_byte_small [simp]: "0 \<le> n \<Longrightarrow> n < 256 \<Longrightarrow> append_byte n = Inr [byte_of (nat n)]"
  by (simp add: append_byte_def)

section \<open>Slices and indexing\<close>

text \<open>\<open>xs[a:b]\<close> for \<open>0 \<le> a\<close>: total, as Python's slicing is.\<close>

definition slice :: "nat \<Rightarrow> nat \<Rightarrow> 'a list \<Rightarrow> 'a list" where
  "slice a b xs = take (b - a) (drop a xs)"

text \<open>\<open>xs[i]\<close> for \<open>0 \<le> i\<close>: raises past the end.\<close>

definition index_res :: "'a list \<Rightarrow> nat \<Rightarrow> 'a res" where
  "index_res xs i = (if i < length xs then Inr (xs ! i) else Inl IndexError)"

lemma index_res_eq_Inr [res_simps]:
  "index_res xs i = Inr x \<longleftrightarrow> i < length xs \<and> x = xs ! i"
  by (auto simp: index_res_def)

lemma index_res_ok [simp]: "i < length xs \<Longrightarrow> index_res xs i = Inr (xs ! i)"
  by (simp add: index_res_def)

lemma length_slice [simp]: "length (slice a b xs) = min (b - a) (length xs - a)"
  by (simp add: slice_def)

lemma slice_0 [simp]: "slice 0 b xs = take b xs"
  by (simp add: slice_def)

lemma slice_append_right [simp]:
  "length xs \<le> a \<Longrightarrow> slice a b (xs @ ys) = slice (a - length xs) (b - length xs) ys"
  by (simp add: slice_def)

lemma slice_Cons [simp]: "0 < a \<Longrightarrow> slice a b (x # xs) = slice (a - 1) (b - 1) xs"
  by (cases a; cases b) (simp_all add: slice_def)

lemma index_res_Cons [simp]: "0 < i \<Longrightarrow> index_res (x # xs) i = index_res xs (i - 1)"
  by (cases i) (simp_all add: index_res_def)

lemma index_res_Cons_0 [simp]: "index_res (x # xs) 0 = Inr x"
  by (simp add: index_res_def)

lemma index_res_append_right [simp]:
  "length xs \<le> i \<Longrightarrow> index_res (xs @ ys) i = index_res ys (i - length xs)"
  by (auto simp: index_res_def nth_append)

lemma index_res_append_left [simp]: "i < length xs \<Longrightarrow> index_res (xs @ ys) i = Inr (xs ! i)"
  by (simp add: index_res_def nth_append)

lemma slice_append_left [simp]: "b \<le> length xs \<Longrightarrow> slice a b (xs @ ys) = slice a b xs"
  by (simp add: slice_def)

section \<open>Positional notation and big-endian integers\<close>

text \<open>The last \<open>n\<close> digits of \<open>v\<close> in a base, most significant first, and the value of a digit string.\<close>

fun to_digits :: "nat \<Rightarrow> nat \<Rightarrow> nat \<Rightarrow> nat list" where
  "to_digits base 0 v = []"
| "to_digits base (Suc n) v = to_digits base n (v div base) @ [v mod base]"

definition of_digits :: "nat \<Rightarrow> nat list \<Rightarrow> nat" where
  "of_digits base ds = foldl (\<lambda>a d. a * base + d) 0 ds"

lemma of_digits_Nil [simp]: "of_digits base [] = 0"
  by (simp add: of_digits_def)

lemma of_digits_snoc [simp]: "of_digits base (ds @ [d]) = of_digits base ds * base + d"
  by (simp add: of_digits_def)

lemma length_to_digits [simp]: "length (to_digits base n v) = n"
  by (induction n arbitrary: v) auto

lemma set_to_digits: "0 < base \<Longrightarrow> d \<in> set (to_digits base n v) \<Longrightarrow> d < base"
  by (induction n arbitrary: v) auto

lemma of_digits_to_digits: "of_digits base (to_digits base n v) = v mod base ^ n"
proof (induction n arbitrary: v)
  case 0
  then show ?case by simp
next
  case (Suc n)
  have "of_digits base (to_digits base (Suc n) v) = (v div base) mod base ^ n * base + v mod base"
    by (simp add: Suc)
  also have "\<dots> = v mod (base * base ^ n)"
    by (simp add: mod_mult2_eq)
  finally show ?case by simp
qed

lemma to_digits_of_digits:
  "length ds = n \<Longrightarrow> \<forall>d\<in>set ds. d < base \<Longrightarrow> to_digits base n (of_digits base ds) = ds"
proof (induction ds arbitrary: n rule: rev_induct)
  case Nil
  then show ?case by simp
next
  case (snoc d ds)
  then obtain m where "n = Suc m" "length ds = m"
    by (cases n) auto
  with snoc show ?case by simp
qed

lemma of_digits_less: "\<forall>d\<in>set ds. d < base \<Longrightarrow> of_digits base ds < base ^ length ds"
proof (induction ds rule: rev_induct)
  case Nil
  then show ?case by simp
next
  case (snoc d ds)
  then have "of_digits base ds * base + d < (of_digits base ds + 1) * base"
    by simp
  also have "\<dots> \<le> base ^ length ds * base"
    using snoc by (intro mult_le_mono1) (simp add: Suc_leI)
  finally show ?case by (simp add: mult.commute)
qed

text \<open>\<^verbatim>\<open>int.to_bytes(n, "big")\<close> for a value in range, and \<^verbatim>\<open>int.from_bytes(bs, "big")\<close>.\<close>

definition to_be :: "nat \<Rightarrow> nat \<Rightarrow> bytes" where
  "to_be n v = map byte_of (to_digits 256 n v)"

definition of_be :: "bytes \<Rightarrow> nat" where
  "of_be bs = of_digits 256 (map unat bs)"

lemma length_to_be [simp]: "length (to_be n v) = n"
  by (simp add: to_be_def)

lemma map_unat_byte_of: "\<forall>d\<in>set ds. d < 256 \<Longrightarrow> map unat (map byte_of ds) = ds"
  by (induction ds) auto

lemma of_be_to_be: "of_be (to_be n v) = v mod 256 ^ n"
  by (simp add: of_be_def to_be_def map_unat_byte_of set_to_digits of_digits_to_digits
      del: map_map)

lemma of_be_to_be_small [wire]: "v < 256 ^ n \<Longrightarrow> of_be (to_be n v) = v"
  by (simp add: of_be_to_be)

lemma of_be_less: "of_be bs < 256 ^ length bs"
  using of_digits_less [of "map unat bs" 256] by (simp add: of_be_def)

lemma to_be_of_be [wire]: "length bs = n \<Longrightarrow> to_be n (of_be bs) = bs"
  by (simp add: of_be_def to_be_def to_digits_of_digits map_idI)

text \<open>
  \<^verbatim>\<open>struct.pack(">H", v)\<close> and \<^verbatim>\<open>struct.pack(">I", v)\<close> raise \<^verbatim>\<open>struct.error\<close> out of range;
  \<^verbatim>\<open>v.to_bytes(n, "big")\<close> raises \<^verbatim>\<open>OverflowError\<close>.
\<close>

definition struct_pack :: "nat \<Rightarrow> int \<Rightarrow> bytes res" where
  "struct_pack n v = (if 0 \<le> v \<and> v < 256 ^ n then Inr (to_be n (nat v)) else Inl StructError)"

definition int_to_bytes :: "nat \<Rightarrow> int \<Rightarrow> bytes res" where
  "int_to_bytes n v = (if 0 \<le> v \<and> v < 256 ^ n then Inr (to_be n (nat v)) else Inl OverflowError)"

text \<open>\<^verbatim>\<open>struct.unpack\<close> of an \<open>n\<close>-byte unsigned field: the buffer must have exactly \<open>n\<close> bytes.\<close>

definition struct_unpack :: "nat \<Rightarrow> bytes \<Rightarrow> int res" where
  "struct_unpack n bs = (if length bs = n then Inr (int (of_be bs)) else Inl StructError)"

lemma struct_pack_eq_Inr [res_simps]:
  "struct_pack n v = Inr bs \<longleftrightarrow> 0 \<le> v \<and> v < 256 ^ n \<and> bs = to_be n (nat v)"
  by (auto simp: struct_pack_def)

lemma struct_pack_ok: "0 \<le> v \<Longrightarrow> v < 256 ^ n \<Longrightarrow> struct_pack n v = Inr (to_be n (nat v))"
  by (simp add: struct_pack_def)

lemma nat_less_power: "0 \<le> v \<Longrightarrow> v < 256 ^ n \<Longrightarrow> nat v < 256 ^ n"
  by (simp add: nat_less_iff)

lemma struct_unpack_ok [simp]: "length bs = n \<Longrightarrow> struct_unpack n bs = Inr (int (of_be bs))"
  by (simp add: struct_unpack_def)

lemma struct_unpack_eq_Inr [res_simps]:
  "struct_unpack n bs = Inr v \<longleftrightarrow> length bs = n \<and> v = int (of_be bs)"
  by (auto simp: struct_unpack_def)

section \<open>Dictionaries\<close>

type_synonym ('k, 'v) dict = "('k \<times> 'v) list"

abbreviation dict_get :: "('k, 'v) dict \<Rightarrow> 'k \<Rightarrow> 'v option" where
  "dict_get \<equiv> map_of"

abbreviation dict_set :: "'k \<Rightarrow> 'v \<Rightarrow> ('k, 'v) dict \<Rightarrow> ('k, 'v) dict" where
  "dict_set \<equiv> AList.update"

abbreviation dict_del :: "'k \<Rightarrow> ('k, 'v) dict \<Rightarrow> ('k, 'v) dict" where
  "dict_del \<equiv> AList.delete"

definition has_key :: "('k, 'v) dict \<Rightarrow> 'k \<Rightarrow> bool" where
  "has_key d k \<longleftrightarrow> dict_get d k \<noteq> None"

abbreviation dict_keys :: "('k, 'v) dict \<Rightarrow> 'k set" where
  "dict_keys d \<equiv> fst ` set d"

definition dict_ok :: "('k, 'v) dict \<Rightarrow> bool" where
  "dict_ok d \<longleftrightarrow> distinct (map fst d)"

lemma dict_get_set [dict_simps]:
  "dict_get (dict_set k v d) k' = (if k' = k then Some v else dict_get d k')"
  by (simp add: update_conv')

lemma dict_get_del [dict_simps]:
  "dict_get (dict_del k d) k' = (if k' = k then None else dict_get d k')"
  by (simp add: delete_conv')

lemma has_key_set [dict_simps]: "has_key (dict_set k v d) k' \<longleftrightarrow> k' = k \<or> has_key d k'"
  by (simp add: has_key_def dict_get_set)

lemma has_key_del [dict_simps]: "has_key (dict_del k d) k' \<longleftrightarrow> k' \<noteq> k \<and> has_key d k'"
  by (simp add: has_key_def dict_get_del)

lemma has_key_Nil [simp]: "\<not> has_key [] k"
  by (simp add: has_key_def)

lemma has_key_iff: "has_key d k \<longleftrightarrow> k \<in> dict_keys d"
  by (simp add: has_key_def map_of_eq_None_iff)

lemma dict_get_has_key: "dict_get d k = Some v \<Longrightarrow> has_key d k"
  by (simp add: has_key_def)

lemma dict_ok_Nil [simp]: "dict_ok []"
  by (simp add: dict_ok_def)

lemma dict_ok_set [simp]: "dict_ok d \<Longrightarrow> dict_ok (dict_set k v d)"
  by (simp add: dict_ok_def distinct_update)

lemma dict_ok_del [simp]: "dict_ok d \<Longrightarrow> dict_ok (dict_del k d)"
  by (simp add: dict_ok_def distinct_delete)

lemma dict_in_iff: "dict_ok d \<Longrightarrow> (k, v) \<in> set d \<longleftrightarrow> dict_get d k = Some v"
  by (simp add: dict_ok_def)

section \<open>Wire formats\<close>

text \<open>
  The contract of an encoder and its decoder: what the decoder returns on the encoder's output is
  the encoded value, up to the normal form the format transmits. \<open>valid\<close> says which values the
  format carries.
\<close>

locale wire_format =
  fixes enc :: "'a \<Rightarrow> 'w res"
    and dec :: "'w \<Rightarrow> 'a res"
    and valid :: "'a \<Rightarrow> bool"
    and norm :: "'a \<Rightarrow> 'a"
  assumes dec_enc: "valid x \<Longrightarrow> enc x = Inr w \<Longrightarrow> dec w = Inr (norm x)"
begin

lemma unambiguous: "valid x \<Longrightarrow> valid y \<Longrightarrow> enc x = Inr w \<Longrightarrow> enc y = Inr w \<Longrightarrow> norm x = norm y"
  by (drule (1) dec_enc, drule (1) dec_enc) simp

lemma no_spurious_error: "valid x \<Longrightarrow> enc x = Inr w \<Longrightarrow> dec w \<noteq> Inl e"
  by (drule (1) dec_enc) simp

lemma transmit: "valid x \<Longrightarrow> enc x = Inr w \<Longrightarrow> rbind (enc x) dec = Inr (norm x)"
  by (drule (1) dec_enc) simp

end

section \<open>Machines and their invariants\<close>

text \<open>
  A component whose operations are steps \<open>step s e\<close> and a property every step keeps. What holds of
  one step holds of every run, whatever the order in which the operations are called.
\<close>

locale invariant_machine =
  fixes step :: "'s \<Rightarrow> 'e \<Rightarrow> 's"
    and inv :: "'s \<Rightarrow> bool"
  assumes step_keeps: "inv s \<Longrightarrow> inv (step s e)"
begin

lemma run_keeps: "inv s \<Longrightarrow> inv (foldl step s es)"
  by (induction es arbitrary: s) (auto intro: step_keeps)

lemma run_prefix_keeps: "inv s \<Longrightarrow> inv (foldl step s (take n es))"
  by (rule run_keeps)

end

text \<open>The same for a step relation, where a step is taken by whoever is able to take one.\<close>

locale transition_system =
  fixes init :: "'s \<Rightarrow> bool"
    and step :: "'s \<Rightarrow> 's \<Rightarrow> bool"
    and inv :: "'s \<Rightarrow> bool"
  assumes init_inv: "init s \<Longrightarrow> inv s"
    and step_inv: "step s s' \<Longrightarrow> inv s \<Longrightarrow> inv s'"
begin

lemma steps_inv: "step\<^sup>*\<^sup>* s s' \<Longrightarrow> inv s \<Longrightarrow> inv s'"
  by (induction rule: rtranclp_induct) (auto intro: step_inv)

lemma reached_inv: "init s \<Longrightarrow> step\<^sup>*\<^sup>* s s' \<Longrightarrow> inv s'"
  by (rule steps_inv [OF _ init_inv])

end

section \<open>Mailboxes\<close>

text \<open>
  A queue between tasks, inside a state: \<open>contents\<close> is what waits in it, if it exists. What is put in comes
  out in order.
\<close>

locale mailbox =
  fixes contents :: "'s \<Rightarrow> 'm list option"
    and put :: "'m \<Rightarrow> 's \<Rightarrow> 's"
    and get :: "'s \<Rightarrow> 'm option \<times> 's"
  assumes put_contents: "contents s = Some q \<Longrightarrow> contents (put m s) = Some (q @ [m])"
    and get_first: "contents s = Some (m # q) \<Longrightarrow> fst (get s) = Some m \<and> contents (snd (get s)) = Some q"
    and get_empty: "contents s = Some [] \<Longrightarrow> get s = (None, s)"
begin

lemma puts_contents: "contents s = Some q \<Longrightarrow> contents (fold put ms s) = Some (q @ ms)"
  by (induction ms arbitrary: s q) (auto simp: put_contents)

lemma first_out:
  assumes "contents s = Some q" "q @ ms = m # r"
  shows "\<exists>s'. get (fold put ms s) = (Some m, s') \<and> contents s' = Some r"
  using get_first [of "fold put ms s" m r] puts_contents [OF assms(1), of ms] assms(2)
  by (metis prod.collapse)

lemma sole_message: "contents s = Some [] \<Longrightarrow> \<exists>s'. get (put m s) = (Some m, s') \<and> contents s' = Some []"
  using first_out [of s "[]" "[m]"] by simp

end

end
