(* ===== verification/PortPool.thy ===== *)
theory PortPool
  imports Prelude
begin

text \<open>
  The pool of SOCKS ports (class \<open>PortPool\<close> of \<^verbatim>\<open>pywssocks/common.py\<close>). The two sets are the attributes
  \<open>_port_pool\<close> and \<open>_used_ports\<close>; every operation runs under the lock, so it is one step. The choice
  \<^verbatim>\<open>random.choice\<close> makes among the available ports is the parameter \<open>choice\<close>.

  The contract the server relies on is the locale \<open>port_allocator\<close>: an allocated port was free, is
  in use afterwards, and stays so until it is put back.
\<close>

section \<open>State and operations\<close>

record port_pool =
  pp_pool :: "int list"
  pp_used :: "int set"

definition pp_init :: "int list \<Rightarrow> port_pool" where
  "pp_init pool = \<lparr>pp_pool = remdups pool, pp_used = {}\<rparr>"

definition pp_available :: "port_pool \<Rightarrow> int list" where
  "pp_available s = [p \<leftarrow> pp_pool s. p \<notin> pp_used s]"

text \<open>\<^verbatim>\<open>random.choice(xs)\<close> is the element at a random index below the length.\<close>

definition random_choice :: "nat \<Rightarrow> 'a list \<Rightarrow> 'a" where
  "random_choice draw xs = xs ! (draw mod length xs)"

fun pp_get :: "nat \<Rightarrow> int option \<Rightarrow> port_pool \<Rightarrow> int option \<times> port_pool" where
  "pp_get draw (Some port) s =
     (if port \<notin> pp_used s then (Some port, s\<lparr>pp_used := insert port (pp_used s)\<rparr>) else (None, s))"
| "pp_get draw None s =
     (let available_ports = pp_available s in
      if available_ports \<noteq> [] then
        (let port = random_choice draw available_ports in
         (Some port, s\<lparr>pp_used := insert port (pp_used s)\<rparr>))
      else (None, s))"

definition pp_put :: "int \<Rightarrow> port_pool \<Rightarrow> port_pool" where
  "pp_put port s =
     (if port \<in> pp_used s then s\<lparr>pp_used := pp_used s - {port}\<rparr> else s)"

lemma random_choice_in: "xs \<noteq> [] \<Longrightarrow> random_choice draw xs \<in> set xs"
  by (simp add: random_choice_def)

text \<open>Every element is the choice for some draw.\<close>

lemma random_choice_all: "x \<in> set xs \<Longrightarrow> \<exists>draw. random_choice draw xs = x"
  by (metis in_set_conv_nth mod_less random_choice_def)

lemma available_choice:
  "pp_available s \<noteq> [] \<Longrightarrow>
     random_choice draw (pp_available s) \<in> set (pp_pool s) \<and>
     random_choice draw (pp_available s) \<notin> pp_used s"
  using random_choice_in [of "pp_available s" draw] by (auto simp: pp_available_def)

lemma available_empty: "pp_available s = [] \<longleftrightarrow> set (pp_pool s) \<subseteq> pp_used s"
  by (auto simp: pp_available_def filter_empty_conv)

lemma pp_used_put [simp]: "pp_used (pp_put p s) = pp_used s - {p}"
  by (auto simp: pp_put_def)

lemma pp_pool_put [simp]: "pp_pool (pp_put p s) = pp_pool s"
  by (auto simp: pp_put_def)

section \<open>The contract\<close>

text \<open>
  \<open>get request s\<close> returns a port or nothing; \<open>used\<close> and \<open>pool\<close> observe the state. A specific request
  is granted exactly when that port is free, an open one exactly when the pool has a free port.
\<close>

locale port_allocator =
  fixes get :: "int option \<Rightarrow> 's \<Rightarrow> int option \<times> 's"
    and put :: "int \<Rightarrow> 's \<Rightarrow> 's"
    and used :: "'s \<Rightarrow> int set"
    and pool :: "'s \<Rightarrow> int set"
  assumes get_some: "get r s = (Some p, s') \<Longrightarrow>
      p \<notin> used s \<and> used s' = insert p (used s) \<and> pool s' = pool s \<and>
      (case r of Some q \<Rightarrow> p = q | None \<Rightarrow> p \<in> pool s)"
    and get_none: "get r s = (None, s') \<Longrightarrow>
      s' = s \<and> (case r of Some q \<Rightarrow> q \<in> used s | None \<Rightarrow> pool s \<subseteq> used s)"
    and put_used: "used (put p s) = used s - {p}"
    and put_pool: "pool (put p s) = pool s"

text \<open>
  Holders of ports: a client asks for a port (and holds what it gets) or gives back one it holds.
\<close>

datatype pool_op = Ask nat "int option" | Give nat

fun pool_step ::
    "(int option \<Rightarrow> 's \<Rightarrow> int option \<times> 's) \<Rightarrow> (int \<Rightarrow> 's \<Rightarrow> 's) \<Rightarrow>
     's \<times> (nat, int) dict \<Rightarrow> pool_op \<Rightarrow> 's \<times> (nat, int) dict" where
  "pool_step get put (s, held) (Ask c r) =
     (if has_key held c then (s, held)
      else case get r s of
        (Some p, s') \<Rightarrow> (s', dict_set c p held)
      | (None, s') \<Rightarrow> (s', held))"
| "pool_step get put (s, held) (Give c) =
     (case dict_get held c of
        Some p \<Rightarrow> (put p s, dict_del c held)
      | None \<Rightarrow> (s, held))"

definition held_ok :: "('s \<Rightarrow> int set) \<Rightarrow> 's \<times> (nat, int) dict \<Rightarrow> bool" where
  "held_ok used st \<longleftrightarrow>
     used (fst st) = {p. \<exists>c. dict_get (snd st) c = Some p} \<and>
     (\<forall>c d p. dict_get (snd st) c = Some p \<longrightarrow> dict_get (snd st) d = Some p \<longrightarrow> c = d)"

context port_allocator
begin

lemma held_ok_step:
  assumes "held_ok used st"
  shows "held_ok used (pool_step get put st op)"
proof (cases op)
  case (Ask c r)
  show ?thesis
  proof (cases "has_key (snd st) c")
    case True
    with Ask assms show ?thesis by (cases st) simp
  next
    case False
    obtain o' s' where g: "get r (fst st) = (o', s')" by fastforce
    show ?thesis
    proof (cases o')
      case None
      with g get_none [of r "fst st" s'] Ask False assms show ?thesis by (cases st) auto
    next
      case (Some p)
      with g get_some [of r "fst st" p s'] have "p \<notin> used (fst st)" "used s' = insert p (used (fst st))"
        by auto
      with g Some Ask False assms show ?thesis
        by (cases st) (auto simp: held_ok_def has_key_def dict_simps, metis option.distinct(1))
    qed
  qed
next
  case (Give c)
  with assms show ?thesis
    by (cases st; cases "dict_get (snd st) c")
      (auto simp: held_ok_def put_used dict_simps, metis option.inject)
qed

lemma exclusive:
  "held_ok used st \<Longrightarrow> held_ok used (foldl (pool_step get put) st ops)"
proof (induction ops arbitrary: st)
  case (Cons op ops)
  from Cons.IH [OF held_ok_step [OF Cons.prems]] show ?case by simp
qed simp

lemma get_put: "get r s = (Some p, s') \<Longrightarrow> used (put p s') = used s"
  using get_some [of r s p s'] by (auto simp: put_used)

end

text \<open>The code's pool provides the contract, whatever the random draws are.\<close>

lemma pp_get_eq_Some:
  "pp_get draw r s = (Some p, s') \<longleftrightarrow>
     p \<notin> pp_used s \<and> s' = s\<lparr>pp_used := insert p (pp_used s)\<rparr> \<and>
     (case r of Some q \<Rightarrow> p = q
      | None \<Rightarrow> pp_available s \<noteq> [] \<and> p = random_choice draw (pp_available s))"
  using available_choice [of s draw] by (cases r) (auto simp: Let_def split: if_splits)

lemma pp_get_eq_None:
  "pp_get draw r s = (None, s') \<longleftrightarrow>
     s' = s \<and> (case r of Some q \<Rightarrow> q \<in> pp_used s | None \<Rightarrow> set (pp_pool s) \<subseteq> pp_used s)"
  by (cases r) (auto simp: Let_def available_empty)

interpretation ports: port_allocator "pp_get draw" pp_put pp_used "\<lambda>s. set (pp_pool s)" for draw
proof
  show "p \<notin> pp_used s \<and> pp_used s' = insert p (pp_used s) \<and> set (pp_pool s') = set (pp_pool s) \<and>
      (case r of Some q \<Rightarrow> p = q | None \<Rightarrow> p \<in> set (pp_pool s))"
    if "pp_get draw r s = (Some p, s')" for r s p s'
    using that available_choice [of s draw] by (auto simp: pp_get_eq_Some split: option.splits)
qed (auto simp: pp_get_eq_None split: option.splits)

text \<open>Holders of the code's pool, with a draw of its own for every request.\<close>

fun pp_run ::
    "port_pool \<times> (nat, int) dict \<Rightarrow> (nat \<times> pool_op) list \<Rightarrow> port_pool \<times> (nat, int) dict" where
  "pp_run st [] = st"
| "pp_run st ((draw, op) # ops) = pp_run (pool_step (pp_get draw) pp_put st op) ops"

lemma pp_run_held: "held_ok pp_used st \<Longrightarrow> held_ok pp_used (pp_run st ops)"
  by (induction st ops rule: pp_run.induct) (auto intro: ports.held_ok_step)

section \<open>Properties\<close>

text \<open>
  C32. Exclusive allocation: whatever sequence of requests and releases the holders of ports make and
  whatever the random draws are, no two holders ever hold the same port, and the pool's record of
  used ports is exactly the set of held ones (no port is lost, none is handed out twice).
\<close>

theorem port_exclusive:
  "let st = pp_run (pp_init pool, []) ops in
     pp_used (fst st) = {p. \<exists>c. dict_get (snd st) c = Some p} \<and>
     (\<forall>c d p. \<not> (dict_get (snd st) c = Some p \<and> dict_get (snd st) d = Some p \<and> c \<noteq> d))"
proof -
  have "held_ok pp_used (pp_init pool, [])"
    by (simp add: held_ok_def pp_init_def)
  from pp_run_held [OF this, of ops] show ?thesis
    unfolding held_ok_def Let_def by blast
qed

text \<open>
  Availability: an open request fails only when every port of the pool is in use, a request for a
  specific port only when that port is in use, and a failed request changes nothing.
\<close>

theorem port_unavailable_iff:
  "fst (pp_get draw r s) = None \<longleftrightarrow>
     (case r of Some q \<Rightarrow> q \<in> pp_used s | None \<Rightarrow> set (pp_pool s) \<subseteq> pp_used s)"
  using pp_get_eq_None [of draw r s "snd (pp_get draw r s)"]
  by (cases r) (auto simp: Let_def available_empty)

end
