(* ===== verification/Utf8.thy ===== *)
theory Utf8
  imports Prelude
begin

text \<open>
  \<^verbatim>\<open>str.encode()\<close> and \<^verbatim>\<open>bytes.decode()\<close> as the message and SOCKS code use them: UTF-8, strict.
  Encoding refuses the surrogate code points; decoding refuses stray and missing continuation
  bytes, overlong forms, surrogates and values past \<open>0x10FFFF\<close>. The two are inverse in both
  directions (\<open>utf8_decode_encode\<close>, \<open>utf8_encode_decode\<close>), and the encoding is as long as the
  string exactly when every character is ASCII (\<open>utf8_length_eq_iff\<close>), which is what the length
  bytes of the wire format depend on.
\<close>

section \<open>One code point\<close>

definition is_surrogate :: "nat \<Rightarrow> bool" where
  "is_surrogate c \<longleftrightarrow> 0xD800 \<le> c \<and> c \<le> 0xDFFF"

definition enc_cp :: "nat \<Rightarrow> bytes res" where
  "enc_cp c =
     (if c < 0x80 then Inr [byte_of c]
      else if c < 0x800 then
        Inr [byte_of (0xC0 + c div 64), byte_of (0x80 + c mod 64)]
      else if is_surrogate c then Inl UnicodeEncodeError
      else if c < 0x10000 then
        Inr [byte_of (0xE0 + c div 4096), byte_of (0x80 + c div 64 mod 64),
             byte_of (0x80 + c mod 64)]
      else if c < 0x110000 then
        Inr [byte_of (0xF0 + c div 262144), byte_of (0x80 + c div 4096 mod 64),
             byte_of (0x80 + c div 64 mod 64), byte_of (0x80 + c mod 64)]
      else Inl UnicodeEncodeError)"

definition is_cont :: "byte \<Rightarrow> bool" where
  "is_cont b \<longleftrightarrow> 0x80 \<le> unat b \<and> unat b < 0xC0"

definition low6 :: "byte \<Rightarrow> nat" where
  "low6 b = unat b - 0x80"

text \<open>The first code point of a byte string and the bytes after it.\<close>

fun dec_cp :: "bytes \<Rightarrow> (nat \<times> bytes) option" where
  "dec_cp [] = None"
| "dec_cp (b # bs) =
     (let x = unat b in
      if x < 0x80 then Some (x, bs)
      else if x < 0xC2 then None
      else if x < 0xE0 then
        (case bs of
           b1 # r \<Rightarrow> if is_cont b1 then Some ((x - 0xC0) * 64 + low6 b1, r) else None
         | _ \<Rightarrow> None)
      else if x < 0xF0 then
        (case bs of
           b1 # b2 # r \<Rightarrow>
             (let c = (x - 0xE0) * 4096 + low6 b1 * 64 + low6 b2 in
              if is_cont b1 \<and> is_cont b2 \<and> 0x800 \<le> c \<and> \<not> is_surrogate c
              then Some (c, r) else None)
         | _ \<Rightarrow> None)
      else if x < 0xF5 then
        (case bs of
           b1 # b2 # b3 # r \<Rightarrow>
             (let c = (x - 0xF0) * 262144 + low6 b1 * 4096 + low6 b2 * 64 + low6 b3 in
              if is_cont b1 \<and> is_cont b2 \<and> is_cont b3 \<and> 0x10000 \<le> c \<and> c < 0x110000
              then Some (c, r) else None)
         | _ \<Rightarrow> None)
      else None)"

lemma is_cont_byte_of [simp]: "k < 64 \<Longrightarrow> is_cont (byte_of (128 + k))"
  by (simp add: is_cont_def)

lemma low6_byte_of [simp]: "k < 64 \<Longrightarrow> low6 (byte_of (128 + k)) = k"
  by (simp add: low6_def)

lemma split64: "(c::nat) div 64 * 64 + c mod 64 = c"
  by simp

lemma join_digits:
  "q * 64 + r = d \<Longrightarrow> d * 64 + s = (c::nat) \<Longrightarrow> q * 4096 + r * 64 + s = c"
  "q * 64 + r = d \<Longrightarrow> d * 4096 + s = (c::nat) \<Longrightarrow> q * 262144 + r * 4096 + s = c"
  by auto

lemma split4096: "(c::nat) div 4096 * 4096 + c div 64 mod 64 * 64 + c mod 64 = c"
  using join_digits(1) [OF split64 [of "c div 64"] split64 [of c]]
  by (simp add: div_mult2_eq [symmetric])

lemma split262144:
  "(c::nat) div 262144 * 262144 + c div 4096 mod 64 * 4096 + c div 64 mod 64 * 64 + c mod 64 = c"
  using join_digits(2) [OF split64 [of "c div 4096"],
      of "c div 64 mod 64 * 64 + c mod 64" c] split4096 [of c]
  by (simp add: div_mult2_eq [symmetric] add.assoc)

lemma dec_cp_enc_cp [wire]: "enc_cp c = Inr b \<Longrightarrow> dec_cp (b @ rest) = Some (c, rest)"
proof -
  assume enc: "enc_cp c = Inr b"
  consider "c < 0x80" | "0x80 \<le> c" "c < 0x800"
    | "0x800 \<le> c" "c < 0x10000" "\<not> is_surrogate c" | "0x10000 \<le> c" "c < 0x110000"
    using enc by (fastforce simp: enc_cp_def split: if_splits)
  then show ?thesis
  proof cases
    case 1
    with enc show ?thesis by (auto simp: enc_cp_def)
  next
    case 2
    then have "c div 64 < 32" "2 \<le> c div 64" by auto
    with 2 enc show ?thesis
      by (auto simp: enc_cp_def Let_def)
  next
    case 3
    then have "c div 4096 < 16" by auto
    with 3 enc show ?thesis
      by (auto simp: enc_cp_def Let_def split4096)
  next
    case 4
    then have "c div 262144 < 5" by auto
    moreover from 4 have "\<not> is_surrogate c" by (simp add: is_surrogate_def)
    ultimately show ?thesis
      using 4 enc by (auto simp: enc_cp_def Let_def split262144)
  qed
qed

lemma is_contE:
  assumes "is_cont b"
  obtains k where "k < 64" "b = byte_of (128 + k)" "low6 b = k"
proof -
  from assms have "128 \<le> unat b" "unat b < 192"
    by (simp_all add: is_cont_def)
  then have "low6 b < 64" and "b = byte_of (128 + low6 b)"
    by (auto simp: low6_def)
  then show thesis by (rule that) simp
qed

lemma digit64: "k < 64 \<Longrightarrow> (d * 64 + k) div 64 = (d::nat)" "k < 64 \<Longrightarrow> (d * 64 + k) mod 64 = k"
  by simp_all

lemma enc_two: "2 \<le> h \<Longrightarrow> h < 32 \<Longrightarrow> k < 64 \<Longrightarrow>
    enc_cp (h * 64 + k) = Inr [byte_of (192 + h), byte_of (128 + k)]"
  by (simp add: enc_cp_def)

lemma enc_three: "c = h * 4096 + k * 64 + l \<Longrightarrow> h < 16 \<Longrightarrow> k < 64 \<Longrightarrow> l < 64 \<Longrightarrow>
    0x800 \<le> c \<Longrightarrow> \<not> is_surrogate c \<Longrightarrow>
    enc_cp c = Inr [byte_of (224 + h), byte_of (128 + k), byte_of (128 + l)]"
proof -
  assume c: "c = h * 4096 + k * 64 + l" and b: "h < 16" "k < 64" "l < 64"
    and r: "0x800 \<le> c" "\<not> is_surrogate c"
  have "c = (h * 64 + k) * 64 + l" using c by simp
  then have d: "c div 64 = h * 64 + k" "c mod 64 = l"
    by (simp_all only: digit64 b)
  have "c div 4096 = c div 64 div 64"
    by (simp add: div_mult2_eq [symmetric])
  then have "c div 4096 = h" "c div 64 mod 64 = k"
    using d b by auto
  with d c b r show ?thesis by (simp add: enc_cp_def)
qed

lemma enc_four: "c = h * 262144 + k * 4096 + l * 64 + m \<Longrightarrow> h < 5 \<Longrightarrow> k < 64 \<Longrightarrow> l < 64 \<Longrightarrow> m < 64 \<Longrightarrow>
    0x10000 \<le> c \<Longrightarrow> c < 0x110000 \<Longrightarrow>
    enc_cp c = Inr [byte_of (240 + h), byte_of (128 + k), byte_of (128 + l), byte_of (128 + m)]"
proof -
  assume c: "c = h * 262144 + k * 4096 + l * 64 + m" and b: "h < 5" "k < 64" "l < 64" "m < 64"
    and r: "0x10000 \<le> c" "c < 0x110000"
  have "c = (h * 4096 + k * 64 + l) * 64 + m" using c by simp
  then have d: "c div 64 = h * 4096 + k * 64 + l" "c mod 64 = m"
    by (simp_all only: digit64 b)
  have "c div 4096 = c div 64 div 64"
    by (simp add: div_mult2_eq [symmetric])
  moreover have "h * 4096 + k * 64 + l = (h * 64 + k) * 64 + l" by simp
  ultimately have e: "c div 4096 = h * 64 + k" "c div 64 mod 64 = l"
    by (simp_all only: d digit64 b)
  have "c div 262144 = c div 4096 div 64"
    by (simp add: div_mult2_eq [symmetric])
  with e b have "c div 262144 = h" "c div 4096 mod 64 = k"
    by auto
  with d e r show ?thesis by (simp add: enc_cp_def is_surrogate_def)
qed

lemma enc_cp_dec_cp:
  assumes "dec_cp bs = Some (c, r)"
  shows "\<exists>b. enc_cp c = Inr b \<and> bs = b @ r"
proof -
  from assms obtain b0 t where bs: "bs = b0 # t" by (cases bs) auto
  define x where "x = unat b0"
  have b0: "b0 = byte_of x" "x < 256" by (simp_all add: x_def)
  note dec = assms [unfolded bs, simplified, folded x_def]
  consider "x < 0x80" | "0xC2 \<le> x" "x < 0xE0" | "0xE0 \<le> x" "x < 0xF0" | "0xF0 \<le> x" "x < 0xF5"
    using dec by (fastforce simp: Let_def split: if_splits)
  then show ?thesis
  proof cases
    case 1
    with dec bs b0 show ?thesis by (auto simp: enc_cp_def)
  next
    case 2
    with dec obtain b1 where t: "t = b1 # r" "is_cont b1" "c = (x - 0xC0) * 64 + low6 b1"
      by (auto split: list.splits if_splits)
    from t(2) obtain k where "k < 64" "b1 = byte_of (128 + k)" "low6 b1 = k" by (rule is_contE)
    moreover from 2 have "192 + (x - 192) = x" "2 \<le> x - 192" "x - 192 < 32" by auto
    ultimately show ?thesis
      using enc_two [of "x - 192" k] bs b0 t by auto
  next
    case 3
    with dec obtain b1 b2 where t: "t = b1 # b2 # r" "is_cont b1" "is_cont b2" "0x800 \<le> c"
        "\<not> is_surrogate c" "c = (x - 0xE0) * 4096 + low6 b1 * 64 + low6 b2"
      by (auto simp: Let_def split: list.splits if_splits)
    from t(2) obtain k where k: "k < 64" "b1 = byte_of (128 + k)" "low6 b1 = k" by (rule is_contE)
    from t(3) obtain l where l: "l < 64" "b2 = byte_of (128 + l)" "low6 b2 = l" by (rule is_contE)
    from 3 have "224 + (x - 224) = x" "x - 224 < 16" by auto
    then show ?thesis
      using enc_three [of c "x - 224" k l] bs b0 t k l by auto
  next
    case 4
    with dec obtain b1 b2 b3 where t: "t = b1 # b2 # b3 # r" "is_cont b1" "is_cont b2" "is_cont b3"
        "0x10000 \<le> c" "c < 0x110000"
        "c = (x - 0xF0) * 262144 + low6 b1 * 4096 + low6 b2 * 64 + low6 b3"
      by (auto simp: Let_def split: list.splits if_splits)
    from t(2) obtain k where k: "k < 64" "b1 = byte_of (128 + k)" "low6 b1 = k" by (rule is_contE)
    from t(3) obtain l where l: "l < 64" "b2 = byte_of (128 + l)" "low6 b2 = l" by (rule is_contE)
    from t(4) obtain m where m: "m < 64" "b3 = byte_of (128 + m)" "low6 b3 = m" by (rule is_contE)
    from 4 have "240 + (x - 240) = x" "x - 240 < 5" by auto
    then show ?thesis
      using enc_four [of c "x - 240" k l m] bs b0 t k l m by auto
  qed
qed

lemma enc_cp_length:
  assumes "enc_cp c = Inr b"
  shows "1 \<le> length b" and "length b \<le> 4" and "length b = 1 \<longleftrightarrow> c < 128"
  using assms by (auto simp: enc_cp_def split: if_splits)

lemma enc_cp_valid: "enc_cp c = Inl e \<longleftrightarrow> e = UnicodeEncodeError \<and> (is_surrogate c \<or> 0x110000 \<le> c)"
  by (auto simp: enc_cp_def is_surrogate_def)

lemma dec_cp_shorter: "dec_cp bs = Some (c, r) \<Longrightarrow> length r < length bs"
  using enc_cp_dec_cp [of bs c r] enc_cp_length(1) by fastforce

section \<open>Strings\<close>

fun utf8_encode :: "pystr \<Rightarrow> bytes res" where
  "utf8_encode [] = Inr []"
| "utf8_encode (c # cs) =
     rbind (enc_cp c) (\<lambda>b. rbind (utf8_encode cs) (\<lambda>bs. Inr (b @ bs)))"

function utf8_decode :: "bytes \<Rightarrow> pystr res" where
  "utf8_decode bs =
     (if bs = [] then Inr []
      else case dec_cp bs of
        None \<Rightarrow> Inl UnicodeDecodeError
      | Some (c, r) \<Rightarrow> rbind (utf8_decode r) (\<lambda>cs. Inr (c # cs)))"
  by pat_completeness auto
termination
  by (relation "measure length") (auto intro: dec_cp_shorter)

declare utf8_decode.simps [simp del]

lemma utf8_decode_Nil [simp]: "utf8_decode [] = Inr []"
  by (simp add: utf8_decode.simps)

lemma utf8_decode_step:
  "dec_cp bs = Some (c, r) \<Longrightarrow> utf8_decode bs = rbind (utf8_decode r) (\<lambda>cs. Inr (c # cs))"
  by (subst utf8_decode.simps) auto

theorem utf8_decode_encode [wire]: "utf8_encode s = Inr bs \<Longrightarrow> utf8_decode bs = Inr s"
proof (induction s arbitrary: bs)
  case Nil
  then show ?case by simp
next
  case (Cons c cs)
  then obtain b r where "enc_cp c = Inr b" "utf8_encode cs = Inr r" "bs = b @ r"
    by (auto simp: rbind_eq_Inr)
  with Cons.IH [of r] show ?case
    by (simp add: utf8_decode_step [OF dec_cp_enc_cp])
qed

theorem utf8_encode_decode: "utf8_decode bs = Inr s \<Longrightarrow> utf8_encode s = Inr bs"
proof (induction bs arbitrary: s rule: utf8_decode.induct)
  case (1 bs)
  show ?case
  proof (cases "bs = []")
    case True
    with "1.prems" show ?thesis by simp
  next
    case False
    with "1.prems" obtain c r cs where d: "dec_cp bs = Some (c, r)" "utf8_decode r = Inr cs" "s = c # cs"
      by (subst (asm) utf8_decode.simps) (auto simp: rbind_eq_Inr split: option.splits)
    from enc_cp_dec_cp [OF d(1)] obtain b where "enc_cp c = Inr b" "bs = b @ r" by blast
    with "1.IH" [OF False d(1) refl d(2)] d(3) show ?thesis by simp
  qed
qed

lemma utf8_decode_error: "utf8_decode bs = Inl e \<Longrightarrow> e = UnicodeDecodeError"
proof (induction bs rule: utf8_decode.induct)
  case (1 bs)
  show ?case
  proof (cases "dec_cp bs")
    case None
    with "1.prems" show ?thesis
      by (subst (asm) utf8_decode.simps) (auto split: if_splits)
  next
    case (Some p)
    with "1" show ?thesis
      by (subst (asm) (2) utf8_decode.simps) (auto simp: rbind_eq_Inl split: if_splits prod.splits)
  qed
qed

lemma utf8_encode_error: "utf8_encode s = Inl e \<Longrightarrow> e = UnicodeEncodeError"
  by (induction s) (auto simp: rbind_eq_Inl enc_cp_valid)

section \<open>Encoded length\<close>

definition ascii :: "pystr \<Rightarrow> bool" where
  "ascii s \<longleftrightarrow> (\<forall>c\<in>set s. c < 128)"

lemma ascii_simps [simp]: "ascii []" "ascii (c # s) \<longleftrightarrow> c < 128 \<and> ascii s"
  by (simp_all add: ascii_def)

lemma utf8_encode_ascii [wire]: "ascii s \<Longrightarrow> utf8_encode s = Inr (map byte_of s)"
  by (induction s) (auto simp: enc_cp_def)

lemma utf8_length_ge: "utf8_encode s = Inr bs \<Longrightarrow> length s \<le> length bs"
proof (induction s arbitrary: bs)
  case Nil
  then show ?case by simp
next
  case (Cons c cs)
  then obtain b r where e: "enc_cp c = Inr b" "utf8_encode cs = Inr r" "bs = b @ r"
    by (auto simp: rbind_eq_Inr)
  with Cons.IH [of r] enc_cp_length(1) [OF e(1)] show ?case by simp
qed

theorem utf8_length_eq_iff:
  "utf8_encode s = Inr bs \<Longrightarrow> length bs = length s \<longleftrightarrow> ascii s"
proof (induction s arbitrary: bs)
  case Nil
  then show ?case by simp
next
  case (Cons c cs)
  then obtain b r where e: "enc_cp c = Inr b" "utf8_encode cs = Inr r" "bs = b @ r"
    by (auto simp: rbind_eq_Inr)
  with Cons.IH [of r] enc_cp_length [OF e(1)] utf8_length_ge [OF e(2)] show ?case
    by (auto simp: ascii_def)
qed

lemma lit_ascii [simp]: "ascii (lit s) \<longleftrightarrow> (\<forall>c\<in>set s. of_char c < (128 :: nat))"
  by (simp add: ascii_def lit_def)

interpretation utf8: wire_format utf8_encode utf8_decode "\<lambda>_. True" "\<lambda>s. s"
  by unfold_locales (rule utf8_decode_encode)

text \<open>A string and its encoding determine each other.\<close>

lemmas utf8_encode_inj = utf8.unambiguous [OF TrueI TrueI]

end
