(* ===== verification/Uuid.thy ===== *)
theory Uuid
  imports Utf8
begin

text \<open>
  The part of \<^verbatim>\<open>uuid.UUID\<close> the code uses. A UUID is its 128-bit integer; \<open>.bytes\<close> is that integer in
  16 big-endian bytes and \<open>UUID(bytes=b)\<close> reads them back; \<open>str(u)\<close> is the canonical text
  \<^verbatim>\<open>8-4-4-4-12\<close> in lower-case hexadecimal, by which the relay keys its queues, and
  \<open>UUID(s)\<close> is read here on that canonical text, which is all the relay passes to it.
\<close>

type_synonym uuid = "128 word"

definition uuid_bytes :: "uuid \<Rightarrow> bytes" where
  "uuid_bytes u = to_be 16 (unat u)"

definition uuid_of_bytes :: "bytes \<Rightarrow> uuid res" where
  "uuid_of_bytes bs =
     (if length bs = 16 then Inr (word_of_nat (of_be bs))
      else value_error ''bytes is not a 16-char string'')"

lemma unat_uuid_less: "unat (u :: uuid) < 256 ^ 16"
  using unsigned_less [of u, where ?'a = nat] by simp

lemma length_uuid_bytes [simp]: "length (uuid_bytes u) = 16"
  by (simp add: uuid_bytes_def)

lemma uuid_of_bytes_bytes [simp, wire]: "uuid_of_bytes (uuid_bytes u) = Inr u"
  by (simp add: uuid_of_bytes_def uuid_bytes_def of_be_to_be_small [OF unat_uuid_less])

lemma uuid_of_bytes_ok: "length bs = 16 \<Longrightarrow> \<exists>u. uuid_of_bytes bs = Inr u"
  by (simp add: uuid_of_bytes_def)

lemma uuid_of_bytes_eq_Inr [res_simps]:
  "uuid_of_bytes bs = Inr u \<longleftrightarrow> length bs = 16 \<and> u = word_of_nat (of_be bs)"
  by (auto simp: uuid_of_bytes_def)

lemma uuid_bytes_of_bytes: "uuid_of_bytes bs = Inr u \<Longrightarrow> uuid_bytes u = bs"
proof -
  assume "uuid_of_bytes bs = Inr u"
  then have b: "length bs = 16" "u = word_of_nat (of_be bs)"
    by (simp_all add: uuid_of_bytes_eq_Inr)
  have "of_be bs < 2 ^ LENGTH(128)"
    using of_be_less [of bs] b by simp
  then have "unat u = of_be bs"
    using b by (simp add: unat_of_nat)
  with b show ?thesis by (simp add: uuid_bytes_def to_be_of_be)
qed

section \<open>Text form\<close>

definition hex_char :: "nat \<Rightarrow> nat" where
  "hex_char d = (if d < 10 then 48 + d else 87 + d)"

definition hex_val :: "nat \<Rightarrow> nat option" where
  "hex_val c =
     (if 48 \<le> c \<and> c \<le> 57 then Some (c - 48)
      else if 97 \<le> c \<and> c \<le> 102 then Some (c - 87)
      else if 65 \<le> c \<and> c \<le> 70 then Some (c - 55) else None)"

lemma hex_val_char [simp]: "d < 16 \<Longrightarrow> hex_val (hex_char d) = Some d"
  by (auto simp: hex_val_def hex_char_def)

lemma hex_char_not_dash [simp]: "hex_char d \<noteq> 45"
  by (simp add: hex_char_def)

lemma hex_char_ascii: "d < 16 \<Longrightarrow> hex_char d < 128"
  by (simp add: hex_char_def)

definition uuid_hex :: "uuid \<Rightarrow> pystr" where
  "uuid_hex u = map hex_char (to_digits 16 32 (unat u))"

definition uuid_str :: "uuid \<Rightarrow> pystr" where
  "uuid_str u =
     (let h = uuid_hex u in
      slice 0 8 h @ lit ''-'' @ slice 8 12 h @ lit ''-'' @ slice 12 16 h @ lit ''-'' @
      slice 16 20 h @ lit ''-'' @ slice 20 32 h)"

fun map_opt :: "('a \<Rightarrow> 'b option) \<Rightarrow> 'a list \<Rightarrow> 'b list option" where
  "map_opt f [] = Some []"
| "map_opt f (x # xs) =
     (case f x of None \<Rightarrow> None
      | Some y \<Rightarrow> (case map_opt f xs of None \<Rightarrow> None | Some ys \<Rightarrow> Some (y # ys)))"

definition uuid_of_str :: "pystr \<Rightarrow> uuid res" where
  "uuid_of_str s =
     (let h = filter (\<lambda>c. c \<noteq> 45) s in
      if length h \<noteq> 32 then value_error ''badly formed hexadecimal UUID string''
      else case map_opt hex_val h of
        None \<Rightarrow> value_error ''invalid literal for int() with base 16''
      | Some ds \<Rightarrow> Inr (word_of_nat (of_digits 16 ds)))"

lemma map_opt_map: "(\<And>x. x \<in> set xs \<Longrightarrow> g (f x) = Some x) \<Longrightarrow> map_opt g (map f xs) = Some xs"
  by (induction xs) auto

lemma length_uuid_hex [simp]: "length (uuid_hex u) = 32"
  by (simp add: uuid_hex_def)

lemma uuid_hex_not_dash: "filter (\<lambda>c. c \<noteq> 45) (uuid_hex u) = uuid_hex u"
  by (auto simp: uuid_hex_def filter_id_conv)

lemma filter_uuid_str: "filter (\<lambda>c. c \<noteq> 45) (uuid_str u) = uuid_hex u"
proof -
  have f: "filter (\<lambda>c. c \<noteq> 45) (slice a b (uuid_hex u)) = slice a b (uuid_hex u)" for a b
    by (auto simp: filter_id_conv slice_def uuid_hex_def dest!: in_set_takeD in_set_dropD)
  have "take 8 h @ slice 8 12 h @ slice 12 16 h @ slice 16 20 h @ slice 20 32 h = h"
    if "length h = 32" for h :: pystr
  proof -
    have "take n h @ take m (drop n h) = take (n + m) h" for n m
      by (simp add: take_add)
    from this [of 8 4] this [of 12 4] this [of 16 4] this [of 20 12] that show ?thesis
      by (simp add: slice_def flip: append_assoc)
  qed
  then show ?thesis
    using f [of 0 8] by (simp add: uuid_str_def Let_def f)
qed

theorem uuid_of_str_str [simp]: "uuid_of_str (uuid_str u) = Inr u"
proof -
  have "map_opt hex_val (uuid_hex u) = Some (to_digits 16 32 (unat u))"
    unfolding uuid_hex_def by (rule map_opt_map) (simp add: set_to_digits)
  moreover have "of_digits 16 (to_digits 16 32 (unat u)) = unat u"
    using unat_uuid_less [of u] by (simp add: of_digits_to_digits)
  ultimately show ?thesis
    by (simp add: uuid_of_str_def filter_uuid_str)
qed

lemma uuid_str_inj [simp]: "uuid_str u = uuid_str v \<longleftrightarrow> u = v"
  by (metis uuid_of_str_str Inr_inject)

lemma length_uuid_str [simp]: "length (uuid_str u) = 36"
  by (simp add: uuid_str_def Let_def)

text \<open>No UUID's text is the fixed key under which the client keeps its authentication queue.\<close>

lemma uuid_str_not_auth [simp]: "uuid_str u \<noteq> lit ''auth''"
proof
  assume "uuid_str u = lit ''auth''"
  then have "length (uuid_str u) = length (lit ''auth'')" by simp
  then show False by (simp del: lit_Cons add: lit_def)
qed

lemma ascii_uuid_str: "ascii (uuid_str u)"
proof -
  have "c < 128" if "c \<in> set (uuid_hex u)" for c
    using that by (auto simp: uuid_hex_def hex_char_ascii dest: set_to_digits [rotated])
  then show ?thesis
    by (auto simp: ascii_def uuid_str_def Let_def slice_def dest!: in_set_takeD in_set_dropD)
qed

end
