(* ===== verification/ConnectorCache.thy ===== *)
theory ConnectorCache
  imports Uuid
begin

text \<open>
  The routing table of connector channels (class \<open>ConnectorCache\<close> of \<^verbatim>\<open>pywssocks/server.py\<close>). The three
  dictionaries are the attributes \<open>_channel_id_to_client\<close>, \<open>_channel_id_to_connector\<close> and
  \<open>_token_cache\<close>. Each method is one critical section of the lock without an inner \<^verbatim>\<open>await\<close>, hence one
  step. A WebSocket connection is a handle \<open>ws\<close>.

  Its contract is the locale \<open>channel_table\<close>: one table from channels to pairs of connections, which
  the two dictionaries of the code refine.
\<close>

type_synonym ws = nat

section \<open>State and operations\<close>

record connector_cache =
  channel_id_to_client :: "(uuid, ws) dict"
  channel_id_to_connector :: "(uuid, ws) dict"
  token_cache :: "(pystr, uuid list) dict"

definition cc_init :: connector_cache where
  "cc_init = \<lparr>channel_id_to_client = [], channel_id_to_connector = [], token_cache = []\<rparr>"

definition cc_add_channel ::
    "uuid \<Rightarrow> ws \<Rightarrow> ws \<Rightarrow> pystr \<Rightarrow> connector_cache \<Rightarrow> connector_cache" where
  "cc_add_channel channel_id connector_ws client_ws token s =
     (let s = s\<lparr>channel_id_to_connector := dict_set channel_id connector_ws (channel_id_to_connector s)\<rparr>;
          s = s\<lparr>channel_id_to_client := dict_set channel_id client_ws (channel_id_to_client s)\<rparr>;
          s = (if has_key (token_cache s) token then s
               else s\<lparr>token_cache := dict_set token [] (token_cache s)\<rparr>)
      in s\<lparr>token_cache :=
           dict_set token (the (dict_get (token_cache s) token) @ [channel_id]) (token_cache s)\<rparr>)"

definition cc_remove_channel :: "uuid \<Rightarrow> connector_cache \<Rightarrow> connector_cache" where
  "cc_remove_channel channel_id s =
     (let s = (if has_key (channel_id_to_connector s) channel_id
               then s\<lparr>channel_id_to_connector := dict_del channel_id (channel_id_to_connector s)\<rparr>
               else s)
      in (if has_key (channel_id_to_client s) channel_id
          then s\<lparr>channel_id_to_client := dict_del channel_id (channel_id_to_client s)\<rparr>
          else s))"

definition cc_get_client :: "uuid \<Rightarrow> connector_cache \<Rightarrow> ws option" where
  "cc_get_client channel_id s = dict_get (channel_id_to_client s) channel_id"

definition cc_get_connector :: "uuid \<Rightarrow> connector_cache \<Rightarrow> ws option" where
  "cc_get_connector channel_id s = dict_get (channel_id_to_connector s) channel_id"

definition cc_cleanup_token :: "pystr \<Rightarrow> connector_cache \<Rightarrow> connector_cache" where
  "cc_cleanup_token token s =
     (case dict_get (token_cache s) token of
        None \<Rightarrow> s
      | Some channel_ids \<Rightarrow>
          (let s = fold cc_remove_channel channel_ids s
           in s\<lparr>token_cache := dict_del token (token_cache s)\<rparr>))"

section \<open>Lookups after each operation\<close>

lemma cc_add_get [dict_simps]:
  "cc_get_client i (cc_add_channel j c r t s) = (if i = j then Some r else cc_get_client i s)"
  "cc_get_connector i (cc_add_channel j c r t s) = (if i = j then Some c else cc_get_connector i s)"
  by (simp_all add: cc_get_client_def cc_get_connector_def cc_add_channel_def Let_def dict_simps)

lemma cc_remove_get [dict_simps]:
  "cc_get_client i (cc_remove_channel j s) = (if i = j then None else cc_get_client i s)"
  "cc_get_connector i (cc_remove_channel j s) = (if i = j then None else cc_get_connector i s)"
  by (auto simp: cc_get_client_def cc_get_connector_def cc_remove_channel_def Let_def has_key_def
      dict_simps)

lemma cc_remove_tokens [simp]: "token_cache (cc_remove_channel j s) = token_cache s"
  by (simp add: cc_remove_channel_def Let_def)

lemma cc_fold_remove_tokens [simp]: "token_cache (fold cc_remove_channel js s) = token_cache s"
  by (induction js arbitrary: s) auto

lemma cc_fold_remove_get:
  "cc_get_client i (fold cc_remove_channel js s) = (if i \<in> set js then None else cc_get_client i s)"
  "cc_get_connector i (fold cc_remove_channel js s) =
     (if i \<in> set js then None else cc_get_connector i s)"
  by (induction js arbitrary: s) (auto simp: dict_simps)

text \<open>The channels recorded under a token.\<close>

definition cc_recorded :: "connector_cache \<Rightarrow> pystr \<Rightarrow> uuid set" where
  "cc_recorded s t = (case dict_get (token_cache s) t of None \<Rightarrow> {} | Some js \<Rightarrow> set js)"

lemma cc_cleanup_get [dict_simps]:
  "cc_get_client i (cc_cleanup_token t s) = (if i \<in> cc_recorded s t then None else cc_get_client i s)"
  "cc_get_connector i (cc_cleanup_token t s) =
     (if i \<in> cc_recorded s t then None else cc_get_connector i s)"
  by (auto simp: cc_cleanup_token_def cc_recorded_def Let_def cc_get_client_def [symmetric]
      cc_get_connector_def [symmetric] split: option.splits)
    (use cc_fold_remove_get in \<open>simp_all add: cc_get_client_def cc_get_connector_def\<close>)

lemma cc_recorded_add [dict_simps]:
  "cc_recorded (cc_add_channel j c r t s) t' = (if t' = t then insert j (cc_recorded s t) else cc_recorded s t')"
  by (auto simp: cc_recorded_def cc_add_channel_def Let_def has_key_def dict_simps split: option.splits)

lemma cc_recorded_remove [dict_simps]: "cc_recorded (cc_remove_channel j s) t = cc_recorded s t"
  by (simp add: cc_recorded_def)

lemma cc_recorded_cleanup [dict_simps]:
  "cc_recorded (cc_cleanup_token t s) t' = (if t' = t then {} else cc_recorded s t')"
  by (auto simp: cc_recorded_def cc_cleanup_token_def Let_def dict_simps split: option.splits)

section \<open>The contract\<close>

text \<open>
  One table \<open>lookup\<close> from channels to (connector, client) pairs, and for every token the channels opened
  under it since it was last cleaned up.
\<close>

locale channel_table =
  fixes add :: "uuid \<Rightarrow> ws \<Rightarrow> ws \<Rightarrow> pystr \<Rightarrow> 's \<Rightarrow> 's"
    and remove :: "uuid \<Rightarrow> 's \<Rightarrow> 's"
    and cleanup :: "pystr \<Rightarrow> 's \<Rightarrow> 's"
    and lookup :: "'s \<Rightarrow> uuid \<Rightarrow> (ws \<times> ws) option"
    and recorded :: "'s \<Rightarrow> pystr \<Rightarrow> uuid set"
  assumes lookup_add: "lookup (add i c r t s) = (lookup s)(i := Some (c, r))"
    and lookup_remove: "lookup (remove i s) = (lookup s)(i := None)"
    and lookup_cleanup: "lookup (cleanup t s) = (\<lambda>i. if i \<in> recorded s t then None else lookup s i)"
    and recorded_add: "recorded (add i c r t s) = (recorded s)(t := insert i (recorded s t))"
    and recorded_remove: "recorded (remove i s) = recorded s"
    and recorded_cleanup: "recorded (cleanup t s) = (recorded s)(t := {})"
begin

text \<open>Every live channel is recorded under some token, so cleaning up every token empties the table.\<close>

definition tracked :: "'s \<Rightarrow> bool" where
  "tracked s \<longleftrightarrow> (\<forall>i. lookup s i \<noteq> None \<longrightarrow> (\<exists>t. i \<in> recorded s t))"

lemma tracked_add: "tracked s \<Longrightarrow> tracked (add i c r t s)"
  unfolding tracked_def lookup_add recorded_add by (metis fun_upd_apply insertCI)

lemma tracked_remove: "tracked s \<Longrightarrow> tracked (remove i s)"
  by (auto simp: tracked_def lookup_remove recorded_remove)

lemma tracked_cleanup: "tracked s \<Longrightarrow> tracked (cleanup t s)"
  by (fastforce simp: tracked_def lookup_cleanup recorded_cleanup)

lemma cleanup_own: "lookup (cleanup t (add i c r t s)) i = None"
  by (simp add: lookup_cleanup recorded_add)

lemma cleanup_other: "i \<notin> recorded s t \<Longrightarrow> lookup (cleanup t s) i = lookup s i"
  by (simp add: lookup_cleanup)

end

section \<open>The code's cache provides it\<close>

text \<open>The table the two dictionaries represent, and when they represent one: equal key sets.\<close>

definition cc_lookup :: "connector_cache \<Rightarrow> uuid \<Rightarrow> (ws \<times> ws) option" where
  "cc_lookup s i =
     (case (cc_get_connector i s, cc_get_client i s) of
        (Some c, Some r) \<Rightarrow> Some (c, r)
      | _ \<Rightarrow> None)"

definition cc_paired :: "connector_cache \<Rightarrow> bool" where
  "cc_paired s \<longleftrightarrow> (\<forall>i. cc_get_connector i s = None \<longleftrightarrow> cc_get_client i s = None)"

interpretation cache: channel_table cc_add_channel cc_remove_channel cc_cleanup_token cc_lookup cc_recorded
  by unfold_locales (auto simp: fun_eq_iff cc_lookup_def dict_simps split: option.splits)

datatype cache_op =
    AddChannel uuid ws ws pystr | RemoveChannel uuid | CleanupToken pystr

fun cc_step :: "connector_cache \<Rightarrow> cache_op \<Rightarrow> connector_cache" where
  "cc_step s (AddChannel i c r t) = cc_add_channel i c r t s"
| "cc_step s (RemoveChannel i) = cc_remove_channel i s"
| "cc_step s (CleanupToken t) = cc_cleanup_token t s"

definition cc_inv :: "connector_cache \<Rightarrow> bool" where
  "cc_inv s \<longleftrightarrow> cc_paired s \<and> cache.tracked s"

interpretation cache_machine: invariant_machine cc_step cc_inv
proof
  show "cc_inv (cc_step s e)" if "cc_inv s" for s e
    using that by (cases e)
      (auto simp: cc_inv_def cc_paired_def dict_simps cache.tracked_add cache.tracked_remove
        cache.tracked_cleanup)
qed

lemma cc_inv_init [simp]: "cc_inv cc_init"
  by (simp add: cc_inv_def cc_paired_def cache.tracked_def cc_lookup_def cc_init_def
      cc_get_connector_def cc_get_client_def)

section \<open>Properties\<close>

text \<open>
  C35. A connector channel is never half open: after any sequence of operations on the cache, a channel
  has a connector side exactly when it has a client side, and every live channel is recorded under a
  token, so that no channel escapes the clean-up of tokens.
\<close>

theorem channels_never_half_open:
  "let s = foldl cc_step cc_init ops in
     (cc_get_connector i s = None \<longleftrightarrow> cc_get_client i s = None) \<and>
     (cc_get_client i s = None \<or> (\<exists>t. i \<in> cc_recorded s t))"
proof -
  have "cc_inv (foldl cc_step cc_init ops)"
    by (rule cache_machine.run_keeps) simp
  then show ?thesis
    by (auto simp: Let_def cc_inv_def cc_paired_def cache.tracked_def cc_lookup_def split: option.splits)
qed


end
