(* ===== verification/SocketManager.thy ===== *)
theory SocketManager
  imports Prelude
begin

text \<open>
  The listening sockets of the SOCKS servers (class \<open>SocketManager\<close> of \<^verbatim>\<open>pywssocks/server.py\<close>): reference
  counts, the grace period after the last release, the clean-up tasks that end it, and \<open>close\<close>.

  Besides the attributes \<open>_sockets\<close> (port to socket, timestamp, references) and \<open>_grace\<close>, the state has
  what the event loop and the operating system keep for the class: the pending clean-up tasks with
  the time their \<^verbatim>\<open>asyncio.sleep\<close> ends, the clock, the open sockets with their listen backlog, and the
  next fresh socket. Whether a new socket can be bound is the argument of the request. Times are
  natural numbers of clock ticks; the loop's clock is positive.
\<close>

section \<open>State\<close>

type_synonym sock = nat

record sock_entry =
  se_sock :: sock
  se_timestamp :: nat
  se_refs :: int

record socket_manager =
  sm_grace :: nat
  sm_sockets :: "(int, sock_entry) dict"
  sm_cleanup_tasks :: "(int \<times> nat) list"
  sm_clock :: nat
  sm_open :: "(sock, nat) dict"
  sm_fresh :: sock

definition sm_init :: "nat \<Rightarrow> nat \<Rightarrow> socket_manager" where
  "sm_init grace now =
     \<lparr>sm_grace = grace, sm_sockets = [], sm_cleanup_tasks = [], sm_clock = now, sm_open = [],
      sm_fresh = 0\<rparr>"

text \<open>\<^verbatim>\<open>sock.listen(n)\<close> fails on a closed socket; \<^verbatim>\<open>sock.close()\<close> never does.\<close>

definition sock_listen :: "sock \<Rightarrow> nat \<Rightarrow> socket_manager \<Rightarrow> socket_manager res" where
  "sock_listen sock n s =
     (if has_key (sm_open s) sock then Inr (s\<lparr>sm_open := dict_set sock n (sm_open s)\<rparr>)
      else Inl OSError)"

definition close_socket :: "sock \<Rightarrow> socket_manager \<Rightarrow> socket_manager" where
  "close_socket sock s = s\<lparr>sm_open := dict_del sock (sm_open s)\<rparr>"

section \<open>Operations\<close>

definition get_socket :: "bool \<Rightarrow> int \<Rightarrow> socket_manager \<Rightarrow> sock res \<times> socket_manager" where
  "get_socket bind_ok port s =
     (case dict_get (sm_sockets s) port of
        Some e \<Rightarrow>
          (let s = s\<lparr>sm_sockets := dict_set port (e\<lparr>se_refs := se_refs e + 1\<rparr>) (sm_sockets s)\<rparr> in
           case sock_listen (se_sock e) 1 s of
             Inl x \<Rightarrow> (Inl x, s)
           | Inr s \<Rightarrow> (Inr (se_sock e), s))
      | None \<Rightarrow>
          (if \<not> bind_ok then (Inl OSError, s)
           else
             (let sock = sm_fresh s in
              (Inr sock,
               s\<lparr>sm_fresh := sock + 1, sm_open := dict_set sock 5 (sm_open s),
                 sm_sockets :=
                   dict_set port \<lparr>se_sock = sock, se_timestamp = 0, se_refs = 1\<rparr> (sm_sockets s)\<rparr>))))"

definition release_socket :: "int \<Rightarrow> socket_manager \<Rightarrow> unit res \<times> socket_manager" where
  "release_socket port s =
     (case dict_get (sm_sockets s) port of
        None \<Rightarrow> (Inr (), s)
      | Some e \<Rightarrow>
          (let refs = se_refs e - 1 in
           if refs \<le> 0 then
             (case sock_listen (se_sock e) 0 s of
                Inl x \<Rightarrow> (Inl x, s)
              | Inr s \<Rightarrow>
                  (Inr (),
                   s\<lparr>sm_sockets := dict_set port
                       \<lparr>se_sock = se_sock e, se_timestamp = sm_clock s, se_refs = 0\<rparr> (sm_sockets s),
                     sm_cleanup_tasks := sm_cleanup_tasks s @ [(port, sm_clock s + sm_grace s)]\<rparr>))
           else
             (Inr (),
              s\<lparr>sm_sockets := dict_set port
                  \<lparr>se_sock = se_sock e, se_timestamp = 0, se_refs = refs\<rparr> (sm_sockets s)\<rparr>)))"

text \<open>What a clean-up task does when its sleep is over.\<close>

definition cleanup_socket :: "int \<Rightarrow> socket_manager \<Rightarrow> socket_manager" where
  "cleanup_socket port s =
     (case dict_get (sm_sockets s) port of
        None \<Rightarrow> s
      | Some e \<Rightarrow>
          (if se_refs e = 0 \<and> se_timestamp e > 0 then
             (let s = close_socket (se_sock e) s in
              s\<lparr>sm_sockets := dict_del port (sm_sockets s)\<rparr>)
           else s))"

definition close_all :: "socket_manager \<Rightarrow> socket_manager" where
  "close_all s =
     (let s = s\<lparr>sm_cleanup_tasks := []\<rparr> in
      fold (\<lambda>(port, e) s.
          (let s = close_socket (se_sock e) s in s\<lparr>sm_sockets := dict_del port (sm_sockets s)\<rparr>))
        (sm_sockets s) s)"

text \<open>
  The events: the calls of the server, the passing of time, and the end of the sleep of the \<open>n\<close>-th
  pending clean-up task, which happens at its time or later.
\<close>

datatype sm_event = Get int bool | Release int | Tick nat | Fire nat | Close

fun sm_step :: "socket_manager \<Rightarrow> sm_event \<Rightarrow> socket_manager" where
  "sm_step s (Get port bind_ok) = snd (get_socket bind_ok port s)"
| "sm_step s (Release port) = snd (release_socket port s)"
| "sm_step s (Tick d) = s\<lparr>sm_clock := sm_clock s + d\<rparr>"
| "sm_step s (Fire n) =
     (if n < length (sm_cleanup_tasks s) \<and> snd (sm_cleanup_tasks s ! n) \<le> sm_clock s then
        (let port = fst (sm_cleanup_tasks s ! n) in
         cleanup_socket port
           (s\<lparr>sm_cleanup_tasks := take n (sm_cleanup_tasks s) @ drop (Suc n) (sm_cleanup_tasks s)\<rparr>))
      else s)"
| "sm_step s Close = close_all s"

definition sm_run :: "socket_manager \<Rightarrow> sm_event list \<Rightarrow> socket_manager" where
  "sm_run = foldl sm_step"

section \<open>Invariant\<close>

text \<open>
  The managed sockets are open, distinct, and the only open ones; reference counts are not
  negative; and a socket without references is in its grace period, with a clean-up task pending
  that ends it no later than \<open>grace\<close> after the timestamp.
\<close>

definition entry_ok :: "socket_manager \<Rightarrow> int \<Rightarrow> sock_entry \<Rightarrow> bool" where
  "entry_ok s port e \<longleftrightarrow>
     0 \<le> se_refs e \<and>
     (se_refs e = 0 \<longrightarrow> 0 < se_timestamp e \<and>
        (port, se_timestamp e + sm_grace s) \<in> set (sm_cleanup_tasks s))"

definition sockets_ok :: "socket_manager \<Rightarrow> bool" where
  "sockets_ok s \<longleftrightarrow>
     (\<forall>k. has_key (sm_open s) k \<longleftrightarrow> (\<exists>p e. dict_get (sm_sockets s) p = Some e \<and> se_sock e = k)) \<and>
     (\<forall>p q e f. dict_get (sm_sockets s) p = Some e \<longrightarrow> dict_get (sm_sockets s) q = Some f \<longrightarrow>
        se_sock e = se_sock f \<longrightarrow> p = q) \<and>
     (\<forall>p e. dict_get (sm_sockets s) p = Some e \<longrightarrow> se_sock e < sm_fresh s)"

definition sm_inv :: "socket_manager \<Rightarrow> bool" where
  "sm_inv s \<longleftrightarrow>
     dict_ok (sm_sockets s) \<and> 0 < sm_clock s \<and> sockets_ok s \<and>
     (\<forall>p e. dict_get (sm_sockets s) p = Some e \<longrightarrow> entry_ok s p e)"

lemma sockets_okD:
  assumes "sockets_ok s" "dict_get (sm_sockets s) p = Some e"
  shows "has_key (sm_open s) (se_sock e)" "se_sock e < sm_fresh s"
    "dict_get (sm_sockets s) q = Some f \<Longrightarrow> se_sock e = se_sock f \<Longrightarrow> p = q"
  using assms unfolding sockets_ok_def by blast+

lemma sockets_okI:
  assumes "\<And>k. has_key (sm_open s) k \<Longrightarrow> \<exists>p e. dict_get (sm_sockets s) p = Some e \<and> se_sock e = k"
    and "\<And>p e. dict_get (sm_sockets s) p = Some e \<Longrightarrow> has_key (sm_open s) (se_sock e) \<and> se_sock e < sm_fresh s"
    and "\<And>p q e f. dict_get (sm_sockets s) p = Some e \<Longrightarrow> dict_get (sm_sockets s) q = Some f \<Longrightarrow>
        se_sock e = se_sock f \<Longrightarrow> p = q"
  shows "sockets_ok s"
  using assms unfolding sockets_ok_def by blast

lemma sockets_ok_owner:
  "sockets_ok s \<Longrightarrow> has_key (sm_open s) k \<Longrightarrow> \<exists>p e. dict_get (sm_sockets s) p = Some e \<and> se_sock e = k"
  unfolding sockets_ok_def by blast

lemma sockets_ok_fresh: "sockets_ok s \<Longrightarrow> dict_get (sm_sockets s) p = Some e \<Longrightarrow> se_sock e \<noteq> sm_fresh s"
  using sockets_okD(2) [of s p e] by simp

lemma sockets_ok_keep:
  assumes ok: "sockets_ok s" and e: "dict_get (sm_sockets s) p = Some e" "se_sock e' = se_sock e"
    and s': "sm_sockets s' = dict_set p e' (sm_sockets s)" "sm_fresh s' = sm_fresh s"
      "\<And>k. has_key (sm_open s') k = has_key (sm_open s) k"
  shows "sockets_ok s'"
proof (rule sockets_okI)
  fix k assume "has_key (sm_open s') k"
  with sockets_ok_owner [OF ok, of k] s' obtain q f where "dict_get (sm_sockets s) q = Some f" "se_sock f = k"
    by auto
  with e s' show "\<exists>q f. dict_get (sm_sockets s') q = Some f \<and> se_sock f = k"
    by (cases "q = p") (auto simp: dict_simps)
next
  fix q f assume "dict_get (sm_sockets s') q = Some f"
  with sockets_okD [OF ok] e s' show "has_key (sm_open s') (se_sock f) \<and> se_sock f < sm_fresh s'"
    by (auto simp: dict_simps split: if_splits)
next
  fix q r f g assume "dict_get (sm_sockets s') q = Some f" "dict_get (sm_sockets s') r = Some g" "se_sock f = se_sock g"
  with sockets_okD(3) [OF ok] e s' show "q = r"
    by (auto simp: dict_simps split: if_splits)
qed

lemma sockets_ok_new:
  assumes ok: "sockets_ok s" and e: "dict_get (sm_sockets s) p = None" "se_sock e' = sm_fresh s"
    and s': "sm_sockets s' = dict_set p e' (sm_sockets s)" "sm_fresh s' = sm_fresh s + 1"
      "sm_open s' = dict_set (sm_fresh s) n (sm_open s)"
  shows "sockets_ok s'"
proof (rule sockets_okI)
  fix k assume "has_key (sm_open s') k"
  with sockets_ok_owner [OF ok, of k] s' consider "k = sm_fresh s"
    | q f where "dict_get (sm_sockets s) q = Some f" "se_sock f = k"
    by (auto simp: dict_simps)
  then show "\<exists>q f. dict_get (sm_sockets s') q = Some f \<and> se_sock f = k"
  proof cases
    case 1
    with e s' show ?thesis by (intro exI [of _ p] exI [of _ e']) (simp add: dict_simps)
  next
    case (2 q f)
    with e s' show ?thesis by (intro exI [of _ q] exI [of _ f]) (auto simp: dict_simps)
  qed
next
  fix q f assume "dict_get (sm_sockets s') q = Some f"
  with sockets_okD(1,2) [OF ok, of q f] e s' show "has_key (sm_open s') (se_sock f) \<and> se_sock f < sm_fresh s'"
    by (auto simp: dict_simps split: if_splits)
next
  fix q r f g assume "dict_get (sm_sockets s') q = Some f" "dict_get (sm_sockets s') r = Some g" "se_sock f = se_sock g"
  then show "q = r"
    using sockets_okD(3) [OF ok, of q f r g] sockets_ok_fresh [OF ok] e s'
    by (auto simp: dict_simps split: if_splits)
qed

lemma sockets_ok_delete:
  assumes ok: "sockets_ok s" and e: "dict_get (sm_sockets s) p = Some e"
    and s': "sm_sockets s' = dict_del p (sm_sockets s)" "sm_fresh s' = sm_fresh s"
      "sm_open s' = dict_del (se_sock e) (sm_open s)"
  shows "sockets_ok s'"
proof (rule sockets_okI)
  fix k assume "has_key (sm_open s') k"
  with s' have k: "has_key (sm_open s) k" "k \<noteq> se_sock e" by (auto simp: dict_simps)
  from sockets_ok_owner [OF ok k(1)] obtain q f
    where "dict_get (sm_sockets s) q = Some f" "se_sock f = k" by blast
  with k(2) e have "dict_get (sm_sockets s) q = Some f" "se_sock f = k" "q \<noteq> p" by auto
  with s' show "\<exists>q f. dict_get (sm_sockets s') q = Some f \<and> se_sock f = k"
    by (intro exI [of _ q] exI [of _ f]) (simp add: dict_simps)
next
  fix q f assume "dict_get (sm_sockets s') q = Some f"
  with sockets_okD [OF ok] e s' show "has_key (sm_open s') (se_sock f) \<and> se_sock f < sm_fresh s'"
    by (auto simp: dict_simps split: if_splits)
next
  fix q r f g assume "dict_get (sm_sockets s') q = Some f" "dict_get (sm_sockets s') r = Some g" "se_sock f = se_sock g"
  with sockets_okD(3) [OF ok] e s' show "q = r"
    by (auto simp: dict_simps split: if_splits)
qed

section \<open>Every operation keeps the invariant\<close>

lemma listen_ok:
  "sm_inv s \<Longrightarrow> dict_get (sm_sockets s) p = Some e \<Longrightarrow>
     sock_listen (se_sock e) n s = Inr (s\<lparr>sm_open := dict_set (se_sock e) n (sm_open s)\<rparr>)"
  using sockets_okD(1) [of s p e] by (simp add: sm_inv_def sock_listen_def)

lemma get_socket_existing:
  assumes "sm_inv s" "dict_get (sm_sockets s) p = Some e"
  shows "get_socket b p s = (Inr (se_sock e),
    s\<lparr>sm_sockets := dict_set p (e\<lparr>se_refs := se_refs e + 1\<rparr>) (sm_sockets s),
      sm_open := dict_set (se_sock e) 1 (sm_open s)\<rparr>)"
  using sockets_okD(1) [of s p e] assms by (simp add: sm_inv_def sock_listen_def get_socket_def Let_def)

lemma get_socket_new:
  "dict_get (sm_sockets s) p = None \<Longrightarrow> get_socket True p s = (Inr (sm_fresh s),
    s\<lparr>sm_fresh := sm_fresh s + 1, sm_open := dict_set (sm_fresh s) 5 (sm_open s),
      sm_sockets := dict_set p \<lparr>se_sock = sm_fresh s, se_timestamp = 0, se_refs = 1\<rparr> (sm_sockets s)\<rparr>)"
  by (simp add: get_socket_def Let_def)

lemma sm_inv_get:
  assumes inv: "sm_inv s" shows "sm_inv (snd (get_socket b p s))"
proof (cases "dict_get (sm_sockets s) p")
  case None
  show ?thesis
  proof (cases b)
    case True
    have "sockets_ok (snd (get_socket True p s))"
      by (rule sockets_ok_new [OF _ None]) (use inv None in \<open>simp_all add: get_socket_new sm_inv_def\<close>)
    with inv None True show ?thesis
      by (simp add: sm_inv_def get_socket_new entry_ok_def dict_simps)
  qed (use inv None in \<open>simp add: get_socket_def\<close>)
next
  case (Some e)
  note g = get_socket_existing [OF inv Some, of b]
  have "sockets_ok (snd (get_socket b p s))"
    by (rule sockets_ok_keep [OF _ Some])
      (use inv Some sockets_okD(1) [OF _ Some] in \<open>auto simp: g sm_inv_def dict_simps\<close>)
  moreover from inv Some have "0 \<le> se_refs e + 1" "se_refs e + 1 \<noteq> 0"
    by (fastforce simp: sm_inv_def entry_ok_def)+
  ultimately show ?thesis
    using inv Some by (auto simp: sm_inv_def g entry_ok_def dict_simps split: if_splits)
qed

lemma release_existing:
  assumes "sm_inv s" "dict_get (sm_sockets s) p = Some e"
  shows "release_socket p s = (Inr (),
    if se_refs e \<le> 1 then
      s\<lparr>sm_open := dict_set (se_sock e) 0 (sm_open s),
        sm_sockets := dict_set p \<lparr>se_sock = se_sock e, se_timestamp = sm_clock s, se_refs = 0\<rparr> (sm_sockets s),
        sm_cleanup_tasks := sm_cleanup_tasks s @ [(p, sm_clock s + sm_grace s)]\<rparr>
    else
      s\<lparr>sm_sockets := dict_set p \<lparr>se_sock = se_sock e, se_timestamp = 0, se_refs = se_refs e - 1\<rparr> (sm_sockets s)\<rparr>)"
  using listen_ok [OF assms] assms(2) by (simp add: release_socket_def Let_def)

lemma sm_inv_release:
  assumes inv: "sm_inv s" shows "sm_inv (snd (release_socket p s))"
proof (cases "dict_get (sm_sockets s) p")
  case None
  with inv show ?thesis by (simp add: release_socket_def)
next
  case (Some e)
  note g = release_existing [OF inv Some]
  have "sockets_ok (snd (release_socket p s))"
  proof (cases "se_refs e \<le> 1")
    case True
    show ?thesis
      by (rule sockets_ok_keep [OF _ Some])
        (use inv Some sockets_okD(1) [OF _ Some] True in \<open>auto simp: g sm_inv_def dict_simps\<close>)
  next
    case False
    show ?thesis
      by (rule sockets_ok_keep [OF _ Some])
        (use inv Some False in \<open>auto simp: g sm_inv_def dict_simps\<close>)
  qed
  with inv Some show ?thesis
    by (auto simp: sm_inv_def g entry_ok_def dict_simps split: if_splits)
qed

lemma in_set_remove_nth:
  "x \<in> set xs \<Longrightarrow> x \<noteq> xs ! n \<Longrightarrow> x \<in> set (take n xs @ drop (Suc n) xs)"
  by (cases "n < length xs") (auto dest: id_take_nth_drop [of n xs, THEN arg_cong [of _ _ set], THEN equalityD1, THEN subsetD])


lemma sm_inv_cleanup:
  assumes inv: "sm_inv s" and n: "n < length (sm_cleanup_tasks s)"
  defines "p \<equiv> fst (sm_cleanup_tasks s ! n)"
  shows "sm_inv (cleanup_socket p
    (s\<lparr>sm_cleanup_tasks := take n (sm_cleanup_tasks s) @ drop (Suc n) (sm_cleanup_tasks s)\<rparr>))"
    (is "sm_inv (cleanup_socket p ?s)")
proof -
  have keep: "entry_ok ?s q f" if "dict_get (sm_sockets s) q = Some f" "q \<noteq> p \<or> se_refs f \<noteq> 0" for q f
  proof -
    have "q \<noteq> p \<Longrightarrow> (q, se_timestamp f + sm_grace s) \<noteq> sm_cleanup_tasks s ! n"
      unfolding p_def by (metis fst_conv)
    with in_set_remove_nth [of "(q, se_timestamp f + sm_grace s)" "sm_cleanup_tasks s" n] inv that
    show ?thesis by (simp add: sm_inv_def entry_ok_def) blast
  qed
  have same: "sockets_ok ?s" "dict_ok (sm_sockets s)" "0 < sm_clock s"
    using inv by (auto simp: sm_inv_def sockets_ok_def)
  show ?thesis
  proof (cases "dict_get (sm_sockets s) p")
    case None
    have "\<forall>q f. dict_get (sm_sockets s) q = Some f \<longrightarrow> entry_ok ?s q f"
      using keep None by (metis option.distinct(1))
    with None same show ?thesis
      by (simp add: cleanup_socket_def sm_inv_def)
  next
    case (Some e)
    then have ts: "se_refs e = 0 \<Longrightarrow> se_timestamp e > 0"
      using inv by (auto simp: sm_inv_def entry_ok_def)
    show ?thesis
    proof (cases "se_refs e = 0")
      case True
      have "sockets_ok (cleanup_socket p ?s)"
        by (rule sockets_ok_delete [OF same(1), of p e])
          (use Some True ts in \<open>simp_all add: cleanup_socket_def close_socket_def Let_def\<close>)
      with Some True ts keep same show ?thesis
        by (auto simp: cleanup_socket_def close_socket_def Let_def sm_inv_def entry_ok_def dict_simps
            split: if_splits)
    next
      case False
      have "\<forall>q f. dict_get (sm_sockets s) q = Some f \<longrightarrow> entry_ok ?s q f"
        using keep Some False by (metis option.inject)
      with Some False same show ?thesis
        by (simp add: cleanup_socket_def sm_inv_def)
    qed
  qed
qed

text \<open>\<open>close\<close> leaves no managed socket, no open socket and no clean-up task.\<close>

definition close_entry :: "int \<times> sock_entry \<Rightarrow> socket_manager \<Rightarrow> socket_manager" where
  "close_entry pe s =
     (case pe of (port, e) \<Rightarrow>
       (let s = close_socket (se_sock e) s in s\<lparr>sm_sockets := dict_del port (sm_sockets s)\<rparr>))"

lemma close_entry_simps:
  "sm_sockets (close_entry pe s) = dict_del (fst pe) (sm_sockets s)"
  "sm_open (close_entry pe s) = dict_del (se_sock (snd pe)) (sm_open s)"
  "sm_clock (close_entry pe s) = sm_clock s" "sm_grace (close_entry pe s) = sm_grace s"
  "sm_cleanup_tasks (close_entry pe s) = sm_cleanup_tasks s" "sm_fresh (close_entry pe s) = sm_fresh s"
  by (cases pe; simp add: close_entry_def close_socket_def Let_def)+

lemma close_fold:
  "dict_get (sm_sockets (fold close_entry es s)) p =
     (if p \<in> fst ` set es then None else dict_get (sm_sockets s) p)"
  "has_key (sm_open (fold close_entry es s)) k \<longleftrightarrow> has_key (sm_open s) k \<and> k \<notin> se_sock ` snd ` set es"
  "sm_clock (fold close_entry es s) = sm_clock s"
  "sm_cleanup_tasks (fold close_entry es s) = sm_cleanup_tasks s"
  by (induction es arbitrary: s) (auto simp: close_entry_simps dict_simps)

lemma close_all_alt: "close_all s = fold close_entry (sm_sockets s) (s\<lparr>sm_cleanup_tasks := []\<rparr>)"
  by (simp add: close_all_def close_entry_def [abs_def] split_def)

lemma close_all_empty:
  assumes "sm_inv s"
  shows "sm_sockets (close_all s) = []" "sm_open (close_all s) = []" "sm_cleanup_tasks (close_all s) = []"
    "sm_clock (close_all s) = sm_clock s"
proof -
  have "dict_get (sm_sockets (close_all s)) p = None" for p
    by (auto simp: close_all_alt close_fold has_key_def map_of_eq_None_iff)
  then show "sm_sockets (close_all s) = []"
    by (metis map_of_eq_empty_iff ext)
  have "\<not> has_key (sm_open (close_all s)) k" for k
  proof
    assume "has_key (sm_open (close_all s)) k"
    then have k: "has_key (sm_open s) k" "k \<notin> se_sock ` snd ` set (sm_sockets s)"
      by (auto simp: close_all_alt close_fold)
    with assms sockets_ok_owner [of s k] obtain p e where "dict_get (sm_sockets s) p = Some e" "se_sock e = k"
      by (auto simp: sm_inv_def)
    with k(2) show False using map_of_SomeD by force
  qed
  then show "sm_open (close_all s) = []"
    unfolding has_key_def by (metis map_of_eq_empty_iff ext)
  show "sm_cleanup_tasks (close_all s) = []" "sm_clock (close_all s) = sm_clock s"
    by (simp_all add: close_all_alt close_fold)
qed

lemma sm_inv_close: "sm_inv s \<Longrightarrow> sm_inv (close_all s)"
  using close_all_empty [of s] by (auto simp: sm_inv_def sockets_ok_def)

interpretation sockets: invariant_machine sm_step sm_inv
proof
  show "sm_inv (sm_step s e)" if "sm_inv s" for s e
    using that
    by (cases e) (auto simp: sm_inv_get sm_inv_release sm_inv_close sm_inv_cleanup Let_def,
      auto simp: sm_inv_def sockets_ok_def entry_ok_def)
qed

lemma sm_inv_run: "sm_inv s \<Longrightarrow> sm_inv (sm_run s es)"
  unfolding sm_run_def by (rule sockets.run_keeps)

lemma sm_inv_init: "0 < now \<Longrightarrow> sm_inv (sm_init grace now)"
  by (simp add: sm_inv_def sm_init_def sockets_ok_def)

section \<open>What the server relies on\<close>

lemma inv_entry:
  assumes "sm_inv s" "dict_get (sm_sockets s) p = Some e"
  shows "has_key (sm_open s) (se_sock e)" "0 \<le> se_refs e"
    "se_refs e = 0 \<Longrightarrow> 0 < se_timestamp e \<and> (p, se_timestamp e + sm_grace s) \<in> set (sm_cleanup_tasks s)"
  using assms sockets_okD(1) [of s p e] by (auto simp: sm_inv_def entry_ok_def)

text \<open>Only the clean-up of an unreferenced socket and \<open>close\<close> close a managed socket.\<close>

lemma step_keeps_socket:
  assumes inv: "sm_inv s" and e: "dict_get (sm_sockets s) p = Some e"
    and ev: "ev \<noteq> Close" "se_refs e = 0 \<Longrightarrow> \<nexists>n. ev = Fire n"
  shows "\<exists>e'. dict_get (sm_sockets (sm_step s ev)) p = Some e' \<and> se_sock e' = se_sock e"
proof (cases ev)
  case (Get q b)
  show ?thesis
  proof (cases "dict_get (sm_sockets s) q")
    case None
    with e Get show ?thesis
      by (cases b) (auto simp: get_socket_def Let_def dict_simps)
  next
    case (Some f)
    with e Get show ?thesis
      by (auto simp: get_socket_existing [OF inv Some] dict_simps)
  qed
next
  case (Release q)
  show ?thesis
  proof (cases "dict_get (sm_sockets s) q")
    case None
    with e Release show ?thesis by (simp add: release_socket_def)
  next
    case (Some f)
    with e Release show ?thesis
      by (auto simp: release_existing [OF inv Some] dict_simps)
  qed
next
  case (Fire n)
  with ev have "se_refs e \<noteq> 0" by auto
  with e Fire show ?thesis
    by (auto simp: Let_def cleanup_socket_def close_socket_def dict_simps split: option.splits)
qed (use e ev in auto)

section \<open>Properties\<close>

text \<open>
  C31. No socket is closed while it is in use and none leaks: in every reachable state the managed
  sockets are exactly the open ones, no two ports share one, reference counts are not negative, and
  a socket without references has a clean-up task pending for the end of its grace period.
\<close>

theorem sockets_accounted:
  assumes "0 < now"
  shows "let s = sm_run (sm_init grace now) es in
    (\<forall>k. has_key (sm_open s) k = (\<exists>p e. dict_get (sm_sockets s) p = Some e \<and> se_sock e = k)) \<and>
    (\<forall>p e. dict_get (sm_sockets s) p = Some e \<longrightarrow>
       0 \<le> se_refs e \<and>
       (se_refs e = 0 \<longrightarrow> (p, se_timestamp e + sm_grace s) \<in> set (sm_cleanup_tasks s)) \<and>
       (\<forall>q f. dict_get (sm_sockets s) q = Some f \<longrightarrow> se_sock e = se_sock f \<longrightarrow> p = q))"
  using sm_inv_run [OF sm_inv_init [OF assms], of grace es]
  unfolding Let_def sm_inv_def sockets_ok_def entry_ok_def by blast

theorem sockets_accounted_witness:
  "has_key (sm_open (sm_run (sm_init 30 1) [Get 80 True, Get 80 True, Release 80])) 0"
proof -
  let ?s = "sm_run (sm_init 30 1) [Get 80 True, Get 80 True, Release 80]"
  have e: "dict_get (sm_sockets ?s) 80 = Some \<lparr>se_sock = 0, se_timestamp = 0, se_refs = 1\<rparr>"
    by (simp add: sm_run_def sm_init_def get_socket_def release_socket_def sock_listen_def Let_def has_key_def)
  have "\<forall>k. has_key (sm_open ?s) k = (\<exists>p e. dict_get (sm_sockets ?s) p = Some e \<and> se_sock e = k)"
    using sockets_accounted [of 1 30 "[Get 80 True, Get 80 True, Release 80]", OF zero_less_one]
    unfolding Let_def by (rule conjunct1)
  with e show ?thesis by fastforce
qed

text \<open>
  A listening socket survives while it is referenced: whatever event other than \<open>close\<close> comes next,
  a port with a reference keeps its socket, and so does a port in its grace period unless a clean-up
  task runs.
\<close>

theorem referenced_socket_survives:
  assumes "0 < now" and "s = sm_run (sm_init grace now) es"
    and "dict_get (sm_sockets s) p = Some e" and "0 < se_refs e \<or> (\<nexists>n. ev = Fire n)" and "ev \<noteq> Close"
  shows "\<exists>e'. dict_get (sm_sockets (sm_step s ev)) p = Some e' \<and> se_sock e' = se_sock e \<and>
    has_key (sm_open (sm_step s ev)) (se_sock e)"
proof -
  have inv: "sm_inv s" using sm_inv_run [OF sm_inv_init [OF assms(1)]] assms(2) by simp
  have "se_refs e = 0 \<Longrightarrow> \<nexists>n. ev = Fire n" using assms(4) by auto
  from step_keeps_socket [OF inv assms(3,5) this] obtain e'
    where e': "dict_get (sm_sockets (sm_step s ev)) p = Some e'" "se_sock e' = se_sock e" by blast
  with inv_entry(1) [OF sockets.step_keeps [OF inv] e'(1)] show ?thesis by auto
qed

theorem referenced_socket_survives_witness:
  "\<exists>e'. dict_get (sm_sockets (sm_step (sm_run (sm_init 0 1) [Get 80 True, Release 80, Get 80 False]) (Fire 0))) 80
      = Some e' \<and> se_sock e' = 0"
proof -
  let ?s = "sm_run (sm_init 0 1) [Get 80 True, Release 80, Get 80 False]"
  have "dict_get (sm_sockets ?s) 80 = Some \<lparr>se_sock = 0, se_timestamp = 1, se_refs = 1\<rparr>"
    by (simp add: sm_run_def sm_init_def get_socket_def release_socket_def sock_listen_def Let_def has_key_def)
  from referenced_socket_survives [of 1 ?s 0 "[Get 80 True, Release 80, Get 80 False]" 80 _ "Fire 0", OF _ refl this]
  show ?thesis by auto
qed

text \<open>
  Reuse within the grace period: after the last reference to a port is released, a new request
  for the port gets the same socket, without binding anew (so it succeeds even when binding would
  not).
\<close>

theorem grace_period_reuse:
  assumes "0 < now" and "s = sm_run (sm_init grace now) es"
    and "dict_get (sm_sockets s) p = Some e"
  shows "fst (get_socket bind_ok p (snd (release_socket p s))) = Inr (se_sock e)"
proof -
  have inv: "sm_inv s" using sm_inv_run [OF sm_inv_init [OF assms(1)]] assms(2) by simp
  from step_keeps_socket [OF inv assms(3), of "Release p"]
  obtain e' where e': "dict_get (sm_sockets (snd (release_socket p s))) p = Some e'" "se_sock e' = se_sock e"
    by auto
  with get_socket_existing [OF sm_inv_release [OF inv] e'(1)] show ?thesis by simp
qed

theorem grace_period_reuse_witness:
  "fst (get_socket False 80 (snd (release_socket 80 (sm_run (sm_init 30 1) [Get 80 True])))) = Inr 0"
proof -
  have "dict_get (sm_sockets (sm_run (sm_init 30 1) [Get 80 True])) 80
      = Some \<lparr>se_sock = 0, se_timestamp = 0, se_refs = 1\<rparr>"
    by (simp add: sm_run_def sm_init_def get_socket_def Let_def)
  from grace_period_reuse [of 1 _ 30 "[Get 80 True]", OF _ refl this] show ?thesis by simp
qed

text \<open>
  C39. The port is freed in the end: an unreferenced socket has a pending clean-up task, and when that
  task's time has come and it runs with the port still unreferenced, the socket is closed and the
  port forgotten.
\<close>

theorem unreferenced_socket_closed:
  assumes "0 < now" and "s = sm_run (sm_init grace now) es"
    and "dict_get (sm_sockets s) p = Some e" and "se_refs e = 0"
  shows "\<exists>n < length (sm_cleanup_tasks s). sm_cleanup_tasks s ! n = (p, se_timestamp e + sm_grace s) \<and>
    (let s' = sm_step (sm_step s (Tick (se_timestamp e + sm_grace s))) (Fire n) in
      dict_get (sm_sockets s') p = None \<and> \<not> has_key (sm_open s') (se_sock e))"
proof -
  have inv: "sm_inv s" using sm_inv_run [OF sm_inv_init [OF assms(1)]] assms(2) by simp
  from inv_entry(3) [OF inv assms(3,4)] obtain n where n: "n < length (sm_cleanup_tasks s)"
    "sm_cleanup_tasks s ! n = (p, se_timestamp e + sm_grace s)" and ts: "0 < se_timestamp e"
    by (auto simp: in_set_conv_nth)
  with assms(3,4) show ?thesis
    by (intro exI [of _ n]) (auto simp: Let_def cleanup_socket_def close_socket_def dict_simps)
qed

theorem unreferenced_socket_closed_witness:
  "\<exists>n < length (sm_cleanup_tasks (sm_run (sm_init 30 1) [Get 80 True, Release 80])).
     sm_cleanup_tasks (sm_run (sm_init 30 1) [Get 80 True, Release 80]) ! n = (80, 31)"
proof -
  let ?s = "sm_run (sm_init 30 1) [Get 80 True, Release 80]"
  have e: "dict_get (sm_sockets ?s) 80 = Some \<lparr>se_sock = 0, se_timestamp = 1, se_refs = 0\<rparr>"
    and g: "sm_grace ?s = 30"
    by (simp_all add: sm_run_def sm_init_def get_socket_def release_socket_def sock_listen_def Let_def has_key_def)
  from unreferenced_socket_closed [of 1 _ 30 "[Get 80 True, Release 80]", OF _ refl e] g
  show ?thesis by auto
qed

text \<open>
  The grace period of a reused socket is cut short: the clean-up task of an earlier release is
  not cancelled when the socket is reused. Released at time 1, taken again and released at time 29,
  the socket is closed at time 31 by the first task, two ticks into its thirty ticks of grace.
\<close>

theorem grace_period_cut_short:
  "let s = sm_run (sm_init 30 1) [Get 80 True, Release 80, Tick 28, Get 80 True, Release 80, Tick 2] in
     dict_get (sm_sockets s) 80 = Some \<lparr>se_sock = 0, se_timestamp = 29, se_refs = 0\<rparr> \<and>
     sm_clock (sm_step s (Fire 0)) = 31 \<and>
     dict_get (sm_sockets (sm_step s (Fire 0))) 80 = None \<and> sm_open (sm_step s (Fire 0)) = []"
  by (simp add: sm_run_def sm_init_def get_socket_def release_socket_def sock_listen_def Let_def
      has_key_def cleanup_socket_def close_socket_def)

section \<open>Sockets by reference count\<close>

text \<open>
  What the holders of sockets rely on: a request that succeeds adds one reference to its port and gives
  the socket that is then held for it, one that fails has no lasting effect, a release takes one
  reference away, and no held socket is lost by either. \<open>counted s running\<close>: the references are those of the
  holders in the list.
\<close>

definition refs_of :: "socket_manager \<Rightarrow> int \<Rightarrow> int" where
  "refs_of sm p = (case dict_get (sm_sockets sm) p of None \<Rightarrow> 0 | Some e \<Rightarrow> se_refs e)"

definition servers_on :: "int \<Rightarrow> (int \<times> sock) list \<Rightarrow> nat" where
  "servers_on p running = length (filter (\<lambda>x. fst x = p) running)"

definition holds :: "socket_manager \<Rightarrow> int \<Rightarrow> sock \<Rightarrow> bool" where
  "holds sm p k \<longleftrightarrow> (\<exists>e. dict_get (sm_sockets sm) p = Some e \<and> se_sock e = k)"

definition counted ::
    "('s \<Rightarrow> int \<Rightarrow> int) \<Rightarrow> ('s \<Rightarrow> int \<Rightarrow> sock \<Rightarrow> bool) \<Rightarrow> 's \<Rightarrow> (int \<times> sock) list \<Rightarrow> bool" where
  "counted refs held s running \<longleftrightarrow>
     (\<forall>p. refs s p = int (servers_on p running)) \<and> (\<forall>x\<in>set running. held s (fst x) (snd x))"

lemma servers_on_Cons: "servers_on q ((p, k) # running) = servers_on q running + (if q = p then 1 else 0)"
  by (simp add: servers_on_def)

lemma servers_on_remove:
  assumes "(p, k) \<in> set running"
  shows "int (servers_on q (remove1 (p, k) running)) = int (servers_on q running) - (if q = p then 1 else 0)"
proof -
  have "(p, k) \<in> set (filter (\<lambda>x. fst x = q) running) \<longleftrightarrow> q = p" using assms by auto
  moreover have "q = p \<Longrightarrow> 0 < length (filter (\<lambda>x. fst x = q) running)"
    using assms by (force simp: filter_empty_conv)
  ultimately show ?thesis by (auto simp: servers_on_def filter_remove1 length_remove1 of_nat_diff Suc_le_eq)
qed

lemma servers_on_pos: "(p, k) \<in> set running \<Longrightarrow> 0 < servers_on p running"
  by (force simp: servers_on_def filter_empty_conv)

locale refcounted =
  fixes get :: "bool \<Rightarrow> int \<Rightarrow> 's \<Rightarrow> sock res \<times> 's"
    and release :: "int \<Rightarrow> 's \<Rightarrow> 's"
    and refs :: "'s \<Rightarrow> int \<Rightarrow> int"
    and held :: "'s \<Rightarrow> int \<Rightarrow> sock \<Rightarrow> bool"
    and inv :: "'s \<Rightarrow> bool"
  assumes get_inv: "inv s \<Longrightarrow> get b p s = (Inr k, s') \<Longrightarrow> inv s'"
    and get_refs: "inv s \<Longrightarrow> get b p s = (Inr k, s') \<Longrightarrow> refs s' q = refs s q + (if q = p then 1 else 0)"
    and get_held: "inv s \<Longrightarrow> get b p s = (Inr k, s') \<Longrightarrow> held s' p k"
    and get_keeps: "inv s \<Longrightarrow> get b p s = (Inr k, s') \<Longrightarrow> held s q j \<Longrightarrow> held s' q j"
    and get_fails: "inv s \<Longrightarrow> get b p s = (Inl e, s') \<Longrightarrow> release p s' = s"
    and release_inv: "inv s \<Longrightarrow> inv (release p s)"
    and release_refs: "inv s \<Longrightarrow> 0 < refs s p \<Longrightarrow> refs (release p s) q = refs s q - (if q = p then 1 else 0)"
    and release_keeps: "inv s \<Longrightarrow> 0 < refs s p \<Longrightarrow> held s q j \<Longrightarrow> held (release p s) q j"
begin

lemma start_counted:
  assumes "inv s" "counted refs held s running" "get b p s = (Inr k, s')"
  shows "inv s' \<and> counted refs held s' ((p, k) # running)"
  using assms get_inv get_refs get_held get_keeps by (auto simp: counted_def servers_on_Cons)

lemma failed_start_counted:
  assumes "inv s" "counted refs held s running" "get b p s = (Inl e, s')"
  shows "inv (release p s') \<and> counted refs held (release p s') running"
  using assms get_fails by simp

lemma stop_counted:
  assumes "inv s" "counted refs held s running" "(p, k) \<in> set running"
  shows "inv (release p s) \<and> counted refs held (release p s) (remove1 (p, k) running)"
proof -
  have pos: "0 < refs s p" using assms(2) servers_on_pos [OF assms(3)] by (simp add: counted_def)
  have "held (release p s) (fst x) (snd x)" if "x \<in> set (remove1 (p, k) running)" for x
    using that assms(2) release_keeps [OF assms(1) pos] set_remove1_subset by (fastforce simp: counted_def)
  with assms release_inv release_refs [OF assms(1) pos] servers_on_remove [OF assms(3)]
  show ?thesis by (auto simp: counted_def)
qed

lemma background_counted:
  assumes "counted refs held s running" "\<forall>p. refs s' p = refs s p" "\<forall>p k. 0 < refs s p \<longrightarrow> held s p k \<longrightarrow> held s' p k"
  shows "counted refs held s' running"
  using assms servers_on_pos by (fastforce simp: counted_def)

end

lemma get_effect:
  assumes "sm_inv sm" "get_socket b p sm = (Inr k, sm')"
  shows "refs_of sm' q = refs_of sm q + (if q = p then 1 else 0)" "holds sm' p k" "holds sm q j \<Longrightarrow> holds sm' q j"
proof -
  consider (new) "dict_get (sm_sockets sm) p = None" "b" | (old) e where "dict_get (sm_sockets sm) p = Some e"
    using assms(2) by (cases "dict_get (sm_sockets sm) p") (auto simp: get_socket_def split: if_splits)
  then have "refs_of sm' q = refs_of sm q + (if q = p then 1 else 0) \<and> holds sm' p k \<and> (holds sm q j \<longrightarrow> holds sm' q j)"
  proof cases
    case new
    with get_socket_new [OF new(1)] assms(2) show ?thesis by (auto simp: refs_of_def holds_def dict_simps)
  next
    case (old e)
    with get_socket_existing [OF assms(1) old, of b] assms(2) show ?thesis
      by (auto simp: refs_of_def holds_def dict_simps)
  qed
  then show "refs_of sm' q = refs_of sm q + (if q = p then 1 else 0)" "holds sm' p k"
    "holds sm q j \<Longrightarrow> holds sm' q j" by blast+
qed

lemma get_failure:
  assumes "sm_inv sm" "get_socket b p sm = (Inl e, sm')"
  shows "snd (release_socket p sm') = sm"
proof (cases "dict_get (sm_sockets sm) p")
  case None
  with assms(2) have "sm' = sm" by (simp add: get_socket_def Let_def split: if_splits)
  with None show ?thesis by (simp add: release_socket_def)
qed (use get_socket_existing [OF assms(1)] assms(2) in auto)

lemma release_effect:
  assumes "sm_inv sm" "0 < refs_of sm p"
  shows "refs_of (snd (release_socket p sm)) q = refs_of sm q - (if q = p then 1 else 0)"
    "holds sm q j \<Longrightarrow> holds (snd (release_socket p sm)) q j"
proof -
  obtain e where e: "dict_get (sm_sockets sm) p = Some e" "0 < se_refs e"
    using assms(2) by (auto simp: refs_of_def split: option.splits)
  from release_existing [OF assms(1) e(1)] e
  show "refs_of (snd (release_socket p sm)) q = refs_of sm q - (if q = p then 1 else 0)"
    "holds sm q j \<Longrightarrow> holds (snd (release_socket p sm)) q j"
    by (auto simp: refs_of_def holds_def dict_simps)
qed

lemma fire_effect:
  "refs_of (sm_step sm (Fire n)) q = refs_of sm q"
  "holds sm q j \<Longrightarrow> 0 < refs_of sm q \<Longrightarrow> holds (sm_step sm (Fire n)) q j"
  by (auto simp: cleanup_socket_def close_socket_def refs_of_def holds_def dict_simps Let_def split: option.splits)

lemma sm_inv_one: "sm_inv sm \<Longrightarrow> sm_inv (sm_step sm e)"
  using sm_inv_run [of sm "[e]"] by (simp add: sm_run_def)

interpretation socks: refcounted get_socket "\<lambda>p s. snd (release_socket p s)" refs_of holds sm_inv
proof
  show "sm_inv s'" if "sm_inv s" "get_socket b p s = (Inr k, s')" for s b p k s'
    using sm_inv_get [OF that(1), of b p] that(2) by simp
qed (fact get_effect get_failure release_effect sm_inv_release)+

end
