(* ===== verification/SocksTasks.thy ===== *)
theory SocksTasks
  imports SocketManager
begin

text \<open>
  The SOCKS servers of the reverse tokens (\<open>_run_socks_server\<close> of class \<open>WSSocksServer\<close> in
  \<^verbatim>\<open>pywssocks/server.py\<close>): each takes the socket of its port from the socket manager, accepts requests
  until the socket fails or its task is cancelled, and releases the socket. Any number of them run
  interleaved with the clean-up tasks of the manager; a port that is freed and given out again may
  have the server of the old token and that of the new one running at the same time.
\<close>

section \<open>One server\<close>

datatype accepted = AcceptedSocket nat | AcceptOSError | AcceptError

text \<open>The sockets handed to request handlers, and whether the loop has ended by itself.\<close>

fun accept_requests :: "accepted list \<Rightarrow> nat list \<times> bool" where
  "accept_requests [] = ([], False)"
| "accept_requests (AcceptedSocket client_sock # r) =
     (case accept_requests r of (socks, ended) \<Rightarrow> (client_sock # socks, ended))"
| "accept_requests (AcceptOSError # r) = ([], True)"
| "accept_requests (AcceptError # r) = accept_requests r"

text \<open>
  The whole task. \<open>meanwhile\<close> is what happens to the manager until the task ends. The socket is released
  also where it could not be had.
\<close>

definition run_socks_server ::
    "bool \<Rightarrow> int \<Rightarrow> accepted list \<Rightarrow> (socket_manager \<Rightarrow> socket_manager) \<Rightarrow> socket_manager \<Rightarrow>
     nat list \<times> socket_manager" where
  "run_socks_server bind_ok socks_port accepted meanwhile s =
     (case get_socket bind_ok socks_port s of
        (Inl e, s) \<Rightarrow> ([], snd (release_socket socks_port s))
      | (Inr socks_server, s) \<Rightarrow>
          (fst (accept_requests accepted), snd (release_socket socks_port (meanwhile s))))"

section \<open>All servers\<close>

type_synonym socks_state = "socket_manager \<times> (int \<times> sock) list"

inductive ss_step :: "socks_state \<Rightarrow> socks_state \<Rightarrow> bool" where
  start: "get_socket bind_ok p sm = (Inr k, sm') \<Longrightarrow> ss_step (sm, running) (sm', (p, k) # running)"
| start_fails: "get_socket bind_ok p sm = (Inl e, sm') \<Longrightarrow>
    ss_step (sm, running) (snd (release_socket p sm'), running)"
| stop: "(p, k) \<in> set running \<Longrightarrow>
    ss_step (sm, running) (snd (release_socket p sm), remove1 (p, k) running)"
| tick: "ss_step (sm, running) (sm_step sm (Tick d), running)"
| fire: "ss_step (sm, running) (sm_step sm (Fire n), running)"

inductive ss_reachable :: "nat \<Rightarrow> nat \<Rightarrow> socks_state \<Rightarrow> bool" for grace now where
  init [intro]: "ss_reachable grace now (sm_init grace now, [])"
| step [intro]: "ss_reachable grace now \<sigma> \<Longrightarrow> ss_step \<sigma> \<sigma>' \<Longrightarrow> ss_reachable grace now \<sigma>'"

section \<open>The invariant\<close>

definition ss_inv :: "socks_state \<Rightarrow> bool" where
  "ss_inv \<sigma> \<longleftrightarrow> sm_inv (fst \<sigma>) \<and> counted refs_of holds (fst \<sigma>) (snd \<sigma>)"

theorem ss_inv_step: "ss_step \<sigma> \<sigma>' \<Longrightarrow> ss_inv \<sigma> \<Longrightarrow> ss_inv \<sigma>'"
proof (induction rule: ss_step.induct)
  case (tick sm running d)
  then have "counted refs_of holds (sm_step sm (Tick d)) running"
    by (auto simp: ss_inv_def refs_of_def holds_def counted_def)
  with tick sm_inv_one [of sm "Tick d"] show ?case by (simp add: ss_inv_def)
next
  case (fire sm running n)
  then have c: "counted refs_of holds sm running" by (simp add: ss_inv_def)
  have "counted refs_of holds (sm_step sm (Fire n)) running"
    by (rule socks.background_counted [OF c]) (blast intro: fire_effect)+
  with fire sm_inv_one [of sm "Fire n"] show ?case by (simp add: ss_inv_def del: sm_step.simps)
qed (auto simp: ss_inv_def dest: socks.start_counted socks.failed_start_counted socks.stop_counted)

interpretation socks_system: transition_system "\<lambda>\<sigma>. \<exists>grace now. 0 < now \<and> \<sigma> = (sm_init grace now, [])" ss_step ss_inv
proof
  show "ss_inv \<sigma>" if "\<exists>grace now. 0 < now \<and> \<sigma> = (sm_init grace now, [])" for \<sigma>
    using that sm_inv_init by (auto simp: ss_inv_def counted_def refs_of_def servers_on_def sm_init_def)
qed (rule ss_inv_step)

lemma ss_reachable_steps: "ss_reachable grace now \<sigma> \<Longrightarrow> ss_step\<^sup>*\<^sup>* (sm_init grace now, []) \<sigma>"
  by (induction rule: ss_reachable.induct) auto

lemma ss_reachable_inv: "ss_reachable grace now \<sigma> \<Longrightarrow> 0 < now \<Longrightarrow> ss_inv \<sigma>"
  using socks_system.reached_inv ss_reachable_steps by blast

text \<open>
  C11. No SOCKS server loses its socket while it runs. In every interleaving of servers starting (with
  or without success), accepting, ending, clean-up tasks and time, the reference count of a port is
  the number of servers running on it; the socket each of them accepts on is open and the one managed
  for its port; and two servers share a socket exactly when they share the port.
\<close>

theorem running_servers_hold_sockets:
  assumes "ss_reachable grace now (sm, running)" "0 < now"
  shows "refs_of sm p = int (servers_on p running) \<and>
    (\<forall>x\<in>set running. has_key (sm_open sm) (snd x) \<and> holds sm (fst x) (snd x)) \<and>
    (\<forall>x\<in>set running. \<forall>y\<in>set running. snd x = snd y \<longleftrightarrow> fst x = fst y)"
proof -
  have i: "sm_inv sm" "refs_of sm p = int (servers_on p running)" "\<forall>x\<in>set running. holds sm (fst x) (snd x)"
    using ss_reachable_inv [OF assms] by (simp_all add: ss_inv_def counted_def)
  then have ok: "sockets_ok sm" by (simp add: sm_inv_def)
  have "has_key (sm_open sm) k" if "holds sm q k" for q k
    using that sockets_okD(1) [OF ok] by (auto simp: holds_def)
  moreover have "k = j \<longleftrightarrow> q = r" if "holds sm q k" "holds sm r j" for q r k j
    using that sockets_okD(3) [OF ok] by (auto simp: holds_def)
  ultimately show ?thesis using i(2,3) by blast
qed

text \<open>The server of an old token ends after that of a new token on the same port has started.\<close>

lemma running_servers_hold_sockets_witness:
  "\<exists>sm. ss_reachable 30 1 (sm, [(1080, 0)]) \<and> refs_of sm 1080 = 1 \<and> has_key (sm_open sm) 0"
proof -
  let ?s0 = "sm_init 30 1"
  obtain s1 where s1: "get_socket True 1080 ?s0 = (Inr 0, s1)" by (simp add: get_socket_def sm_init_def Let_def)
  have i0: "sm_inv ?s0" by (rule sm_inv_init) simp
  from get_effect(2) [OF i0 s1] have h: "holds s1 1080 0" .
  have i1: "sm_inv s1" using sm_inv_get [OF i0, of True 1080] s1 by simp
  obtain s2 where s2: "get_socket True 1080 s1 = (Inr 0, s2)"
    using h get_socket_existing [OF i1] by (auto simp: holds_def)
  have "ss_reachable 30 1 (s2, [(1080, 0), (1080, 0)])"
    using ss_reachable.init ss_step.start [OF s1, of "[]"] ss_step.start [OF s2, of "[(1080, 0)]"] by blast
  from ss_reachable.step [OF this ss_step.stop [of 1080 0]]
  have r: "ss_reachable 30 1 (snd (release_socket 1080 s2), [(1080, 0)])" by simp
  from running_servers_hold_sockets [OF r, of 1080] r show ?thesis
    by (auto simp: servers_on_def)
qed

end
