(* ===== verification/Conn.thy ===== *)
theory Conn
  imports Prelude
begin

text \<open>
  A connected stream socket as the relay uses it: \<^verbatim>\<open>loop.sock_recv\<close>, \<^verbatim>\<open>loop.sock_sendall\<close> and
  \<^verbatim>\<open>close\<close>. What the peer will send is a list of segments: \<open>sock_recv n\<close> returns at most \<open>n\<close> bytes of the
  first one, as TCP does, so a read that a program hopes to be complete can be short. After the last
  segment the stream is at its end (an empty read). A segment can also be an error. Sending raises
  when the peer is gone.

  A computation on a state (a socket, or a record that contains one) is a function from the state to
  a result and the state after it.
\<close>

section \<open>Sockets\<close>

record conn =
  inbound :: "bytes res list"
  outbound :: "bytes list"
  peer_gone :: bool
  conn_closed :: bool

definition fresh_conn :: "bytes list \<Rightarrow> conn" where
  "fresh_conn segs =
     \<lparr>inbound = map Inr segs, outbound = [], peer_gone = False, conn_closed = False\<rparr>"

type_synonym ('s, 'a) io = "'s \<Rightarrow> 'a res \<times> 's"

definition io_return :: "'a \<Rightarrow> ('s, 'a) io" where
  "io_return x c = (Inr x, c)"

definition io_raise :: "exn \<Rightarrow> ('s, 'a) io" where
  "io_raise e c = (Inl e, c)"

definition io_bind :: "('s, 'a) io \<Rightarrow> ('a \<Rightarrow> ('s, 'b) io) \<Rightarrow> ('s, 'b) io" where
  "io_bind m f c = (case m c of (Inl e, c') \<Rightarrow> (Inl e, c') | (Inr x, c') \<Rightarrow> f x c')"

definition io_lift :: "'a res \<Rightarrow> ('s, 'a) io" where
  "io_lift r c = (r, c)"

lemma io_simps [simp]:
  "io_return x c = (Inr x, c)" "io_raise e c = (Inl e, c)" "io_lift r c = (r, c)"
  by (simp_all add: io_return_def io_raise_def io_lift_def)

lemma io_bind_eq [simp]:
  "m c = (Inr x, c') \<Longrightarrow> io_bind m f c = f x c'" "m c = (Inl e, c') \<Longrightarrow> io_bind m f c = (Inl e, c')"
  by (simp_all add: io_bind_def)

lemma io_bind_Inr:
  "io_bind m f c = (Inr y, c'') \<longleftrightarrow> (\<exists>x c'. m c = (Inr x, c') \<and> f x c' = (Inr y, c''))"
  by (auto simp: io_bind_def split: prod.splits sum.splits)

lemma io_bind_cong [fundef_cong]:
  "m c = m' c \<Longrightarrow> (\<And>x c'. m' c = (Inr x, c') \<Longrightarrow> f x c' = g x c') \<Longrightarrow> io_bind m f c = io_bind m' g c"
  by (auto simp: io_bind_def split: prod.splits sum.splits)

text \<open>Exception handlers, and changes of the state that cannot fail.\<close>

definition io_catch :: "('s, 'a) io \<Rightarrow> (exn \<Rightarrow> ('s, 'a) io) \<Rightarrow> ('s, 'a) io" where
  "io_catch m h c = (case m c of (Inl e, c') \<Rightarrow> h e c' | (Inr x, c') \<Rightarrow> (Inr x, c'))"

definition io_modify :: "('s \<Rightarrow> 's) \<Rightarrow> ('s, unit) io" where
  "io_modify f c = (Inr (), f c)"

lemma io_modify_simp [simp]: "io_modify f c = (Inr (), f c)"
  by (simp add: io_modify_def)

lemma io_catch_eq [simp]:
  "m c = (Inr x, c') \<Longrightarrow> io_catch m h c = (Inr x, c')" "m c = (Inl e, c') \<Longrightarrow> io_catch m h c = h e c'"
  by (simp_all add: io_catch_def)

text \<open>What \<^verbatim>\<open>websocket.recv()\<close> gives: bytes, a text, or the exception that ends the stream.\<close>

datatype frame = Binary bytes | TextFrame | EndOfStream

section \<open>Operations\<close>

definition sock_recv :: "nat \<Rightarrow> (conn, bytes) io" where
  "sock_recv n c =
     (if conn_closed c then (Inl OSError, c)
      else if n = 0 then (Inr [], c)
      else case inbound c of
        [] \<Rightarrow> (Inr [], c)
      | Inl e # segs \<Rightarrow> (Inl e, c\<lparr>inbound := segs\<rparr>)
      | Inr seg # segs \<Rightarrow>
          (Inr (take n seg),
           c\<lparr>inbound := (if length seg \<le> n then segs else Inr (drop n seg) # segs)\<rparr>))"

definition sock_sendall :: "bytes \<Rightarrow> (conn, unit) io" where
  "sock_sendall data c =
     (if conn_closed c \<or> peer_gone c then (Inl OSError, c)
      else (Inr (), c\<lparr>outbound := outbound c @ [data]\<rparr>))"

definition conn_close :: "conn \<Rightarrow> conn" where
  "conn_close c = c\<lparr>conn_closed := True\<rparr>"

lemma conn_close_simps [simp]:
  "outbound (conn_close c) = outbound c" "inbound (conn_close c) = inbound c"
  "conn_closed (conn_close c)"
  by (simp_all add: conn_close_def)

text \<open>\<open>(await loop.sock_recv(sock, 1))[0]\<close>: the end of the stream raises \<^verbatim>\<open>IndexError\<close>.\<close>

definition recv_byte :: "(conn, nat) io" where
  "recv_byte = io_bind (sock_recv 1) (\<lambda>d. io_lift (rbind (index_res d 0) (\<lambda>b. Inr (unat b))))"

section \<open>Reading a segment piece by piece\<close>

text \<open>The open socket on which one segment (and then \<open>segs\<close>) is waiting.\<close>

definition waiting :: "bytes \<Rightarrow> bytes res list \<Rightarrow> bytes list \<Rightarrow> conn" where
  "waiting seg segs out =
     \<lparr>inbound = (if seg = [] then segs else Inr seg # segs), outbound = out, peer_gone = False,
      conn_closed = False\<rparr>"

lemma waiting_simps [simp]:
  "outbound (waiting d segs out) = out" "conn_closed (waiting d segs out) = False"
  by (simp_all add: waiting_def)

lemma recv_waiting:
  "length d = n \<Longrightarrow> sock_recv n (waiting (d @ r) segs out) = (Inr d, waiting r segs out)"
  by (auto simp: sock_recv_def waiting_def)

lemma recv_byte_waiting:
  "recv_byte (waiting (b # r) segs out) = (Inr (unat b), waiting r segs out)"
  using recv_waiting [of "[b]" 1 r segs out] by (simp add: recv_byte_def)

lemma recv_waiting_all:
  "length d = n \<Longrightarrow> sock_recv n (waiting d segs out) = (Inr d, waiting [] segs out)"
  using recv_waiting [of d n "[]"] by simp

lemma sendall_waiting:
  "sock_sendall d (waiting r segs out) = (Inr (), waiting r segs (out @ [d]))"
  by (simp add: sock_sendall_def waiting_def)

lemmas waiting_steps = recv_waiting recv_waiting_all recv_byte_waiting sendall_waiting

section \<open>What is read is the stream\<close>

text \<open>The bytes still to come, up to the first error.\<close>

fun stream :: "bytes res list \<Rightarrow> bytes" where
  "stream [] = []"
| "stream (Inr seg # segs) = seg @ stream segs"
| "stream (Inl e # segs) = []"

lemma recv_stream:
  "sock_recv n c = (Inr d, c') \<Longrightarrow>
     stream (inbound c) = d @ stream (inbound c') \<and> length d \<le> n \<and> outbound c' = outbound c"
  by (auto simp: sock_recv_def split: if_splits list.splits sum.splits)

lemma recv_byte_stream:
  "recv_byte c = (Inr b, c') \<Longrightarrow>
     stream (inbound c) = byte_of b # stream (inbound c') \<and> b < 256 \<and> outbound c' = outbound c"
proof -
  assume "recv_byte c = (Inr b, c')"
  then obtain d where d: "sock_recv 1 c = (Inr d, c')" "d \<noteq> []" "b = unat (d ! 0)"
    by (auto simp: recv_byte_def io_bind_Inr res_simps)
  from recv_stream [OF d(1)] d(2) have "d = [d ! 0]"
    by (cases d) auto
  with recv_stream [OF d(1)] d(3) show ?thesis
    by (metis append_Cons append_Nil byte_of_unat unat_byte_less)
qed

lemma sendall_stream:
  "sock_sendall d c = (Inr (), c') \<Longrightarrow> inbound c' = inbound c \<and> outbound c' = outbound c @ [d]"
  by (auto simp: sock_sendall_def split: if_splits)

end
