(* ===== verification/Json.thy ===== *)
theory Json
  imports Uuid
begin

text \<open>
  \<^verbatim>\<open>json.dumps\<close> and \<^verbatim>\<open>json.loads\<close> with their default arguments, as the log and partners messages use
  them: ASCII-only output with \<^verbatim>\<open>\uXXXX\<close> escapes and surrogate pairs, the separators \<open>", "\<close> and
  \<open>": "\<close>; a parser for the whole grammar that reads numbers, strings with escapes, arrays and
  objects, and keeps the last value of a repeated key. A floating-point number is kept as its
  literal text. The parser's fuel bounds its depth and its number of loop turns;
  \<open>json_loads_fuel\<close> shows that the fuel \<open>json_loads\<close> supplies is never exhausted.
\<close>

datatype json =
    JNull
  | JBool bool
  | JInt int
  | JFloat pystr
  | JStr pystr
  | JList "json list"
  | JDict "(pystr \<times> json) list"

section \<open>Output\<close>

definition hex4_str :: "nat \<Rightarrow> pystr" where
  "hex4_str n = map hex_char (to_digits 16 4 n)"

text \<open>One character of a string literal (\<^verbatim>\<open>ensure_ascii=True\<close>).\<close>

definition json_escape :: "nat \<Rightarrow> pystr" where
  "json_escape c =
     (if c = 34 then [92, 34]
      else if c = 92 then [92, 92]
      else if c = 10 then lit [CHR 0x5C, CHR ''n'']
      else if c = 13 then lit [CHR 0x5C, CHR ''r'']
      else if c = 9 then lit [CHR 0x5C, CHR ''t'']
      else if c = 12 then lit [CHR 0x5C, CHR ''f'']
      else if c = 8 then lit [CHR 0x5C, CHR ''b'']
      else if 32 \<le> c \<and> c \<le> 126 then [c]
      else if c < 0x10000 then [92, 117] @ hex4_str c
      else [92, 117] @ hex4_str (0xD800 + (c - 0x10000) div 1024) @
           [92, 117] @ hex4_str (0xDC00 + (c - 0x10000) mod 1024))"

definition json_quote :: "pystr \<Rightarrow> pystr" where
  "json_quote s = [34] @ concat (map json_escape s) @ [34]"

fun dec_digits :: "nat \<Rightarrow> nat list" where
  "dec_digits n = (if n < 10 then [n] else dec_digits (n div 10) @ [n mod 10])"

declare dec_digits.simps [simp del]

definition int_str :: "int \<Rightarrow> pystr" where
  "int_str i =
     (if i < 0 then [45] else []) @ map (\<lambda>d. 48 + d) (dec_digits (nat \<bar>i\<bar>))"

fun intersperse_str :: "pystr \<Rightarrow> pystr list \<Rightarrow> pystr" where
  "intersperse_str sep [] = []"
| "intersperse_str sep [x] = x"
| "intersperse_str sep (x # y # xs) = x @ sep @ intersperse_str sep (y # xs)"

fun json_dumps :: "json \<Rightarrow> pystr" where
  "json_dumps JNull = lit ''null''"
| "json_dumps (JBool b) = (if b then lit ''true'' else lit ''false'')"
| "json_dumps (JInt i) = int_str i"
| "json_dumps (JFloat t) = t"
| "json_dumps (JStr s) = json_quote s"
| "json_dumps (JList xs) = [91] @ intersperse_str (lit '', '') (map json_dumps xs) @ [93]"
| "json_dumps (JDict kvs) =
     [123] @ intersperse_str (lit '', '')
       (map (\<lambda>kv. json_quote (fst kv) @ lit '': '' @ json_dumps (snd kv)) kvs) @ [125]"

section \<open>Input\<close>

definition is_ws :: "nat \<Rightarrow> bool" where
  "is_ws c \<longleftrightarrow> c = 32 \<or> c = 9 \<or> c = 10 \<or> c = 13"

definition skip_ws :: "pystr \<Rightarrow> pystr" where
  "skip_ws s = dropWhile is_ws s"

definition is_digit :: "nat \<Rightarrow> bool" where
  "is_digit c \<longleftrightarrow> 48 \<le> c \<and> c \<le> 57"

fun hex4 :: "pystr \<Rightarrow> (nat \<times> pystr) option" where
  "hex4 (a # b # c # d # r) =
     (case map_opt hex_val [a, b, c, d] of None \<Rightarrow> None | Some ds \<Rightarrow> Some (of_digits 16 ds, r))"
| "hex4 _ = None"

lemma hex4_length: "hex4 s = Some (n, r) \<Longrightarrow> length s = length r + 4"
  by (induction s rule: hex4.induct) (auto split: option.splits)

definition simple_escape :: "nat \<Rightarrow> nat option" where
  "simple_escape e =
     (if e = 34 \<or> e = 92 \<or> e = 47 then Some e
      else if e = 98 then Some 8 else if e = 102 then Some 12 else if e = 110 then Some 10
      else if e = 114 then Some 13 else if e = 116 then Some 9 else None)"

text \<open>The second half of a surrogate pair: \<^verbatim>\<open>\u\<close> and four digits of a low surrogate.\<close>

definition low_half :: "pystr \<Rightarrow> (nat \<times> pystr) option" where
  "low_half s =
     (if length s > 1 \<and> s ! 0 = 92 \<and> s ! 1 = 117 then
        (case hex4 (drop 2 s) of
           Some (n, r) \<Rightarrow> if 0xDC00 \<le> n \<and> n \<le> 0xDFFF then Some (n, r) else None
         | None \<Rightarrow> None)
      else None)"

lemma low_half_length: "low_half s = Some (n, r) \<Longrightarrow> length r < length s"
  by (auto simp: low_half_def dest: hex4_length split: if_splits option.splits)

text \<open>The characters of a string literal after its opening quote, and what follows the literal.\<close>

function jstring :: "pystr \<Rightarrow> (pystr \<times> pystr) option" where
  "jstring [] = None"
| "jstring (c # cs) =
     (if c = 34 then Some ([], cs)
      else if c = 92 then
        (case cs of [] \<Rightarrow> None
         | e # r \<Rightarrow>
             if e = 117 then
               (case hex4 r of None \<Rightarrow> None
                | Some (n, r1) \<Rightarrow>
                    (case (if 0xD800 \<le> n \<and> n \<le> 0xDBFF then low_half r1 else None) of
                       Some (m, r2) \<Rightarrow>
                         map_option (\<lambda>(s, t). ((0x10000 + (n - 0xD800) * 1024 + (m - 0xDC00)) # s, t))
                           (jstring r2)
                     | None \<Rightarrow> map_option (\<lambda>(s, t). (n # s, t)) (jstring r1)))
             else (case simple_escape e of None \<Rightarrow> None
                   | Some x \<Rightarrow> map_option (\<lambda>(s, t). (x # s, t)) (jstring r)))
      else if c < 32 then None
      else map_option (\<lambda>(s, t). (c # s, t)) (jstring cs))"
  by pat_completeness auto
termination
  by (relation "measure length")
     (auto dest!: hex4_length low_half_length split: if_splits)

lemma jstring_shorter: "jstring s = Some (x, r) \<Longrightarrow> length r < length s"
proof (induction s arbitrary: x r rule: jstring.induct)
  case 1
  then show ?case by simp
next
  case (2 c cs)
  then show ?case
    by (fastforce split: if_splits list.splits option.splits dest!: hex4_length low_half_length)
qed

text \<open>A number: an integer part, then an optional fraction and an optional exponent.\<close>

definition frac_part :: "pystr \<Rightarrow> pystr \<times> pystr" where
  "frac_part s =
     (if length s > 1 \<and> s ! 0 = 46 \<and> is_digit (s ! 1)
      then (46 # takeWhile is_digit (tl s), dropWhile is_digit (tl s)) else ([], s))"

definition exp_part :: "pystr \<Rightarrow> pystr \<times> pystr" where
  "exp_part s =
     (if s \<noteq> [] \<and> (hd s = 101 \<or> hd s = 69) then
        (let r = tl s;
             sg = (if r \<noteq> [] \<and> (hd r = 43 \<or> hd r = 45) then [hd r] else []);
             ds = takeWhile is_digit (drop (length sg) r) in
         if ds = [] then ([], s)
         else (hd s # sg @ ds, dropWhile is_digit (drop (length sg) r)))
      else ([], s))"

definition jnumber :: "pystr \<Rightarrow> (json \<times> pystr) option" where
  "jnumber s =
     (let neg = (s \<noteq> [] \<and> hd s = 45); s1 = (if neg then tl s else s);
          ds = (if s1 \<noteq> [] \<and> hd s1 = 48 then [48] else takeWhile is_digit s1);
          r = (if s1 \<noteq> [] \<and> hd s1 = 48 then tl s1 else dropWhile is_digit s1);
          fr = frac_part r; ex = exp_part (snd fr) in
      if ds = [] then None
      else if fst fr = [] \<and> fst ex = [] then
        (let n = int (of_digits 10 (map (\<lambda>c. c - 48) ds)) in
         Some (JInt (if neg then - n else n), snd ex))
      else Some (JFloat ((if neg then [45] else []) @ ds @ fst fr @ fst ex), snd ex))"

definition starts_with :: "pystr \<Rightarrow> pystr \<Rightarrow> bool" where
  "starts_with p s \<longleftrightarrow> take (length p) s = p"

lemma starts_with_simps [simp]:
  "starts_with [] s"
  "\<not> starts_with (p # ps) []"
  "starts_with (p # ps) (c # s) \<longleftrightarrow> c = p \<and> starts_with ps s"
  by (auto simp: starts_with_def)

definition jliteral :: "pystr \<Rightarrow> (json \<times> pystr) option" where
  "jliteral s =
     (if starts_with (lit ''null'') s then Some (JNull, drop 4 s)
      else if starts_with (lit ''true'') s then Some (JBool True, drop 4 s)
      else if starts_with (lit ''false'') s then Some (JBool False, drop 5 s)
      else if starts_with (lit ''NaN'') s then Some (JFloat (lit ''NaN''), drop 3 s)
      else if starts_with (lit ''Infinity'') s then Some (JFloat (lit ''Infinity''), drop 8 s)
      else if starts_with (lit ''-Infinity'') s then Some (JFloat (lit ''-Infinity''), drop 9 s)
      else jnumber s)"

text \<open>
  The tokens between values: the next character after white space, an object's key with its colon,
  and a string literal.
\<close>

definition next_tok :: "pystr \<Rightarrow> (nat \<times> pystr) res" where
  "next_tok s = (case skip_ws s of [] \<Rightarrow> Inl JSONDecodeError | c # r \<Rightarrow> Inr (c, r))"

definition jtext :: "pystr \<Rightarrow> (pystr \<times> pystr) res" where
  "jtext s = (case jstring s of None \<Rightarrow> Inl JSONDecodeError | Some p \<Rightarrow> Inr p)"

definition jkey :: "pystr \<Rightarrow> (pystr \<times> pystr) res" where
  "jkey s =
     (if s \<noteq> [] \<and> hd s = 34 then
        rbind (jtext (tl s)) (\<lambda>(k, t). rbind (next_tok t) (\<lambda>(d, t1).
          if d = 58 then Inr (k, skip_ws t1) else Inl JSONDecodeError))
      else Inl JSONDecodeError)"

definition jscalar :: "pystr \<Rightarrow> (json \<times> pystr) res" where
  "jscalar s = (case jliteral s of None \<Rightarrow> Inl JSONDecodeError | Some p \<Rightarrow> Inr p)"

fun jvalue :: "nat \<Rightarrow> pystr \<Rightarrow> (json \<times> pystr) res"
  and jmembers :: "nat \<Rightarrow> (pystr \<times> json) list \<Rightarrow> pystr \<Rightarrow> (json \<times> pystr) res"
  and jelems :: "nat \<Rightarrow> json list \<Rightarrow> pystr \<Rightarrow> (json \<times> pystr) res" where
  "jvalue 0 s = Inl OutOfFuel"
| "jvalue (Suc n) s =
     (if s = [] then Inl JSONDecodeError
      else if hd s = 34 then rbind (jtext (tl s)) (\<lambda>(x, t). Inr (JStr x, t))
      else if hd s = 123 then
        rbind (next_tok (tl s)) (\<lambda>(d, t).
          if d = 125 then Inr (JDict [], t) else jmembers n [] (d # t))
      else if hd s = 91 then
        rbind (next_tok (tl s)) (\<lambda>(d, t).
          if d = 93 then Inr (JList [], t) else jelems n [] (d # t))
      else jscalar s)"
| "jmembers 0 acc s = Inl OutOfFuel"
| "jmembers (Suc n) acc s =
     rbind (jkey s) (\<lambda>(k, t). rbind (jvalue n t) (\<lambda>(v, t1). rbind (next_tok t1) (\<lambda>(e, t2).
       if e = 44 then jmembers n (dict_set k v acc) (skip_ws t2)
       else if e = 125 then Inr (JDict (dict_set k v acc), t2)
       else Inl JSONDecodeError)))"
| "jelems 0 acc s = Inl OutOfFuel"
| "jelems (Suc n) acc s =
     rbind (jvalue n s) (\<lambda>(v, t1). rbind (next_tok t1) (\<lambda>(e, t2).
       if e = 44 then jelems n (acc @ [v]) (skip_ws t2)
       else if e = 93 then Inr (JList (acc @ [v]), t2)
       else Inl JSONDecodeError))"

definition json_loads :: "pystr \<Rightarrow> json res" where
  "json_loads s =
     (if s \<noteq> [] \<and> hd s = 0xFEFF then Inl JSONDecodeError
      else rbind (jvalue (2 * length s + 1) (skip_ws s)) (\<lambda>(v, t).
        if skip_ws t = [] then Inr v else Inl JSONDecodeError))"

section \<open>The parser's fuel\<close>

text \<open>Every token read leaves a strictly shorter rest, so the fuel can be bounded by the length.\<close>

lemma length_skip_ws: "length (skip_ws s) \<le> length s"
  by (simp add: skip_ws_def length_dropWhile_le)

lemma next_tok_shorter: "next_tok s = Inr (c, r) \<Longrightarrow> length r < length s"
  using length_skip_ws [of s] by (auto simp: next_tok_def split: list.splits)

lemma jtext_shorter: "jtext s = Inr (x, r) \<Longrightarrow> length r < length s"
  by (auto simp: jtext_def split: option.splits dest: jstring_shorter)

lemma jkey_shorter:
  assumes "jkey s = Inr (k, r)"
  shows "length r + 2 < length s"
proof -
  from assms obtain t d t1 where *: "s \<noteq> []" "jtext (tl s) = Inr (k, t)" "next_tok t = Inr (d, t1)"
      "r = skip_ws t1"
    by (auto simp: jkey_def rbind_eq_Inr split: if_splits prod.splits)
  from \<open>s \<noteq> []\<close> have "length (tl s) < length s" by simp
  with jtext_shorter [OF *(2)] next_tok_shorter [OF *(3)] length_skip_ws [of t1]
  show ?thesis unfolding *(4) by linarith
qed

lemma next_tok_error: "next_tok s = Inl e \<Longrightarrow> e = JSONDecodeError"
  by (auto simp: next_tok_def split: list.splits)

lemma jtext_error: "jtext s = Inl e \<Longrightarrow> e = JSONDecodeError"
  by (auto simp: jtext_def split: option.splits)

lemma jscalar_error: "jscalar s = Inl e \<Longrightarrow> e = JSONDecodeError"
  by (auto simp: jscalar_def split: option.splits)

lemma jkey_error: "jkey s = Inl e \<Longrightarrow> e = JSONDecodeError"
  by (auto simp: jkey_def rbind_eq_Inl split: if_splits prod.splits
      dest: next_tok_error jtext_error)

lemmas token_errors = next_tok_error jtext_error jscalar_error jkey_error

lemma frac_part_length: "length (snd (frac_part s)) \<le> length s"
  unfolding frac_part_def
  by (auto intro: order_trans [OF length_dropWhile_le])

lemma exp_part_length: "length (snd (exp_part s)) \<le> length s"
  unfolding exp_part_def Let_def
  by (auto intro: order_trans [OF length_dropWhile_le])

lemma jnumber_shorter:
  assumes "jnumber s = Some (v, r)"
  shows "length r < length s"
proof -
  define s1 where "s1 = (if s \<noteq> [] \<and> hd s = 45 then tl s else s)"
  define ds where "ds = (if s1 \<noteq> [] \<and> hd s1 = 48 then [48] else takeWhile is_digit s1)"
  define t where "t = (if s1 \<noteq> [] \<and> hd s1 = 48 then tl s1 else dropWhile is_digit s1)"
  have r: "r = snd (exp_part (snd (frac_part t)))" and ne: "ds \<noteq> []"
    using assms by (auto simp: jnumber_def Let_def s1_def ds_def t_def split: if_splits)
  have "length ds + length t = length s1"
    by (cases s1) (auto simp: ds_def t_def simp flip: length_append)
  moreover have "length s1 \<le> length s"
    by (simp add: s1_def)
  moreover have "length r \<le> length t"
    unfolding r using exp_part_length frac_part_length order_trans by blast
  moreover have "0 < length ds"
    using ne by simp
  ultimately show ?thesis by linarith
qed

lemma starts_with_length: "starts_with p s \<Longrightarrow> length p \<le> length s"
  by (metis starts_with_def length_take min.absorb_iff2 min.commute)

lemma jliteral_shorter:
  assumes "jliteral s = Some (v, r)"
  shows "length r < length s"
proof -
  have "length r < length s" if "p \<noteq> []" "starts_with p s" "r = drop (length p) s" for p
    using starts_with_length [OF that(2)] that by (cases s) auto
  then show ?thesis
    using assms unfolding jliteral_def
    by (auto split: if_splits simp: lit_def dest: jnumber_shorter starts_with_length)
qed

lemma jscalar_shorter: "jscalar s = Inr (v, r) \<Longrightarrow> length r < length s"
  by (auto simp: jscalar_def split: option.splits dest: jliteral_shorter)

lemma jparse_shorter:
  "jvalue n s = Inr (v, r) \<Longrightarrow> length r < length s"
  "jmembers n kvs s = Inr (v, r) \<Longrightarrow> length r < length s"
  "jelems n xs s = Inr (v, r) \<Longrightarrow> length r < length s"
proof (induction n s and n kvs s and n xs s arbitrary: v r and v r and v r
    rule: jvalue_jmembers_jelems.induct)
  case (2 n s)
  from "2.prems" have "s \<noteq> []" by auto
  then have len: "length (tl s) < length s" by simp
  from "2.prems" \<open>s \<noteq> []\<close> consider
      x where "jtext (tl s) = Inr (x, r)"
    | d where "next_tok (tl s) = Inr (d, r)"
    | d t where "hd s = 123" "next_tok (tl s) = Inr (d, t)" "d \<noteq> 125" "jmembers n [] (d # t) = Inr (v, r)"
    | d t where "hd s = 91" "next_tok (tl s) = Inr (d, t)" "d \<noteq> 93" "jelems n [] (d # t) = Inr (v, r)"
    | "jscalar s = Inr (v, r)"
    by (auto simp: rbind_eq_Inr split: if_splits prod.splits)
  then show ?case
  proof cases
    case 1
    from jtext_shorter [OF 1] len show ?thesis by linarith
  next
    case 2
    from next_tok_shorter [OF 2] len show ?thesis by linarith
  next
    case 3
    then have "length r < length (d # t)" using "2.IH"(1) \<open>s \<noteq> []\<close> by simp
    with next_tok_shorter [OF 3(2)] len show ?thesis by simp
  next
    case 4
    then have "length r < length (d # t)" using "2.IH"(2) \<open>s \<noteq> []\<close> by simp
    with next_tok_shorter [OF 4(2)] len show ?thesis by simp
  next
    case 5
    then show ?thesis by (rule jscalar_shorter)
  qed
next
  case (4 n acc s)
  from "4.prems" obtain k t w t1 e t2 where *:
    "jkey s = Inr (k, t)" "jvalue n t = Inr (w, t1)" "next_tok t1 = Inr (e, t2)" and
    rest: "e = 44 \<and> jmembers n (dict_set k w acc) (skip_ws t2) = Inr (v, r) \<or> t2 = r"
    by (auto simp: rbind_eq_Inr split: if_splits prod.splits)
  have "length r \<le> length t2"
    using rest "4.IH"(2) [OF *(1) refl *(2) refl *(3) refl] length_skip_ws [of t2] by fastforce
  then show ?case
    using jkey_shorter [OF *(1)] "4.IH"(1) [OF *(1) refl *(2)] next_tok_shorter [OF *(3)]
    by linarith
next
  case (6 n acc s)
  from "6.prems" obtain w t1 e t2 where *:
    "jvalue n s = Inr (w, t1)" "next_tok t1 = Inr (e, t2)" and
    rest: "e = 44 \<and> jelems n (acc @ [w]) (skip_ws t2) = Inr (v, r) \<or> t2 = r"
    by (auto simp: rbind_eq_Inr split: if_splits prod.splits)
  have "length r \<le> length t2"
    using rest "6.IH"(2) [OF *(1) refl *(2) refl] length_skip_ws [of t2] by fastforce
  then show ?case
    using "6.IH"(1) [OF *(1)] next_tok_shorter [OF *(2)] by linarith
qed simp_all

text \<open>With enough fuel the only failure is a syntax error.\<close>

lemma jparse_fuel:
  "2 * length s < n \<Longrightarrow> jvalue n s = Inl e \<Longrightarrow> e = JSONDecodeError"
  "2 * length s < n \<Longrightarrow> jmembers n kvs s = Inl e \<Longrightarrow> e = JSONDecodeError"
  "2 * length s + 1 < n \<Longrightarrow> jelems n xs s = Inl e \<Longrightarrow> e = JSONDecodeError"
proof (induction n s and n kvs s and n xs s rule: jvalue_jmembers_jelems.induct)
  case (2 n s)
  show ?case
  proof (cases "s = []")
    case True
    with "2.prems" show ?thesis by simp
  next
    case False
    then have len: "length (tl s) < length s" by simp
    from "2.prems"(2) False consider
        "jtext (tl s) = Inl e" | "next_tok (tl s) = Inl e" | "jscalar s = Inl e"
      | d t where "hd s = 123" "next_tok (tl s) = Inr (d, t)" "d \<noteq> 125" "jmembers n [] (d # t) = Inl e"
      | d t where "hd s = 91" "next_tok (tl s) = Inr (d, t)" "d \<noteq> 93" "jelems n [] (d # t) = Inl e"
      by (auto simp: rbind_eq_Inl split: if_splits prod.splits)
    then show ?thesis
    proof cases
      case 4
      with "2.prems"(1) len next_tok_shorter [OF 4(2)] "2.IH"(1) False show ?thesis by simp
    next
      case 5
      with "2.prems"(1) len next_tok_shorter [OF 5(2)] "2.IH"(2) False show ?thesis by simp
    qed (rule token_errors, assumption)+
  qed
next
  case (4 n acc s)
  from "4.prems"(2) consider
      "jkey s = Inl e"
    | k t where "jkey s = Inr (k, t)" "jvalue n t = Inl e"
    | k t w t1 where "jkey s = Inr (k, t)" "jvalue n t = Inr (w, t1)" "next_tok t1 = Inl e"
    | k t w t1 t2 where "jkey s = Inr (k, t)" "jvalue n t = Inr (w, t1)" "next_tok t1 = Inr (44, t2)"
        "jmembers n (dict_set k w acc) (skip_ws t2) = Inl e"
    | "e = JSONDecodeError"
    by (auto simp: rbind_eq_Inl split: if_splits prod.splits)
  then show ?case
  proof cases
    case 2
    with "4.prems"(1) jkey_shorter [OF 2(1)] "4.IH"(1) show ?thesis by simp
  next
    case 4
    have "length (skip_ws t2) < length s"
      using jkey_shorter [OF 4(1)] jparse_shorter(1) [OF 4(2)] next_tok_shorter [OF 4(3)]
        length_skip_ws [of t2] by linarith
    with "4.prems"(1) "4.IH"(2) [OF 4(1) refl 4(2) refl 4(3) refl refl] 4(4) show ?thesis by simp
  qed (simp_all add: token_errors)
next
  case (6 n acc s)
  from "6.prems"(2) consider
      "jvalue n s = Inl e"
    | w t1 where "jvalue n s = Inr (w, t1)" "next_tok t1 = Inl e"
    | w t1 t2 where "jvalue n s = Inr (w, t1)" "next_tok t1 = Inr (44, t2)"
        "jelems n (acc @ [w]) (skip_ws t2) = Inl e"
    | "e = JSONDecodeError"
    by (auto simp: rbind_eq_Inl split: if_splits prod.splits)
  then show ?case
  proof cases
    case 1
    with "6.prems"(1) "6.IH"(1) show ?thesis by simp
  next
    case 3
    have "length (skip_ws t2) < length s"
      using jparse_shorter(1) [OF 3(1)] next_tok_shorter [OF 3(2)] length_skip_ws [of t2]
      by linarith
    with "6.prems"(1) "6.IH"(2) [OF 3(1) refl 3(2) refl refl] 3(3) show ?thesis by simp
  qed (simp_all add: token_errors)
qed simp_all

theorem json_loads_fuel: "json_loads s = Inl e \<Longrightarrow> e = JSONDecodeError"
  using jparse_fuel(1) [of "skip_ws s" "2 * length s + 1" e] length_skip_ws [of s]
  by (auto simp: json_loads_def rbind_eq_Inl split: if_splits prod.splits)

section \<open>Reading back what was written\<close>

definition valid_char :: "nat \<Rightarrow> bool" where
  "valid_char c \<longleftrightarrow> c < 0x110000 \<and> \<not> is_surrogate c"

definition valid_str :: "pystr \<Rightarrow> bool" where
  "valid_str s \<longleftrightarrow> (\<forall>c\<in>set s. valid_char c)"

lemma valid_str_simps [simp]: "valid_str []" "valid_str (c # s) \<longleftrightarrow> valid_char c \<and> valid_str s"
  by (simp_all add: valid_str_def)

lemma ascii_valid_str: "ascii s \<Longrightarrow> valid_str s"
  by (auto simp: ascii_def valid_str_def valid_char_def is_surrogate_def)

lemma utf8_encode_valid: "valid_str s \<Longrightarrow> \<exists>bs. utf8_encode s = Inr bs"
proof (induction s)
  case (Cons c s)
  then have "enc_cp c \<noteq> Inl e" for e
    by (auto simp: enc_cp_valid valid_char_def)
  then obtain b where "enc_cp c = Inr b" by (cases "enc_cp c") auto
  with Cons show ?case by auto
qed simp

lemma hex4_hex4_str [simp]:
  assumes "n < 0x10000"
  shows "hex4 (hex4_str n @ r) = Some (n, r)"
proof -
  define ds where "ds = to_digits 16 4 n"
  have len: "length ds = 4" and lt: "\<forall>d\<in>set ds. d < 16"
    by (auto simp: ds_def set_to_digits)
  then obtain a b c d where ds: "ds = [a, b, c, d]"
    by (auto simp: numeral_eq_Suc length_Suc_conv)
  have "of_digits 16 ds = n"
    using assms by (simp add: ds_def of_digits_to_digits)
  with lt show ?thesis
    by (simp add: hex4_str_def flip: ds_def) (simp add: ds)
qed

lemma jstring_unicode:
  "n < 0x10000 \<Longrightarrow> \<not> (0xD800 \<le> n \<and> n \<le> 0xDBFF) \<Longrightarrow>
   jstring ([92, 117] @ hex4_str n @ t) = map_option (\<lambda>(s, u). (n # s, u)) (jstring t)"
  by (simp add: if_not_P)

lemma low_half_str:
  "0xDC00 \<le> m \<Longrightarrow> m \<le> 0xDFFF \<Longrightarrow> low_half ([92, 117] @ hex4_str m @ t) = Some (m, t)"
  by (simp add: low_half_def)

lemma jstring_pair:
  assumes "0xD800 \<le> n" "n \<le> 0xDBFF" "0xDC00 \<le> m" "m \<le> 0xDFFF"
  shows "jstring ([92, 117] @ hex4_str n @ [92, 117] @ hex4_str m @ t) =
    map_option (\<lambda>(s, u). ((0x10000 + (n - 0xD800) * 1024 + (m - 0xDC00)) # s, u)) (jstring t)"
  using assms low_half_str [of m t] by simp

lemma jstring_escape:
  assumes "valid_char c"
  shows "jstring (json_escape c @ t) = map_option (\<lambda>(s, u). (c # s, u)) (jstring t)"
proof -
  consider "c < 127" | "127 \<le> c" "c < 0x10000" | "0x10000 \<le> c" by linarith
  then show ?thesis
  proof cases
    case 1
    have ctl: "json_escape c = [92, 117] @ hex4_str c"
      if "c < 32" "c \<noteq> 8" "c \<noteq> 9" "c \<noteq> 10" "c \<noteq> 12" "c \<noteq> 13"
      using that by (simp add: json_escape_def)
    have "jstring (json_escape c @ t) = map_option (\<lambda>(s, u). (c # s, u)) (jstring t)"
      if "c < 32" "c \<noteq> 8" "c \<noteq> 9" "c \<noteq> 10" "c \<noteq> 12" "c \<noteq> 13"
      using that jstring_unicode [of c t] by (simp add: ctl del: jstring.simps)
    with 1 show ?thesis
      by (cases "c < 32") (auto simp: json_escape_def simple_escape_def)
  next
    case 2
    then have "json_escape c = [92, 117] @ hex4_str c" by (simp add: json_escape_def)
    with 2 assms jstring_unicode [of c t] show ?thesis
      by (auto simp: valid_char_def is_surrogate_def simp del: jstring.simps)
  next
    case 3
    define k where "k = c - 0x10000"
    have k: "c = 0x10000 + k" "k < 0x100000"
      using 3 assms by (auto simp: k_def valid_char_def)
    then have "k div 1024 < 1024" "k mod 1024 < 1024" by auto
    moreover have "0x10000 + (k div 1024) * 1024 + k mod 1024 = c"
      using k by simp
    moreover have "json_escape c = [92, 117] @ hex4_str (0xD800 + k div 1024) @
        [92, 117] @ hex4_str (0xDC00 + k mod 1024)"
      using 3 by (simp add: json_escape_def k_def)
    ultimately show ?thesis
      using jstring_pair [of "0xD800 + k div 1024" "0xDC00 + k mod 1024" t]
      by (simp del: jstring.simps)
  qed
qed

lemma jstring_quoted:
  "valid_str s \<Longrightarrow> jstring (concat (map json_escape s) @ 34 # r) = Some (s, r)"
  by (induction s) (simp_all add: jstring_escape)

lemma jtext_quoted [wire]:
  "valid_str s \<Longrightarrow> jtext (concat (map json_escape s) @ 34 # r) = Inr (s, r)"
  by (simp add: jtext_def jstring_quoted)

text \<open>Decimal integers.\<close>

lemma dec_digits_facts:
  "dec_digits n \<noteq> [] \<and> (\<forall>d\<in>set (dec_digits n). d < 10) \<and> of_digits 10 (dec_digits n) = n \<and>
   (0 < n \<longrightarrow> hd (dec_digits n) \<noteq> 0)"
proof (induction n rule: dec_digits.induct)
  case (1 n)
  show ?case
  proof (cases "n < 10")
    case True
    then show ?thesis by (subst (1 2 3 4) dec_digits.simps) (simp add: of_digits_def)
  next
    case False
    with "1" have IH: "dec_digits (n div 10) \<noteq> []" "\<forall>d\<in>set (dec_digits (n div 10)). d < 10"
      "of_digits 10 (dec_digits (n div 10)) = n div 10" "hd (dec_digits (n div 10)) \<noteq> 0"
      by auto
    have "dec_digits n = dec_digits (n div 10) @ [n mod 10]"
      using False by (subst dec_digits.simps) simp
    with IH show ?thesis by auto
  qed
qed

lemma dec_digits_0 [simp]: "dec_digits 0 = [0]"
  by (subst dec_digits.simps) simp

definition digit_str :: "nat \<Rightarrow> pystr" where
  "digit_str n = map (\<lambda>d. 48 + d) (dec_digits n)"

lemma digit_str_0 [simp]: "digit_str 0 = [48]"
  by (simp add: digit_str_def)

lemma digit_str_facts:
  "digit_str n \<noteq> []"
  "c \<in> set (digit_str n) \<Longrightarrow> is_digit c"
  "of_digits 10 (map (\<lambda>c. c - 48) (digit_str n)) = n"
  "0 < n \<Longrightarrow> hd (digit_str n) \<noteq> 48"
  using dec_digits_facts [of n]
  by (auto simp: digit_str_def is_digit_def comp_def hd_map)

lemma hd_digit_str: "is_digit (hd (digit_str n))"
  by (rule digit_str_facts(2) [of _ n]) (simp add: digit_str_facts(1))

lemma int_str_alt: "int_str i = (if i < 0 then [45] else []) @ digit_str (nat \<bar>i\<bar>)"
  by (simp add: int_str_def digit_str_def)

text \<open>What may follow a number without being read as part of it.\<close>

definition num_end :: "pystr \<Rightarrow> bool" where
  "num_end r \<longleftrightarrow> r = [] \<or> \<not> is_digit (hd r) \<and> hd r \<noteq> 46 \<and> hd r \<noteq> 101 \<and> hd r \<noteq> 69"

lemma num_end_parts: "num_end r \<Longrightarrow> frac_part r = ([], r)" "num_end r \<Longrightarrow> exp_part r = ([], r)"
  by (cases r; simp add: num_end_def frac_part_def exp_part_def)+

lemma span_digits:
  assumes "\<forall>c\<in>set ds. is_digit c" "num_end r"
  shows "takeWhile is_digit (ds @ r) = ds" "dropWhile is_digit (ds @ r) = r"
  using assms by (cases r; auto simp: num_end_def takeWhile_append dropWhile_append)+

lemma jnumber_digits:
  assumes "num_end r"
  shows "jnumber (digit_str n @ r) = Some (JInt (int n), r)"
    and "jnumber (45 # digit_str n @ r) = Some (JInt (- int n), r)"
proof -
  let ?d = "digit_str n"
  have ne: "?d \<noteq> []" and dig: "\<forall>c\<in>set ?d. is_digit c"
    using digit_str_facts by auto
  then have h45: "hd (?d @ r) \<noteq> 45" and h: "hd (?d @ r) = hd ?d"
    by (cases ?d; auto simp: is_digit_def)+
  have "jnumber (?d @ r) = Some (JInt (int n), r) \<and>
      jnumber (45 # ?d @ r) = Some (JInt (- int n), r)"
  proof (cases "n = 0")
    case True
    with num_end_parts [OF assms] show ?thesis
      by (simp add: jnumber_def Let_def of_digits_def)
  next
    case False
    then have "hd ?d \<noteq> 48" using digit_str_facts(4) by simp
    with ne h45 h span_digits [OF dig assms] num_end_parts [OF assms] digit_str_facts(3) [of n]
    show ?thesis by (simp add: jnumber_def Let_def)
  qed
  then show "jnumber (?d @ r) = Some (JInt (int n), r)"
    and "jnumber (45 # ?d @ r) = Some (JInt (- int n), r)"
    by simp_all
qed

lemma jliteral_number:
  assumes "s \<noteq> []" "is_digit (hd s) \<or> hd s = 45 \<and> (tl s = [] \<or> hd (tl s) \<noteq> 73)"
  shows "jliteral s = jnumber s"
proof -
  obtain c t where s: "s = c # t" using assms(1) by (cases s) auto
  have "\<not> starts_with (lit ''Infinity'') t" if "c = 45"
    using assms(2) that s by (cases t) (auto simp: is_digit_def)
  with assms(2) s show ?thesis
    by (auto simp: jliteral_def is_digit_def)
qed

lemma jscalar_int [wire]: "num_end r \<Longrightarrow> jscalar (int_str i @ r) = Inr (JInt i, r)"
proof -
  assume r: "num_end r"
  let ?d = "digit_str (nat \<bar>i\<bar>)"
  have "?d \<noteq> []" "is_digit (hd ?d)"
    using hd_digit_str digit_str_facts(1) by auto
  then have "jliteral (int_str i @ r) = jnumber (int_str i @ r)"
    by (intro jliteral_number) (auto simp: int_str_alt is_digit_def hd_append)
  then show ?thesis
    using jnumber_digits [OF r, of "nat \<bar>i\<bar>"] by (auto simp: jscalar_def int_str_alt)
qed

text \<open>Scalars, and the flat objects the messages consist of.\<close>

fun flat_scalar :: "json \<Rightarrow> bool" where
  "flat_scalar JNull = True"
| "flat_scalar (JBool _) = True"
| "flat_scalar (JInt _) = True"
| "flat_scalar (JStr s) = valid_str s"
| "flat_scalar _ = False"

lemma int_str_hd: "int_str i \<noteq> [] \<and> (is_digit (hd (int_str i)) \<or> hd (int_str i) = 45)"
  using hd_digit_str [of "nat \<bar>i\<bar>"] digit_str_facts(1) [of "nat \<bar>i\<bar>"]
  by (auto simp: int_str_alt)

lemma jvalue_scalar [wire]:
  assumes "flat_scalar v" "num_end r"
  shows "jvalue (Suc n) (json_dumps v @ r) = Inr (v, r)"
proof (cases v)
  case (JInt i)
  have "hd (int_str i @ r) = hd (int_str i)" using int_str_hd [of i] by simp
  with int_str_hd [of i] jscalar_int [OF assms(2), of i] JInt show ?thesis
    by (auto simp: is_digit_def)
next
  case (JStr s)
  with assms show ?thesis by (simp add: json_quote_def jtext_quoted)
next
  case (JBool b)
  then show ?thesis by (simp add: jscalar_def jliteral_def)
next
  case JNull
  then show ?thesis by (simp add: jscalar_def jliteral_def)
qed (use assms in simp_all)

definition flat_entry :: "pystr \<times> json \<Rightarrow> bool" where
  "flat_entry kv \<longleftrightarrow> valid_str (fst kv) \<and> flat_scalar (snd kv)"

definition json_entry :: "pystr \<times> json \<Rightarrow> pystr" where
  "json_entry kv = json_quote (fst kv) @ lit '': '' @ json_dumps (snd kv)"

lemma json_dumps_dict:
  "json_dumps (JDict kvs) = [123] @ intersperse_str (lit '', '') (map json_entry kvs) @ [125]"
  by (simp add: json_entry_def [abs_def])

lemma skip_ws_id: "s = [] \<or> \<not> is_ws (hd s) \<Longrightarrow> skip_ws s = s"
  by (cases s) (auto simp: skip_ws_def)

lemma skip_ws_space [simp]: "skip_ws (32 # s) = skip_ws s"
  by (simp add: skip_ws_def is_ws_def)

lemma scalar_no_ws: "flat_scalar v \<Longrightarrow> json_dumps v \<noteq> [] \<and> \<not> is_ws (hd (json_dumps v))"
proof (cases v)
  case (JInt i)
  then show ?thesis using int_str_hd [of i] by (auto simp: is_ws_def is_digit_def)
qed (auto simp: is_ws_def json_quote_def)

lemma skip_ws_scalar: "flat_scalar v \<Longrightarrow> skip_ws (json_dumps v @ r) = json_dumps v @ r"
  using scalar_no_ws [of v] by (intro skip_ws_id) simp

lemma next_tok_Cons: "\<not> is_ws c \<Longrightarrow> next_tok (c # r) = Inr (c, r)"
  by (simp add: next_tok_def skip_ws_id)

lemma jkey_entry:
  "flat_entry kv \<Longrightarrow> jkey (json_entry kv @ r) = Inr (fst kv, json_dumps (snd kv) @ r)"
  by (simp add: flat_entry_def json_entry_def jkey_def json_quote_def jtext_quoted next_tok_Cons
      is_ws_def skip_ws_scalar)

lemma json_entry_no_ws: "skip_ws (json_entry kv @ r) = json_entry kv @ r"
  by (rule skip_ws_id) (simp add: json_entry_def json_quote_def is_ws_def)

lemma json_entry_hd: "\<exists>t. json_entry kv @ r = 34 # t"
  by (simp add: json_entry_def json_quote_def)

lemma num_end_sep [simp]: "num_end (44 # r)" "num_end (125 # r)"
  by (simp_all add: num_end_def is_digit_def)

lemma jmembers_entries:
  "\<forall>kv\<in>set (kv # kvs). flat_entry kv \<Longrightarrow> length kvs < n \<Longrightarrow>
   jmembers (Suc n) acc (intersperse_str (lit '', '') (map json_entry (kv # kvs)) @ 125 # r) =
     Inr (JDict (foldl (\<lambda>d (k, v). dict_set k v d) acc (kv # kvs)), r)"
proof (induction kvs arbitrary: kv acc n)
  case Nil
  then obtain m where "n = Suc m" by (cases n) auto
  with Nil show ?case
    by (cases kv)
       (simp add: jkey_entry jvalue_scalar flat_entry_def next_tok_Cons is_ws_def del: jvalue.simps)
next
  case (Cons kv' kvs)
  then obtain m where m: "n = Suc m" "length kvs < m" by (cases n) auto
  have "skip_ws (intersperse_str (lit '', '') (map json_entry (kv' # kvs)) @ 125 # r) =
      intersperse_str (lit '', '') (map json_entry (kv' # kvs)) @ 125 # r"
    by (cases kvs) (simp_all add: json_entry_no_ws)
  with Cons m show ?case
    by (cases kv)
       (simp add: jkey_entry jvalue_scalar flat_entry_def next_tok_Cons is_ws_def del: jvalue.simps)
qed

lemma foldl_dict_set:
  "distinct (map fst (acc @ kvs)) \<Longrightarrow> foldl (\<lambda>d (k, v). dict_set k v d) acc kvs = acc @ kvs"
proof (induction kvs arbitrary: acc)
  case (Cons kv kvs)
  obtain k v where kv: "kv = (k, v)" by (cases kv)
  have "k \<notin> fst ` set d \<Longrightarrow> dict_set k v d = d @ [(k, v)]" for d :: "('a \<times> 'b) list"
    by (induction d) auto
  then have "dict_set k v acc = acc @ [kv]"
    using Cons.prems kv by auto
  with Cons.IH [of "acc @ [kv]"] Cons.prems kv show ?case by simp
qed simp

lemma length_entries: "2 * length kvs \<le> length (intersperse_str sep (map json_entry kvs))"
proof (induction kvs rule: induct_list012)
  case (2 kv)
  then show ?case by (simp add: json_entry_def json_quote_def)
next
  case (3 kv kv' kvs)
  have "2 \<le> length (json_entry kv)"
    by (simp add: json_entry_def json_quote_def)
  with "3.IH" show ?case by simp
qed simp

theorem json_loads_dumps [wire]:
  assumes "\<forall>kv\<in>set kvs. flat_entry kv" and "distinct (map fst kvs)"
  shows "json_loads (json_dumps (JDict kvs)) = Inr (JDict kvs)"
proof (cases kvs)
  case Nil
  have "jvalue (Suc m) [123, 125] = Inr (JDict [], [])" for m
    by (simp add: next_tok_Cons is_ws_def)
  from this [of 4] Nil show ?thesis
    by (simp add: json_loads_def skip_ws_id is_ws_def del: jvalue.simps)
next
  case (Cons kv rest)
  let ?b = "intersperse_str (lit '', '') (map json_entry kvs) @ [125]"
  define n where "n = 2 * length (json_dumps (JDict kvs)) - 1"
  have fuel: "2 * length (json_dumps (JDict kvs)) + 1 = Suc (Suc n)" "length rest < n"
    using length_entries [of kvs "lit '', ''"] Cons
    by (simp_all add: n_def json_dumps_dict del: json_dumps.simps)
  have "jmembers (Suc n) [] ?b = Inr (JDict kvs, [])"
    using jmembers_entries [of kv rest n "[]" "[]"] assms Cons fuel foldl_dict_set [of "[]" kvs]
    by simp
  moreover obtain t where t: "?b = 34 # t"
    using json_entry_hd Cons by (cases rest) (fastforce simp: json_entry_def json_quote_def)+
  ultimately show ?thesis
    unfolding json_loads_def fuel(1)
    by (simp add: json_dumps_dict skip_ws_id is_ws_def next_tok_Cons
        del: json_dumps.simps jmembers.simps)
qed

definition flat_dict :: "json \<Rightarrow> bool" where
  "flat_dict v \<longleftrightarrow>
     (\<exists>kvs. v = JDict kvs \<and> (\<forall>kv\<in>set kvs. flat_entry kv) \<and> distinct (map fst kvs))"

interpretation json: wire_format "\<lambda>v. Inr (json_dumps v)" json_loads flat_dict "\<lambda>v. v"
  by unfold_locales (auto simp: flat_dict_def json_loads_dumps simp del: json_dumps.simps)

text \<open>The output is ASCII, whatever the strings in it are.\<close>

lemma ascii_append [simp]: "ascii (a @ b) \<longleftrightarrow> ascii a \<and> ascii b"
  by (auto simp: ascii_def)

lemma ascii_hex4_str [simp]: "ascii (hex4_str n)"
  by (auto simp: ascii_def hex4_str_def hex_char_ascii dest: set_to_digits [rotated])

lemma ascii_json_quote [simp]: "ascii (json_quote s)"
proof -
  have "ascii (json_escape c)" for c
    by (simp add: json_escape_def)
  then have "ascii (concat (map json_escape s))"
    by (induction s) auto
  then show ?thesis by (simp add: json_quote_def)
qed

lemma ascii_int_str [simp]: "ascii (int_str i)"
  using digit_str_facts(2) [of _ "nat \<bar>i\<bar>"]
  by (auto simp: int_str_alt ascii_def is_digit_def) fastforce+

lemma ascii_intersperse: "ascii sep \<Longrightarrow> \<forall>x\<in>set xs. ascii x \<Longrightarrow> ascii (intersperse_str sep xs)"
  by (induction sep xs rule: intersperse_str.induct) auto

lemma ascii_json_dumps:
  assumes "\<forall>kv\<in>set kvs. flat_entry kv"
  shows "ascii (json_dumps (JDict kvs))"
proof -
  have "ascii (json_dumps v)" if "flat_scalar v" for v
    using that by (cases v) auto
  with assms have "\<forall>x\<in>set (map json_entry kvs). ascii x"
    by (auto simp: json_entry_def flat_entry_def)
  then show ?thesis
    unfolding json_dumps_dict by (simp add: ascii_intersperse)
qed

end
