(* ===== verification/Message.thy ===== *)
theory Message
  imports Json
begin

text \<open>
  The wire protocol (\<^verbatim>\<open>pywssocks/message.py\<close>): the message classes as one datatype, the binary
  enumerations, and \<open>pack_message\<close> and \<open>parse_message\<close> with every length check, in the order the
  code makes them. A \<open>str\<close> field is a list of code points, so a length byte is written from the
  number of characters while the field itself is written as UTF-8, as the code does.

  gzip is not modelled: compression and decompression are the parameters \<open>gz\<close> and \<open>gunzip\<close>, and the
  facts that need it assume that \<open>gunzip\<close> undoes \<open>gz\<close> on the data at hand (\<open>gzip_ok\<close>).
\<close>

section \<open>Constants and enumerations\<close>

definition PROTOCOL_VERSION :: int where
  "PROTOCOL_VERSION = 0x01"

datatype binary_type =
    AUTH | AUTH_RESPONSE | CONNECT | DATA | CONNECT_RESPONSE | DISCONNECT | CONNECTOR
  | CONNECTOR_RESPONSE | LOG | PARTNERS

fun binary_type_code :: "binary_type \<Rightarrow> int" where
  "binary_type_code AUTH = 0x01"
| "binary_type_code AUTH_RESPONSE = 0x02"
| "binary_type_code CONNECT = 0x03"
| "binary_type_code DATA = 0x04"
| "binary_type_code CONNECT_RESPONSE = 0x05"
| "binary_type_code DISCONNECT = 0x06"
| "binary_type_code CONNECTOR = 0x07"
| "binary_type_code CONNECTOR_RESPONSE = 0x08"
| "binary_type_code LOG = 0x09"
| "binary_type_code PARTNERS = 0x0A"

datatype binary_protocol = TCP | UDP

fun binary_protocol_code :: "binary_protocol \<Rightarrow> int" where
  "binary_protocol_code TCP = 0x01"
| "binary_protocol_code UDP = 0x02"

datatype binary_connector_operation = ADD | REMOVE

fun binary_connector_operation_code :: "binary_connector_operation \<Rightarrow> int" where
  "binary_connector_operation_code ADD = 0x01"
| "binary_connector_operation_code REMOVE = 0x02"

definition DATA_COMPRESSION_NONE :: int where
  "DATA_COMPRESSION_NONE = 0x00"

definition DATA_COMPRESSION_GZIP :: int where
  "DATA_COMPRESSION_GZIP = 0x01"

section \<open>Messages\<close>

datatype message =
    AuthMessage (msg_token: pystr) (msg_reverse: bool) (msg_instance: uuid)
  | AuthResponseMessage (msg_success: bool) (msg_error: "pystr option")
  | ConnectMessage (msg_protocol: pystr) (msg_channel_id: uuid) (msg_address: "pystr option")
      (msg_port: "int option")
  | ConnectResponseMessage (msg_success: bool) (msg_channel_id: uuid) (msg_error: "pystr option")
  | DataMessage (msg_protocol: pystr) (msg_channel_id: uuid) (msg_data: bytes)
      (msg_compression: int) (msg_address: "pystr option") (msg_port: "int option")
      (msg_target_addr: "pystr option") (msg_target_port: "int option")
  | DisconnectMessage (msg_channel_id: uuid) (msg_error: "pystr option")
  | ConnectorMessage (msg_channel_id: uuid) (msg_connector_token: pystr) (msg_operation: pystr)
  | ConnectorResponseMessage (msg_success: bool) (msg_channel_id: uuid)
      (msg_error: "pystr option") (msg_new_token: "pystr option")
  | LogMessage (msg_level: json) (msg_text: json)
  | PartnersMessage (msg_count: json)

fun get_type :: "message \<Rightarrow> pystr" where
  "get_type (AuthMessage _ _ _) = lit ''auth''"
| "get_type (AuthResponseMessage _ _) = lit ''auth_response''"
| "get_type (ConnectMessage _ _ _ _) = lit ''connect''"
| "get_type (ConnectResponseMessage _ _ _) = lit ''connect_response''"
| "get_type (DataMessage _ _ _ _ _ _ _ _) = lit ''data''"
| "get_type (DisconnectMessage _ _) = lit ''disconnect''"
| "get_type (ConnectorMessage _ _ _) = lit ''connector''"
| "get_type (ConnectorResponseMessage _ _ _ _) = lit ''connector_response''"
| "get_type (LogMessage _ _) = lit ''log''"
| "get_type (PartnersMessage _) = lit ''partners''"

definition protocol_to_bytes :: "pystr \<Rightarrow> int" where
  "protocol_to_bytes protocol =
     (if protocol = lit ''tcp'' then binary_protocol_code TCP
      else if protocol = lit ''udp'' then binary_protocol_code UDP else 0)"

definition bytes_to_protocol :: "int \<Rightarrow> pystr" where
  "bytes_to_protocol b =
     (if b = binary_protocol_code TCP then lit ''tcp''
      else if b = binary_protocol_code UDP then lit ''udp'' else lit '''')"

definition operation_to_bytes :: "pystr \<Rightarrow> int" where
  "operation_to_bytes operation =
     (if operation = lit ''add'' then binary_connector_operation_code ADD
      else if operation = lit ''remove'' then binary_connector_operation_code REMOVE else 0)"

definition bytes_to_operation :: "int \<Rightarrow> pystr" where
  "bytes_to_operation b =
     (if b = binary_connector_operation_code ADD then lit ''add''
      else if b = binary_connector_operation_code REMOVE then lit ''remove'' else lit '''')"

section \<open>Packing\<close>

text \<open>
  The truth value of an optional string: \<^verbatim>\<open>None\<close> and the empty string are false. A text field is
  a length byte, the number of characters of the string, and then its UTF-8 encoding.
\<close>

fun truthy :: "pystr option \<Rightarrow> bool" where
  "truthy None = False"
| "truthy (Some s) = (s \<noteq> [])"

definition put_text :: "pystr \<Rightarrow> bytes res" where
  "put_text s =
     rbind (append_byte (int (length s))) (\<lambda>l. rbind (utf8_encode s) (\<lambda>b. Inr (l @ b)))"

definition put_bool :: "bool \<Rightarrow> bytes res" where
  "put_bool b = append_byte (if b then 1 else 0)"

fun put_opt_text :: "pystr option \<Rightarrow> bytes res" where
  "put_opt_text (Some s) = put_text s"
| "put_opt_text None = Inr []"

text \<open>An optional address and port of a UDP data message: absent ones are sent as zeros.\<close>

fun put_endpoint :: "pystr option \<Rightarrow> int option \<Rightarrow> bytes res" where
  "put_endpoint addr port =
     concat_res
       [if truthy addr then put_opt_text addr else append_byte 0,
        struct_pack 2 (case port of Some p \<Rightarrow> p | None \<Rightarrow> 0)]"

definition put_json :: "json \<Rightarrow> bytes res" where
  "put_json v =
     rbind (utf8_encode (json_dumps v)) (\<lambda>json_data.
       concat_res [struct_pack 4 (int (length json_data)), Inr json_data])"

definition header :: "binary_type \<Rightarrow> bytes res" where
  "header t = concat_res [append_byte PROTOCOL_VERSION, append_byte (binary_type_code t)]"

definition pack_auth :: "pystr \<Rightarrow> bool \<Rightarrow> uuid \<Rightarrow> bytes res" where
  "pack_auth token reverse inst =
     concat_res [header AUTH, put_text token, put_bool reverse, Inr (uuid_bytes inst)]"

definition pack_auth_response :: "bool \<Rightarrow> pystr option \<Rightarrow> bytes res" where
  "pack_auth_response success error =
     concat_res
       [header AUTH_RESPONSE, put_bool success,
        if \<not> success \<and> truthy error then put_opt_text error else Inr []]"

definition pack_connect :: "pystr \<Rightarrow> uuid \<Rightarrow> pystr option \<Rightarrow> int option \<Rightarrow> bytes res" where
  "pack_connect protocol channel_id address port =
     concat_res
       [header CONNECT, append_byte (protocol_to_bytes protocol), Inr (uuid_bytes channel_id),
        if protocol = lit ''tcp'' then
          (case (address, port) of
             (Some a, Some p) \<Rightarrow> concat_res [put_text a, struct_pack 2 p]
           | _ \<Rightarrow> value_error ''TCP connect message requires address and port'')
        else Inr []]"

definition pack_connect_response :: "bool \<Rightarrow> uuid \<Rightarrow> pystr option \<Rightarrow> bytes res" where
  "pack_connect_response success channel_id error =
     concat_res
       [header CONNECT_RESPONSE, put_bool success, Inr (uuid_bytes channel_id),
        if \<not> success \<and> error \<noteq> None then put_opt_text error else Inr []]"

definition pack_data ::
    "(bytes \<Rightarrow> bytes) \<Rightarrow> pystr \<Rightarrow> uuid \<Rightarrow> bytes \<Rightarrow> int \<Rightarrow> pystr option \<Rightarrow> int option \<Rightarrow>
     pystr option \<Rightarrow> int option \<Rightarrow> bytes res" where
  "pack_data gz protocol channel_id data compression address port target_addr target_port =
     (let compressed_data = (if compression = DATA_COMPRESSION_GZIP then gz data else data) in
      concat_res
        [header DATA, append_byte (protocol_to_bytes protocol), Inr (uuid_bytes channel_id),
         append_byte compression, struct_pack 4 (int (length compressed_data)),
         Inr compressed_data,
         if protocol = lit ''udp''
         then concat_res [put_endpoint address port, put_endpoint target_addr target_port]
         else Inr []])"

definition pack_disconnect :: "uuid \<Rightarrow> pystr option \<Rightarrow> bytes res" where
  "pack_disconnect channel_id error =
     concat_res
       [header DISCONNECT, Inr (uuid_bytes channel_id),
        if truthy error then put_opt_text error else Inr []]"

definition pack_connector :: "uuid \<Rightarrow> pystr \<Rightarrow> pystr \<Rightarrow> bytes res" where
  "pack_connector channel_id connector_token operation =
     concat_res
       [header CONNECTOR, Inr (uuid_bytes channel_id), put_text connector_token,
        append_byte (operation_to_bytes operation)]"

definition pack_connector_response ::
    "bool \<Rightarrow> uuid \<Rightarrow> pystr option \<Rightarrow> pystr option \<Rightarrow> bytes res" where
  "pack_connector_response success channel_id error connector_token =
     concat_res
       [header CONNECTOR_RESPONSE, Inr (uuid_bytes channel_id), put_bool success,
        if \<not> success \<and> truthy error then put_opt_text error
        else if success \<and> truthy connector_token then put_opt_text connector_token
        else Inr []]"

definition pack_log :: "json \<Rightarrow> json \<Rightarrow> bytes res" where
  "pack_log level text =
     concat_res [header LOG, put_json (JDict [(lit ''level'', level), (lit ''msg'', text)])]"

definition pack_partners :: "json \<Rightarrow> bytes res" where
  "pack_partners count = concat_res [header PARTNERS, put_json (JDict [(lit ''count'', count)])]"

fun pack_message :: "(bytes \<Rightarrow> bytes) \<Rightarrow> message \<Rightarrow> bytes res" where
  "pack_message gz (AuthMessage token reverse inst) = pack_auth token reverse inst"
| "pack_message gz (AuthResponseMessage success error) = pack_auth_response success error"
| "pack_message gz (ConnectMessage protocol channel_id address port) =
     pack_connect protocol channel_id address port"
| "pack_message gz (ConnectResponseMessage success channel_id error) =
     pack_connect_response success channel_id error"
| "pack_message gz (DataMessage protocol channel_id data compression address port target_addr
      target_port) =
     pack_data gz protocol channel_id data compression address port target_addr target_port"
| "pack_message gz (DisconnectMessage channel_id error) = pack_disconnect channel_id error"
| "pack_message gz (ConnectorMessage channel_id connector_token operation) =
     pack_connector channel_id connector_token operation"
| "pack_message gz (ConnectorResponseMessage success channel_id error connector_token) =
     pack_connector_response success channel_id error connector_token"
| "pack_message gz (LogMessage level text) = pack_log level text"
| "pack_message gz (PartnersMessage count) = pack_partners count"

section \<open>Parsing\<close>

definition byte_at :: "bytes \<Rightarrow> nat \<Rightarrow> nat res" where
  "byte_at p i = rbind (index_res p i) (\<lambda>b. Inr (unat b))"

definition parse_auth :: "bytes \<Rightarrow> message res" where
  "parse_auth payload =
     (if length payload < 1 then value_error ''Invalid auth message''
      else rbind (byte_at payload 0) (\<lambda>token_len.
        if length payload < 1 + token_len + 1 + 16
        then value_error ''Invalid auth message length''
        else rbind (utf8_decode (slice 1 (1 + token_len) payload)) (\<lambda>token.
          rbind (byte_at payload (1 + token_len)) (\<lambda>reverse.
          rbind (uuid_of_bytes (slice (1 + token_len + 1) (1 + token_len + 1 + 16) payload)) (\<lambda>inst.
            Inr (AuthMessage token (reverse \<noteq> 0) inst))))))"

definition parse_auth_response :: "bytes \<Rightarrow> message res" where
  "parse_auth_response payload =
     (if length payload < 1 then value_error ''Invalid auth response message''
      else rbind (byte_at payload 0) (\<lambda>success.
        if success = 0 \<and> length payload > 1 then
          rbind (byte_at payload 1) (\<lambda>error_len.
            if length payload < 2 + error_len
            then value_error ''Invalid auth response error length''
            else rbind (utf8_decode (slice 2 (2 + error_len) payload)) (\<lambda>error.
              Inr (AuthResponseMessage False (Some error))))
        else Inr (AuthResponseMessage (success \<noteq> 0) None)))"

definition parse_connect :: "bytes \<Rightarrow> message res" where
  "parse_connect payload =
     (if length payload < 17 then value_error ''Invalid connect message''
      else rbind (byte_at payload 0) (\<lambda>pb.
        let protocol = bytes_to_protocol (int pb) in
        rbind (uuid_of_bytes (slice 1 17 payload)) (\<lambda>channel_id.
          if protocol = lit ''tcp'' then
            (let payload = drop 17 payload in
             if length payload < 1 then value_error ''Invalid tcp connect message''
             else rbind (byte_at payload 0) (\<lambda>addr_len.
               if length payload < 1 + addr_len + 2
               then value_error ''Invalid tcp connect message length''
               else rbind (utf8_decode (slice 1 (1 + addr_len) payload)) (\<lambda>address.
                 rbind (struct_unpack 2 (slice (1 + addr_len) (1 + addr_len + 2) payload)) (\<lambda>port.
                   Inr (ConnectMessage protocol channel_id (Some address) (Some port))))))
          else Inr (ConnectMessage protocol channel_id None None))))"

definition parse_connect_response :: "bytes \<Rightarrow> message res" where
  "parse_connect_response payload =
     (if length payload < 17 then value_error ''Invalid connect response message''
      else rbind (byte_at payload 0) (\<lambda>success.
        rbind (uuid_of_bytes (slice 1 17 payload)) (\<lambda>channel_id.
          if success = 0 then
            (if length payload < 18 then value_error ''Invalid connect response error length''
             else rbind (byte_at payload 17) (\<lambda>error_len.
               if length payload < 18 + error_len
               then value_error ''Invalid connect response message length''
               else rbind (utf8_decode (slice 18 (18 + error_len) payload)) (\<lambda>error.
                 Inr (ConnectResponseMessage False channel_id (Some error)))))
          else Inr (ConnectResponseMessage True channel_id None))))"

definition parse_data :: "(bytes \<Rightarrow> bytes res) \<Rightarrow> bytes \<Rightarrow> message res" where
  "parse_data gunzip payload =
     (if length payload < 22 then value_error ''Invalid data message''
      else rbind (byte_at payload 0) (\<lambda>pb.
        let protocol = bytes_to_protocol (int pb) in
        rbind (uuid_of_bytes (slice 1 17 payload)) (\<lambda>channel_id.
        rbind (byte_at payload 17) (\<lambda>compression.
        rbind (struct_unpack 4 (slice 18 22 payload)) (\<lambda>dl.
        let data_len = nat dl in
        if length payload < 22 + data_len then value_error ''Invalid data message length''
        else
          let raw_data = slice 22 (22 + data_len) payload in
          rbind (if int compression = DATA_COMPRESSION_GZIP then gunzip raw_data else Inr raw_data)
            (\<lambda>decompressed_data.
          if protocol = lit ''udp'' then
            (let payload = drop (22 + data_len) payload in
             if length payload < 1 then value_error ''Invalid udp data message''
             else rbind (byte_at payload 0) (\<lambda>addr_len.
               if length payload < 1 + addr_len + 2 + 1
               then value_error ''Invalid udp data message length''
               else rbind (utf8_decode (slice 1 (1 + addr_len) payload)) (\<lambda>address.
                 rbind (struct_unpack 2 (slice (1 + addr_len) (1 + addr_len + 2) payload)) (\<lambda>port.
                 let payload = drop (1 + addr_len + 2) payload in
                 rbind (byte_at payload 0) (\<lambda>target_addr_len.
                 if length payload < 1 + target_addr_len + 2
                 then value_error ''Invalid udp data message target address''
                 else rbind (utf8_decode (slice 1 (1 + target_addr_len) payload)) (\<lambda>target_addr.
                   rbind (struct_unpack 2
                       (slice (1 + target_addr_len) (1 + target_addr_len + 2) payload)) (\<lambda>target_port.
                   Inr (DataMessage protocol channel_id decompressed_data (int compression)
                     (Some address) (Some port) (Some target_addr) (Some target_port)))))))))
          else
            Inr (DataMessage protocol channel_id decompressed_data (int compression)
              None None None None)))))))"

definition parse_disconnect :: "bytes \<Rightarrow> message res" where
  "parse_disconnect payload =
     (if length payload < 16 then value_error ''Invalid disconnect message''
      else rbind (uuid_of_bytes (take 16 payload)) (\<lambda>channel_id.
        if length payload > 16 then
          rbind (byte_at payload 16) (\<lambda>err_len.
            if length payload < 17 + err_len
            then value_error ''Invalid disconnect message error length''
            else if err_len > 0 then
              rbind (utf8_decode (slice 17 (17 + err_len) payload)) (\<lambda>error.
                Inr (DisconnectMessage channel_id (Some error)))
            else Inr (DisconnectMessage channel_id None))
        else Inr (DisconnectMessage channel_id None)))"

definition parse_connector :: "bytes \<Rightarrow> message res" where
  "parse_connector payload =
     (if length payload < 16 then value_error ''Invalid connector message''
      else rbind (uuid_of_bytes (take 16 payload)) (\<lambda>channel_id.
        let payload = drop 16 payload in
        if length payload < 1 then value_error ''Invalid connector message length''
        else rbind (byte_at payload 0) (\<lambda>token_len.
          if length payload < 1 + token_len + 1
          then value_error ''Invalid connector message length''
          else rbind (utf8_decode (slice 1 (1 + token_len) payload)) (\<lambda>token.
            rbind (byte_at payload (1 + token_len)) (\<lambda>op.
              let operation = bytes_to_operation (int op) in
              if operation = [] then value_error ''Invalid operation type''
              else Inr (ConnectorMessage channel_id token operation))))))"

definition parse_connector_response :: "bytes \<Rightarrow> message res" where
  "parse_connector_response payload =
     (if length payload < 17 then value_error ''Invalid connector response message''
      else rbind (uuid_of_bytes (take 16 payload)) (\<lambda>channel_id.
        rbind (byte_at payload 16) (\<lambda>success.
          if success = 0 then
            (if length payload < 18 then value_error ''Invalid connector response error length''
             else rbind (byte_at payload 17) (\<lambda>error_len.
               if length payload < 18 + error_len
               then value_error ''Invalid connector response message length''
               else rbind (utf8_decode (slice 18 (18 + error_len) payload)) (\<lambda>error.
                 Inr (ConnectorResponseMessage False channel_id (Some error) None))))
          else if length payload > 17 then
            rbind (byte_at payload 17) (\<lambda>token_len.
              if length payload < 18 + token_len
              then value_error ''Invalid connector response token length''
              else rbind (utf8_decode (slice 18 (18 + token_len) payload)) (\<lambda>connector_token.
                Inr (ConnectorResponseMessage True channel_id None (Some connector_token))))
          else Inr (ConnectorResponseMessage True channel_id None None))))"

text \<open>\<^verbatim>\<open>parsed.get(key, default)\<close>: only a \<open>dict\<close> has the method.\<close>

fun json_get :: "json \<Rightarrow> pystr \<Rightarrow> json \<Rightarrow> json res" where
  "json_get (JDict kvs) key def = Inr (case dict_get kvs key of Some v \<Rightarrow> v | None \<Rightarrow> def)"
| "json_get _ key def = Inl AttributeError"

text \<open>The length-prefixed JSON body the last two message types share.\<close>

definition parse_json_body :: "string \<Rightarrow> string \<Rightarrow> bytes \<Rightarrow> json res" where
  "parse_json_body short_error length_error payload =
     (if length payload < 4 then value_error short_error
      else rbind (struct_unpack 4 (take 4 payload)) (\<lambda>dl.
        let data_len = nat dl in
        if length payload < 4 + data_len then value_error length_error
        else rbind (utf8_decode (slice 4 (4 + data_len) payload)) json_loads))"

definition parse_log :: "bytes \<Rightarrow> message res" where
  "parse_log payload =
     rbind (parse_json_body ''Invalid log message'' ''Invalid log message length'' payload) (\<lambda>parsed.
       rbind (json_get parsed (lit ''level'') (JStr [])) (\<lambda>level.
       rbind (json_get parsed (lit ''msg'') (JStr [])) (\<lambda>text. Inr (LogMessage level text))))"

definition parse_partners :: "bytes \<Rightarrow> message res" where
  "parse_partners payload =
     rbind (parse_json_body ''Invalid partners message'' ''Invalid partners message length'' payload)
       (\<lambda>parsed. rbind (json_get parsed (lit ''count'') (JInt 0)) (\<lambda>count. Inr (PartnersMessage count)))"

definition parse_message :: "(bytes \<Rightarrow> bytes res) \<Rightarrow> bytes \<Rightarrow> message res" where
  "parse_message gunzip data =
     (if length data < 2 then value_error ''Message too short''
      else rbind (byte_at data 0) (\<lambda>version.
        if int version \<noteq> PROTOCOL_VERSION
        then Inl (ValueError (lit ''Unsupported protocol version: '' @ int_str (int version)))
        else rbind (byte_at data 1) (\<lambda>mt.
          let msg_type = int mt; payload = drop 2 data in
          if msg_type = binary_type_code AUTH then parse_auth payload
          else if msg_type = binary_type_code AUTH_RESPONSE then parse_auth_response payload
          else if msg_type = binary_type_code CONNECT then parse_connect payload
          else if msg_type = binary_type_code CONNECT_RESPONSE then parse_connect_response payload
          else if msg_type = binary_type_code DATA then parse_data gunzip payload
          else if msg_type = binary_type_code DISCONNECT then parse_disconnect payload
          else if msg_type = binary_type_code CONNECTOR then parse_connector payload
          else if msg_type = binary_type_code CONNECTOR_RESPONSE then parse_connector_response payload
          else if msg_type = binary_type_code LOG then parse_log payload
          else if msg_type = binary_type_code PARTNERS then parse_partners payload
          else Inl (ValueError (lit ''Unknown binary message type: '' @ int_str msg_type)))))"

end
