(* ===== verification/Relay.thy ===== *)
theory Relay
  imports Message
begin

text \<open>
  The channel bookkeeping that client and server inherit (class \<open>Relay\<close> of \<^verbatim>\<open>pywssocks/relay.py\<close>): the
  message queue, the forwarding tasks, the UDP client address and the success flag of every channel,
  keyed by the text of the channel id; \<open>disconnect_channel\<close> with its delayed removal of the queue;
  and the start of a forwarder, which looks the queue up.

  A task is a handle. The fields beside the attributes of the class are what the event loop keeps for
  it: the finished tasks, the cancelled ones in order, the running delayed clean-ups with the time
  their sleep ends, and the clock. The record is extended by the state of server and client.
\<close>

type_synonym task = nat

record relay =
  message_queues :: "(pystr, message list) dict"
  udp_client_addrs :: "(pystr, pystr \<times> int) dict"
  tcp_tasks :: "(pystr, task) dict"
  udp_tasks :: "(pystr, task) dict"
  connection_success_map :: "(pystr, bool) dict"
  done_tasks :: "task set"
  cancelled :: "task list"
  queue_timers :: "(pystr \<times> nat) list"
  rl_clock :: nat

section \<open>Operations\<close>

definition set_connection_success :: "pystr \<Rightarrow> 'a relay_scheme \<Rightarrow> 'a relay_scheme" where
  "set_connection_success channel_id s =
     s\<lparr>connection_success_map := dict_set channel_id True (connection_success_map s)\<rparr>"

definition cancel_unless_done :: "task \<Rightarrow> 'a relay_scheme \<Rightarrow> 'a relay_scheme" where
  "cancel_unless_done t s = (if t \<in> done_tasks s then s else s\<lparr>cancelled := cancelled s @ [t]\<rparr>)"

definition pop_tcp_task :: "pystr \<Rightarrow> 'a relay_scheme \<Rightarrow> 'a relay_scheme" where
  "pop_tcp_task channel_id s =
     (case dict_get (tcp_tasks s) channel_id of
        Some t \<Rightarrow> cancel_unless_done t (s\<lparr>tcp_tasks := dict_del channel_id (tcp_tasks s)\<rparr>)
      | None \<Rightarrow> s)"

definition pop_udp_task :: "pystr \<Rightarrow> 'a relay_scheme \<Rightarrow> 'a relay_scheme" where
  "pop_udp_task channel_id s =
     (case dict_get (udp_tasks s) channel_id of
        Some t \<Rightarrow> cancel_unless_done t (s\<lparr>udp_tasks := dict_del channel_id (udp_tasks s)\<rparr>)
      | None \<Rightarrow> s)"

definition remove_queue :: "pystr \<Rightarrow> 'a relay_scheme \<Rightarrow> 'a relay_scheme" where
  "remove_queue channel_id s =
     (if has_key (message_queues s) channel_id
      then s\<lparr>message_queues := dict_del channel_id (message_queues s)\<rparr> else s)"

definition disconnect_channel :: "pystr \<Rightarrow> nat \<Rightarrow> 'a relay_scheme \<Rightarrow> 'a relay_scheme" where
  "disconnect_channel channel_id delay s =
     (let s = pop_tcp_task channel_id s;
          s = pop_udp_task channel_id s;
          s = (if has_key (udp_client_addrs s) channel_id
               then s\<lparr>udp_client_addrs := dict_del channel_id (udp_client_addrs s)\<rparr> else s);
          s = (if has_key (connection_success_map s) channel_id
               then s\<lparr>connection_success_map := dict_del channel_id (connection_success_map s)\<rparr> else s)
      in if delay > 0 \<and> has_key (message_queues s) channel_id
         then s\<lparr>queue_timers := queue_timers s @ [(channel_id, rl_clock s + delay)]\<rparr>
         else remove_queue channel_id s)"

definition default_delay :: nat where
  "default_delay = 5"

text \<open>The delayed clean-ups whose time has come run.\<close>

fun fire_timers :: "(pystr \<times> nat) list \<Rightarrow> 'a relay_scheme \<Rightarrow> 'a relay_scheme" where
  "fire_timers [] s = s"
| "fire_timers ((channel_id, due) # ts) s =
     (if due \<le> rl_clock s then fire_timers ts (remove_queue channel_id s)
      else fire_timers ts (s\<lparr>queue_timers := queue_timers s @ [(channel_id, due)]\<rparr>))"

definition pass_time :: "nat \<Rightarrow> 'a relay_scheme \<Rightarrow> 'a relay_scheme" where
  "pass_time d s =
     (let s = s\<lparr>rl_clock := rl_clock s + d\<rparr> in fire_timers (queue_timers s) (s\<lparr>queue_timers := []\<rparr>))"

text \<open>\<open>open_queue\<close> is an assignment of a fresh queue, \<open>put_message\<close> and \<open>take_message\<close> its two ends.\<close>

definition open_queue :: "pystr \<Rightarrow> 'a relay_scheme \<Rightarrow> 'a relay_scheme" where
  "open_queue channel_id s = s\<lparr>message_queues := dict_set channel_id [] (message_queues s)\<rparr>"

definition put_message :: "pystr \<Rightarrow> message \<Rightarrow> 'a relay_scheme \<Rightarrow> 'a relay_scheme" where
  "put_message channel_id msg s =
     (case dict_get (message_queues s) channel_id of
        Some q \<Rightarrow> s\<lparr>message_queues := dict_set channel_id (q @ [msg]) (message_queues s)\<rparr>
      | None \<Rightarrow> s)"

definition take_message :: "pystr \<Rightarrow> 'a relay_scheme \<Rightarrow> message option \<times> 'a relay_scheme" where
  "take_message channel_id s =
     (case dict_get (message_queues s) channel_id of
        Some (m # q) \<Rightarrow> (Some m, s\<lparr>message_queues := dict_set channel_id q (message_queues s)\<rparr>)
      | _ \<Rightarrow> (None, s))"

text \<open>
  The start of the two forwarders of a connected remote socket: the queue must exist, and the task
  that reads from the socket is registered so that \<open>disconnect_channel\<close> can cancel it.
\<close>

definition start_remote_tcp_forward :: "pystr \<Rightarrow> task \<Rightarrow> 'a relay_scheme \<Rightarrow> unit res \<times> 'a relay_scheme" where
  "start_remote_tcp_forward channel_id tcp_to_ws s =
     (if has_key (message_queues s) channel_id
      then (Inr (), s\<lparr>tcp_tasks := dict_set channel_id tcp_to_ws (tcp_tasks s)\<rparr>)
      else (Inl KeyError, s))"

definition start_remote_udp_forward :: "pystr \<Rightarrow> task \<Rightarrow> 'a relay_scheme \<Rightarrow> unit res \<times> 'a relay_scheme" where
  "start_remote_udp_forward channel_id udp_to_ws s =
     (if has_key (message_queues s) channel_id
      then (Inr (), s\<lparr>udp_tasks := dict_set channel_id udp_to_ws (udp_tasks s)\<rparr>)
      else (Inl KeyError, s))"

definition start_socks_tcp_forward :: "pystr \<Rightarrow> task \<Rightarrow> 'a relay_scheme \<Rightarrow> 'a relay_scheme" where
  "start_socks_tcp_forward channel_id socks_to_ws s =
     (let s = open_queue channel_id s in
      s\<lparr>tcp_tasks := dict_set channel_id socks_to_ws (tcp_tasks s)\<rparr>)"

definition start_socks_udp_forward :: "pystr \<Rightarrow> task \<Rightarrow> 'a relay_scheme \<Rightarrow> 'a relay_scheme" where
  "start_socks_udp_forward channel_id socks_udp_to_ws s =
     (let s = open_queue channel_id s in
      s\<lparr>udp_tasks := dict_set channel_id socks_udp_to_ws (udp_tasks s)\<rparr>)"

section \<open>What \<open>disconnect_channel\<close> does\<close>

lemma cancel_unless_done_simps [simp]:
  "message_queues (cancel_unless_done t s) = message_queues s"
  "udp_client_addrs (cancel_unless_done t s) = udp_client_addrs s"
  "tcp_tasks (cancel_unless_done t s) = tcp_tasks s" "udp_tasks (cancel_unless_done t s) = udp_tasks s"
  "connection_success_map (cancel_unless_done t s) = connection_success_map s"
  "done_tasks (cancel_unless_done t s) = done_tasks s"
  "queue_timers (cancel_unless_done t s) = queue_timers s" "rl_clock (cancel_unless_done t s) = rl_clock s"
  "relay.more (cancel_unless_done t s) = relay.more s"
  by (simp_all add: cancel_unless_done_def)

lemma cancelled_cancel [simp]:
  "cancelled (cancel_unless_done t s) = cancelled s @ (if t \<in> done_tasks s then [] else [t])"
  by (simp add: cancel_unless_done_def)

lemma pop_tcp_simps [simp]:
  "message_queues (pop_tcp_task c s) = message_queues s"
  "udp_client_addrs (pop_tcp_task c s) = udp_client_addrs s"
  "udp_tasks (pop_tcp_task c s) = udp_tasks s"
  "connection_success_map (pop_tcp_task c s) = connection_success_map s"
  "done_tasks (pop_tcp_task c s) = done_tasks s"
  "queue_timers (pop_tcp_task c s) = queue_timers s" "rl_clock (pop_tcp_task c s) = rl_clock s"
  "relay.more (pop_tcp_task c s) = relay.more s"
  by (simp_all add: pop_tcp_task_def split: option.split)

lemma pop_udp_simps [simp]:
  "message_queues (pop_udp_task c s) = message_queues s"
  "udp_client_addrs (pop_udp_task c s) = udp_client_addrs s"
  "tcp_tasks (pop_udp_task c s) = tcp_tasks s"
  "connection_success_map (pop_udp_task c s) = connection_success_map s"
  "done_tasks (pop_udp_task c s) = done_tasks s"
  "queue_timers (pop_udp_task c s) = queue_timers s" "rl_clock (pop_udp_task c s) = rl_clock s"
  "relay.more (pop_udp_task c s) = relay.more s"
  by (simp_all add: pop_udp_task_def split: option.split)

lemma pop_tcp_get [simp]: "dict_get (tcp_tasks (pop_tcp_task c s)) c' =
    (if c' = c then None else dict_get (tcp_tasks s) c')"
  by (auto simp: pop_tcp_task_def dict_simps split: option.split)

lemma pop_udp_get [simp]: "dict_get (udp_tasks (pop_udp_task c s)) c' =
    (if c' = c then None else dict_get (udp_tasks s) c')"
  by (auto simp: pop_udp_task_def dict_simps split: option.split)

definition running :: "'a relay_scheme \<Rightarrow> task option \<Rightarrow> task list" where
  "running s t = (case t of Some t \<Rightarrow> if t \<in> done_tasks s then [] else [t] | None \<Rightarrow> [])"

lemma pop_cancelled [simp]:
  "cancelled (pop_tcp_task c s) = cancelled s @ running s (dict_get (tcp_tasks s) c)"
  "cancelled (pop_udp_task c s) = cancelled s @ running s (dict_get (udp_tasks s) c)"
  by (simp_all add: pop_tcp_task_def pop_udp_task_def running_def split: option.split)

lemma remove_queue_simps [simp]:
  "udp_client_addrs (remove_queue c s) = udp_client_addrs s"
  "tcp_tasks (remove_queue c s) = tcp_tasks s" "udp_tasks (remove_queue c s) = udp_tasks s"
  "connection_success_map (remove_queue c s) = connection_success_map s"
  "cancelled (remove_queue c s) = cancelled s" "done_tasks (remove_queue c s) = done_tasks s"
  "queue_timers (remove_queue c s) = queue_timers s" "rl_clock (remove_queue c s) = rl_clock s"
  "relay.more (remove_queue c s) = relay.more s"
  by (simp_all add: remove_queue_def)

lemma remove_queue_get [dict_simps]:
  "dict_get (message_queues (remove_queue c s)) c' = (if c' = c then None else dict_get (message_queues s) c')"
  by (auto simp: remove_queue_def has_key_def dict_simps)

lemma has_key_remove_queue [dict_simps]:
  "has_key (message_queues (remove_queue c s)) c' \<longleftrightarrow> c' \<noteq> c \<and> has_key (message_queues s) c'"
  by (auto simp: has_key_def remove_queue_get)

lemma running_simps [simp]: "running (pop_tcp_task c s) = running s"
  by (rule ext) (simp add: running_def split: option.split)

lemma disconnect_more [simp]: "relay.more (disconnect_channel c d s) = relay.more s"
  by (simp add: disconnect_channel_def Let_def)

lemma disconnect_channel_effect:
  "dict_get (tcp_tasks (disconnect_channel c d s)) c' = (if c' = c then None else dict_get (tcp_tasks s) c')"
  "dict_get (udp_tasks (disconnect_channel c d s)) c' = (if c' = c then None else dict_get (udp_tasks s) c')"
  "dict_get (udp_client_addrs (disconnect_channel c d s)) c' =
     (if c' = c then None else dict_get (udp_client_addrs s) c')"
  "dict_get (connection_success_map (disconnect_channel c d s)) c' =
     (if c' = c then None else dict_get (connection_success_map s) c')"
  "cancelled (disconnect_channel c d s) =
     cancelled s @ running s (dict_get (tcp_tasks s) c) @ running s (dict_get (udp_tasks s) c)"
  "dict_get (message_queues (disconnect_channel c d s)) c' =
     (if c' = c \<and> d = 0 then None else dict_get (message_queues s) c')"
  "queue_timers (disconnect_channel c d s) =
     queue_timers s @ (if 0 < d \<and> has_key (message_queues s) c then [(c, rl_clock s + d)] else [])"
  "rl_clock (disconnect_channel c d s) = rl_clock s"
  by (auto simp: disconnect_channel_def Let_def dict_simps has_key_def
      simp del: not_None_eq split_paired_All split_paired_Ex)

section \<open>Timers\<close>

lemma fire_timers_queue:
  "has_key (message_queues (fire_timers ts s)) c \<longleftrightarrow>
     has_key (message_queues s) c \<and> (\<forall>due. (c, due) \<in> set ts \<longrightarrow> rl_clock s < due)"
proof (induction ts arbitrary: s)
  case (Cons t ts)
  then show ?case by (cases t) (auto simp: dict_simps not_le)
qed simp

lemma fire_timers_left:
  "queue_timers (fire_timers ts s) = queue_timers s @ [t \<leftarrow> ts. rl_clock s < snd t]"
proof (induction ts arbitrary: s)
  case (Cons t ts)
  then show ?case by (cases t) auto
qed simp

lemma fire_timers_clock [simp]: "rl_clock (fire_timers ts s) = rl_clock s"
proof (induction ts arbitrary: s)
  case (Cons t ts)
  then show ?case by (cases t) auto
qed simp

lemma pass_time_queue:
  "has_key (message_queues (pass_time d s)) c \<longleftrightarrow>
     has_key (message_queues s) c \<and> (\<forall>due. (c, due) \<in> set (queue_timers s) \<longrightarrow> rl_clock s + d < due)"
  by (simp add: pass_time_def Let_def fire_timers_queue)

lemma fire_timers_contents:
  "dict_get (message_queues (fire_timers ts s)) c =
     (if \<forall>due. (c, due) \<in> set ts \<longrightarrow> rl_clock s < due then dict_get (message_queues s) c else None)"
proof (induction ts arbitrary: s)
  case (Cons t ts)
  then show ?case by (cases t) (auto simp: dict_simps not_le)
qed simp

section \<open>Queues are FIFO\<close>

lemma put_take:
  "dict_get (message_queues s) c = Some q \<Longrightarrow>
     dict_get (message_queues (put_message c m s)) c = Some (q @ [m])"
  by (simp add: put_message_def dict_simps)

interpretation mail: mailbox "\<lambda>s. dict_get (message_queues s) c" "put_message c" "take_message c" for c
  by unfold_locales (auto simp: put_take take_message_def dict_simps)

fun take_messages :: "nat \<Rightarrow> pystr \<Rightarrow> 'a relay_scheme \<Rightarrow> message list \<times> 'a relay_scheme" where
  "take_messages 0 c s = ([], s)"
| "take_messages (Suc n) c s =
     (case take_message c s of
        (Some m, s') \<Rightarrow> (case take_messages n c s' of (ms, s'') \<Rightarrow> (m # ms, s''))
      | (None, s') \<Rightarrow> ([], s'))"

lemma take_messages_queue:
  "dict_get (message_queues s) c = Some q \<Longrightarrow> fst (take_messages n c s) = take n q"
proof (induction n arbitrary: s q)
  case (Suc n)
  show ?case
  proof (cases q)
    case Nil
    with Suc.prems show ?thesis by (simp add: take_message_def)
  next
    case (Cons m q')
    let ?s = "s\<lparr>message_queues := dict_set c q' (message_queues s)\<rparr>"
    have "fst (take_messages n c ?s) = take n q'"
      by (rule Suc.IH) (simp add: dict_simps)
    with Suc.prems Cons show ?thesis by (simp add: take_message_def split_def)
  qed
qed simp

section \<open>Properties\<close>

text \<open>
  Disconnecting a channel releases everything the relay keeps for it and nothing else: its TCP
  and UDP tasks are unregistered and cancelled unless already finished, its UDP client address and
  success flag are dropped, its queue is dropped at once without a delay and kept with one; the
  entries of every other channel are untouched.
\<close>

theorem disconnect_releases_channel:
  "let s' = disconnect_channel c delay s in
     cancelled s' = cancelled s @ running s (dict_get (tcp_tasks s) c) @ running s (dict_get (udp_tasks s) c) \<and>
     dict_get (tcp_tasks s') = (dict_get (tcp_tasks s))(c := None) \<and>
     dict_get (udp_tasks s') = (dict_get (udp_tasks s))(c := None) \<and>
     dict_get (udp_client_addrs s') = (dict_get (udp_client_addrs s))(c := None) \<and>
     dict_get (connection_success_map s') = (dict_get (connection_success_map s))(c := None) \<and>
     dict_get (message_queues s') =
       (if delay = 0 then (dict_get (message_queues s))(c := None) else dict_get (message_queues s))"
  by (auto simp: Let_def disconnect_channel_effect fun_eq_iff)

text \<open>
  Late packets: after a disconnect with a delay, a message that arrives before the delay is over
  is still queued behind those already there, and once the delay is over the queue is gone.
\<close>

theorem late_packets_within_delay:
  assumes "dict_get (message_queues s) c = Some q" and "queue_timers s = []" and "t < delay"
  shows "dict_get (message_queues (put_message c m (pass_time t (disconnect_channel c delay s)))) c =
      Some (q @ [m]) \<and>
    \<not> has_key (message_queues
        (pass_time (delay - t) (put_message c m (pass_time t (disconnect_channel c delay s))))) c"
proof -
  let ?s = "pass_time t (disconnect_channel c delay s)"
  from assms have timers: "queue_timers (disconnect_channel c delay s) = [(c, rl_clock s + delay)]"
    by (auto simp: disconnect_channel_effect has_key_def)
  with assms have q: "dict_get (message_queues ?s) c = Some q"
    by (simp add: pass_time_def Let_def fire_timers_contents disconnect_channel_effect)
  from timers assms(3) have left: "queue_timers ?s = [(c, rl_clock s + delay)]" "rl_clock ?s = rl_clock s + t"
    by (simp_all add: pass_time_def Let_def fire_timers_left disconnect_channel_effect)
  from q left show ?thesis
    by (auto simp: put_take pass_time_queue put_message_def dict_simps)
qed

definition one_queue :: relay where
  "one_queue = \<lparr>message_queues = [([1], [])], udp_client_addrs = [], tcp_tasks = [], udp_tasks = [],
     connection_success_map = [], done_tasks = {}, cancelled = [], queue_timers = [], rl_clock = 0\<rparr>"

theorem late_packets_within_delay_witness:
  "dict_get (message_queues (put_message [1] (PartnersMessage JNull) (pass_time 4 (disconnect_channel [1] default_delay one_queue)))) [1]
     = Some [PartnersMessage JNull]"
  using late_packets_within_delay [of one_queue "[1]" "[]" 4 default_delay "PartnersMessage JNull"]
  by (simp add: one_queue_def default_delay_def)

text \<open>
  Channels are FIFO: the messages put into a channel's queue are taken out in the order in which
  they were put, behind those that were already waiting.
\<close>

theorem queue_is_fifo:
  assumes "dict_get (message_queues s) c = Some q"
  shows "fst (take_messages n c (fold (put_message c) ms s)) = take n (q @ ms)"
  by (rule take_messages_queue [OF mail.puts_contents [OF assms]])

theorem queue_is_fifo_witness:
  "fst (take_messages 2 [1] (fold (put_message [1]) [PartnersMessage (JInt 1), PartnersMessage (JInt 2)] one_queue))
     = [PartnersMessage (JInt 1), PartnersMessage (JInt 2)]"
  using queue_is_fifo [of one_queue "[1]" "[]" 2 "[PartnersMessage (JInt 1), PartnersMessage (JInt 2)]"]
  by (simp add: one_queue_def)

end
