(* ===== verification/Codec.thy ===== *)
theory Codec
  imports Message
begin

text \<open>
  What the receiver of a packed message gets: \<open>parse_message\<close> after \<open>pack_message\<close> is the normal form
  of the message, for every message the wire carries (\<open>wire_ok\<close>); which messages can be packed at
  all; and which exceptions parsing arbitrary bytes can raise.
\<close>

section \<open>Building blocks\<close>

lemma byte_at_simps [simp]:
  "byte_at (b # p) 0 = Inr (unat b)"
  "0 < i \<Longrightarrow> byte_at (b # p) i = byte_at p (i - 1)"
  "length xs \<le> i \<Longrightarrow> byte_at (xs @ ys) i = byte_at ys (i - length xs)"
  by (simp_all add: byte_at_def)

lemma byte_at_ok: "i < length p \<Longrightarrow> byte_at p i = Inr (unat (p ! i))"
  by (simp add: byte_at_def)

lemma put_text_eq_Inr [res_simps]:
  "put_text s = Inr b \<longleftrightarrow>
     length s < 256 \<and> (\<exists>e. utf8_encode s = Inr e \<and> b = byte_of (length s) # e)"
  by (auto simp: put_text_def res_simps)

lemma put_bool_eq [simp]: "put_bool b = Inr [byte_of (if b then 1 else 0)]"
  by (simp add: put_bool_def)

lemma header_eq [simp]: "header t = Inr [byte_of 1, byte_of (nat (binary_type_code t))]"
  by (cases t) (simp_all add: header_def PROTOCOL_VERSION_def)

lemma utf8_decode_ascii [simp]: "ascii s \<Longrightarrow> utf8_decode (map byte_of s) = Inr s"
  using utf8_decode_encode utf8_encode_ascii by blast

text \<open>An ASCII text field has as many bytes as its length byte says.\<close>

lemma put_text_ascii:
  "put_text s = Inr b \<Longrightarrow> ascii s \<Longrightarrow> length s < 256 \<and> b = byte_of (length s) # map byte_of s"
  by (auto simp: put_text_eq_Inr utf8_encode_ascii)

lemma put_text_ascii_ok:
  "ascii s \<Longrightarrow> length s < 256 \<Longrightarrow> put_text s = Inr (byte_of (length s) # map byte_of s)"
  by (auto simp: put_text_eq_Inr utf8_encode_ascii)

lemmas pack_opens = concat_res_Cons_Inr rbind_eq_Inr append_byte_eq_Inr struct_pack_eq_Inr

lemma protocol_code [simp]:
  "protocol_to_bytes (lit ''tcp'') = 1" "protocol_to_bytes (lit ''udp'') = 2"
  "bytes_to_protocol 1 = lit ''tcp''" "bytes_to_protocol 2 = lit ''udp''"
  by (simp_all add: protocol_to_bytes_def bytes_to_protocol_def)

lemma operation_code [simp]:
  "operation_to_bytes (lit ''add'') = 1" "operation_to_bytes (lit ''remove'') = 2"
  "bytes_to_operation 1 = lit ''add''" "bytes_to_operation 2 = lit ''remove''"
  by (simp_all add: operation_to_bytes_def bytes_to_operation_def)

lemma lit_neq [simp]: "lit ''udp'' \<noteq> lit ''tcp''" "lit ''tcp'' \<noteq> lit ''udp''"
  "lit ''add'' \<noteq> lit ''remove''" "lit ''remove'' \<noteq> lit ''add''" "lit ''add'' \<noteq> []" "lit ''remove'' \<noteq> []"
  by simp_all

text \<open>The dispatch of \<open>parse_message\<close> on the header that \<open>pack_message\<close> writes.\<close>

lemma parse_dispatch:
  "parse_message gunzip (byte_of (Suc 0) # byte_of (Suc 0) # p) = parse_auth p"
  "parse_message gunzip (byte_of (Suc 0) # byte_of 2 # p) = parse_auth_response p"
  "parse_message gunzip (byte_of (Suc 0) # byte_of 3 # p) = parse_connect p"
  "parse_message gunzip (byte_of (Suc 0) # byte_of 5 # p) = parse_connect_response p"
  "parse_message gunzip (byte_of (Suc 0) # byte_of 4 # p) = parse_data gunzip p"
  "parse_message gunzip (byte_of (Suc 0) # byte_of 6 # p) = parse_disconnect p"
  "parse_message gunzip (byte_of (Suc 0) # byte_of 7 # p) = parse_connector p"
  "parse_message gunzip (byte_of (Suc 0) # byte_of 8 # p) = parse_connector_response p"
  "parse_message gunzip (byte_of (Suc 0) # byte_of 9 # p) = parse_log p"
  "parse_message gunzip (byte_of (Suc 0) # byte_of 10 # p) = parse_partners p"
  by (simp_all add: parse_message_def PROTOCOL_VERSION_def)

section \<open>Round trips, one message type at a time\<close>

lemma parse_pack_auth:
  assumes "pack_auth token reverse inst = Inr bs" "ascii token"
  shows "parse_message gunzip bs = Inr (AuthMessage token reverse inst)"
proof -
  from assms(1) obtain b where b: "put_text token = Inr b"
    and bs: "bs = byte_of 1 # byte_of 1 # b @ [byte_of (if reverse then 1 else 0)] @ uuid_bytes inst"
    by (auto simp: pack_auth_def pack_opens)
  from put_text_ascii [OF b assms(2)] bs assms(2) show ?thesis
    by (simp add: parse_dispatch parse_auth_def)
qed

lemma parse_pack_auth_response:
  assumes "pack_auth_response success error = Inr bs" "\<not> success \<longrightarrow> truthy error \<longrightarrow> ascii (the error)"
  shows "parse_message gunzip bs =
    Inr (AuthResponseMessage success (if \<not> success \<and> truthy error then error else None))"
proof (cases "\<not> success \<and> truthy error")
  case True
  with assms obtain e b where e: "error = Some e" "ascii e" "put_text e = Inr b"
    and bs: "bs = byte_of 1 # byte_of 2 # byte_of 0 # b"
    by (cases error) (auto simp: pack_auth_response_def pack_opens)
  from put_text_ascii [OF e(3) e(2)] bs e True show ?thesis
    by (simp add: parse_dispatch parse_auth_response_def)
next
  case False
  with assms have "bs = [byte_of 1, byte_of 2, byte_of (if success then 1 else 0)]"
    by (auto simp: pack_auth_response_def pack_opens)
  with False show ?thesis
    by (auto simp: parse_dispatch parse_auth_response_def)
qed

lemma parse_pack_connect:
  assumes "pack_connect protocol cid address port = Inr bs"
    and "protocol = lit ''tcp'' \<and> ascii (the address) \<or> protocol = lit ''udp''"
  shows "parse_message gunzip bs = Inr (if protocol = lit ''tcp''
    then ConnectMessage protocol cid address port else ConnectMessage protocol cid None None)"
proof (cases "protocol = lit ''tcp''")
  case True
  with assms obtain a p b where a: "address = Some a" "port = Some p" "ascii a" "put_text a = Inr b"
    and p: "0 \<le> p" "p < 256 ^ 2"
    and bs: "bs = byte_of 1 # byte_of 3 # byte_of 1 # uuid_bytes cid @ b @ to_be 2 (nat p)"
    by (auto simp: pack_connect_def pack_opens simp del: lit_Cons split: option.splits)
  from of_be_to_be_small [OF nat_less_power [OF p]] p
  have "int (of_be (to_be 2 (nat p))) = p" by simp
  with put_text_ascii [OF a(4) a(3)] bs a True show ?thesis
    by (simp add: parse_dispatch parse_connect_def del: lit_Cons)
next
  case False
  with assms have "bs = byte_of 1 # byte_of 3 # byte_of 2 # uuid_bytes cid" "protocol = lit ''udp''"
    by (auto simp: pack_connect_def pack_opens simp del: lit_Cons)
  then show ?thesis
    by (simp add: parse_dispatch parse_connect_def del: lit_Cons)
qed

lemma parse_pack_connect_response:
  assumes "pack_connect_response success cid error = Inr bs"
    and "\<not> success \<longrightarrow> error \<noteq> None \<and> ascii (the error)"
  shows "parse_message gunzip bs =
    Inr (ConnectResponseMessage success cid (if success then None else error))"
proof (cases success)
  case False
  with assms obtain e b where e: "error = Some e" "ascii e" "put_text e = Inr b"
    and bs: "bs = byte_of 1 # byte_of 5 # byte_of 0 # uuid_bytes cid @ b"
    by (auto simp: pack_connect_response_def pack_opens)
  from put_text_ascii [OF e(3) e(2)] bs e False show ?thesis
    by (simp add: parse_dispatch parse_connect_response_def)
next
  case True
  with assms have bs: "bs = byte_of 1 # byte_of 5 # byte_of 1 # uuid_bytes cid"
    by (auto simp: pack_connect_response_def pack_opens)
  with True show ?thesis
    by (simp add: parse_dispatch parse_connect_response_def)
qed

lemma parse_pack_disconnect:
  assumes "pack_disconnect cid error = Inr bs" "truthy error \<longrightarrow> ascii (the error)"
  shows "parse_message gunzip bs =
    Inr (DisconnectMessage cid (if truthy error then error else None))"
proof (cases "truthy error")
  case True
  with assms obtain e b where e: "error = Some e" "e \<noteq> []" "ascii e" "put_text e = Inr b"
    and bs: "bs = byte_of 1 # byte_of 6 # uuid_bytes cid @ b"
    by (cases error) (auto simp: pack_disconnect_def pack_opens)
  from put_text_ascii [OF e(4) e(3)] bs e show ?thesis
    by (simp add: parse_dispatch parse_disconnect_def)
next
  case False
  with assms have bs: "bs = byte_of 1 # byte_of 6 # uuid_bytes cid"
    by (auto simp: pack_disconnect_def pack_opens)
  with False show ?thesis
    by (simp add: parse_dispatch parse_disconnect_def)
qed

lemma parse_pack_connector:
  assumes "pack_connector cid token operation = Inr bs" "ascii token"
    and "operation = lit ''add'' \<or> operation = lit ''remove''"
  shows "parse_message gunzip bs = Inr (ConnectorMessage cid token operation)"
proof -
  from assms(1,3) obtain b where b: "put_text token = Inr b"
    and bs: "bs = byte_of 1 # byte_of 7 # uuid_bytes cid @ b @
      [byte_of (if operation = lit ''add'' then 1 else 2)]"
    by (auto simp: pack_connector_def pack_opens simp del: lit_Cons)
  from put_text_ascii [OF b assms(2)] bs assms(2,3) show ?thesis
    by (auto simp add: parse_dispatch parse_connector_def simp del: lit_Cons)
qed

lemma parse_pack_connector_response:
  assumes "pack_connector_response success cid error token = Inr bs"
    and "\<not> success \<longrightarrow> truthy error \<and> ascii (the error)" "success \<longrightarrow> truthy token \<longrightarrow> ascii (the token)"
  shows "parse_message gunzip bs =
    Inr (ConnectorResponseMessage success cid (if success then None else error)
      (if success \<and> truthy token then token else None))"
proof -
  consider (err) "\<not> success" | (tok) "success" "truthy token" | (plain) "success" "\<not> truthy token"
    by blast
  then show ?thesis
  proof cases
    case err
    with assms obtain e b where e: "error = Some e" "ascii e" "put_text e = Inr b"
      and bs: "bs = byte_of 1 # byte_of 8 # uuid_bytes cid @ byte_of 0 # b"
      by (cases error) (auto simp: pack_connector_response_def pack_opens)
    from put_text_ascii [OF e(3) e(2)] bs e err show ?thesis
      by (simp add: parse_dispatch parse_connector_response_def)
  next
    case tok
    with assms obtain e b where e: "token = Some e" "e \<noteq> []" "ascii e" "put_text e = Inr b"
      and bs: "bs = byte_of 1 # byte_of 8 # uuid_bytes cid @ byte_of 1 # b"
      by (cases token) (auto simp: pack_connector_response_def pack_opens)
    from put_text_ascii [OF e(4) e(3)] bs e tok show ?thesis
      by (simp add: parse_dispatch parse_connector_response_def)
  next
    case plain
    with assms have "bs = byte_of 1 # byte_of 8 # uuid_bytes cid @ [byte_of 1]"
      by (auto simp: pack_connector_response_def pack_opens)
    with plain show ?thesis
      by (simp add: parse_dispatch parse_connector_response_def)
  qed
qed

lemma endpoint_open:
  assumes "put_endpoint addr port = Inr b" "truthy addr \<longrightarrow> ascii (the addr)"
  obtains a p where "a = (case addr of Some s \<Rightarrow> s | None \<Rightarrow> [])" "p = (case port of Some p \<Rightarrow> p | None \<Rightarrow> 0)"
    "ascii a" "length a < 256" "b = byte_of (length a) # map byte_of a @ to_be 2 (nat p)"
    "int (of_be (to_be 2 (nat p))) = p"
proof -
  define p where "p = (case port of Some p \<Rightarrow> p | None \<Rightarrow> 0)"
  define a where "a = (case addr of Some s \<Rightarrow> s | None \<Rightarrow> [])"
  have p: "0 \<le> p" "p < 256 ^ 2"
    using assms(1) by (auto simp: p_def pack_opens split: if_splits)
  have "ascii a \<and> length a < 256 \<and> b = byte_of (length a) # map byte_of a @ to_be 2 (nat p)"
    using assms by (cases "truthy addr"; cases addr)
      (auto simp: a_def p_def pack_opens dest!: put_text_ascii)
  moreover from of_be_to_be_small [OF nat_less_power [OF p]] p
  have "int (of_be (to_be 2 (nat p))) = p" by simp
  ultimately show thesis using that a_def p_def by blast
qed

lemma parse_pack_data:
  assumes "pack_data gz protocol cid data compression address port target_addr target_port = Inr bs"
    and "compression = DATA_COMPRESSION_GZIP \<longrightarrow> gunzip (gz data) = Inr data"
    and "protocol = lit ''tcp'' \<or> protocol = lit ''udp'' \<and>
      (truthy address \<longrightarrow> ascii (the address)) \<and> (truthy target_addr \<longrightarrow> ascii (the target_addr))"
  shows "parse_message gunzip bs = Inr (if protocol = lit ''tcp''
    then DataMessage protocol cid data compression None None None None
    else DataMessage protocol cid data compression
      (Some (case address of Some s \<Rightarrow> s | None \<Rightarrow> [])) (Some (case port of Some p \<Rightarrow> p | None \<Rightarrow> 0))
      (Some (case target_addr of Some s \<Rightarrow> s | None \<Rightarrow> []))
      (Some (case target_port of Some p \<Rightarrow> p | None \<Rightarrow> 0)))"
proof -
  define d where "d = (if compression = DATA_COMPRESSION_GZIP then gz data else data)"
  from assms(1) have c: "0 \<le> compression" "compression < 256" and l: "int (length d) < 256 ^ 4"
    by (auto simp: pack_data_def Let_def pack_opens d_def simp del: lit_Cons put_endpoint.simps)
  from of_be_to_be_small [OF nat_less_power [OF _ l]]
  have len: "of_be (to_be 4 (length d)) = length d" by simp
  have gu: "(if compression = DATA_COMPRESSION_GZIP then gunzip d else Inr d) = Inr data"
    using assms(2) by (simp add: d_def)
  show ?thesis
  proof (cases "protocol = lit ''tcp''")
    case True
    with assms(1) have "bs = byte_of 1 # byte_of 4 # byte_of 1 # uuid_bytes cid @
        byte_of (nat compression) # to_be 4 (length d) @ d"
      by (auto simp: pack_data_def Let_def pack_opens d_def [symmetric] simp del: lit_Cons)
    with c len gu True show ?thesis
      by (simp add: parse_dispatch parse_data_def del: lit_Cons)
  next
    case False
    with assms(3) have p: "protocol = lit ''udp''" by blast
    with assms(1) obtain b1 b2 where b: "put_endpoint address port = Inr b1"
        "put_endpoint target_addr target_port = Inr b2"
      and bs: "bs = byte_of 1 # byte_of 4 # byte_of 2 # uuid_bytes cid @
        byte_of (nat compression) # to_be 4 (length d) @ d @ b1 @ b2"
      by (auto simp: pack_data_def Let_def pack_opens d_def [symmetric] simp del: lit_Cons put_endpoint.simps)
    from assms(3) p have asc: "truthy address \<longrightarrow> ascii (the address)"
      "truthy target_addr \<longrightarrow> ascii (the target_addr)" by simp_all
    from b(1) asc(1) obtain a q where 1: "a = (case address of Some s \<Rightarrow> s | None \<Rightarrow> [])"
      "q = (case port of Some p \<Rightarrow> p | None \<Rightarrow> 0)" "ascii a" "length a < 256"
      "b1 = byte_of (length a) # map byte_of a @ to_be 2 (nat q)"
      "int (of_be (to_be 2 (nat q))) = q"
      by (rule endpoint_open)
    from b(2) asc(2) obtain ta tq where 2: "ta = (case target_addr of Some s \<Rightarrow> s | None \<Rightarrow> [])"
      "tq = (case target_port of Some p \<Rightarrow> p | None \<Rightarrow> 0)" "ascii ta" "length ta < 256"
      "b2 = byte_of (length ta) # map byte_of ta @ to_be 2 (nat tq)"
      "int (of_be (to_be 2 (nat tq))) = tq"
      by (rule endpoint_open)
    have skip: "drop (22 + length d) (byte_of 2 # uuid_bytes cid @
        byte_of (nat compression) # to_be 4 (length d) @ d @ b1 @ b2) = b1 @ b2"
      by (simp add: drop_Cons')
    from c len gu p 1(3-6) 2(3-6) skip show ?thesis
      unfolding bs 1(1,2) [symmetric] 2(1,2) [symmetric]
      by (simp add: parse_dispatch parse_data_def Let_def del: lit_Cons)
  qed
qed

lemma json_body_open:
  assumes "put_json (JDict kvs) = Inr b" "\<forall>kv\<in>set kvs. flat_entry kv" "distinct (map fst kvs)"
  shows "parse_json_body e1 e2 b = Inr (JDict kvs)"
proof -
  let ?d = "map byte_of (json_dumps (JDict kvs))"
  from ascii_json_dumps [OF assms(2)] have a: "ascii (json_dumps (JDict kvs))" .
  with assms(1) have l: "int (length ?d) < 256 ^ 4" and b: "b = to_be 4 (length ?d) @ ?d"
    by (auto simp: put_json_def pack_opens utf8_encode_ascii simp del: json_dumps.simps)
  from of_be_to_be_small [OF nat_less_power [OF _ l]]
  have len: "of_be (to_be 4 (length ?d)) = length ?d" by (simp del: json_dumps.simps)
  from assms(2,3) have "json_loads (json_dumps (JDict kvs)) = Inr (JDict kvs)"
    by (rule json_loads_dumps)
  with len a b show ?thesis
    by (simp add: parse_json_body_def del: json_dumps.simps)
qed

lemma parse_pack_log:
  assumes "pack_log level text = Inr bs" "flat_scalar level" "flat_scalar text"
  shows "parse_message gunzip bs = Inr (LogMessage level text)"
proof -
  let ?kvs = "[(lit ''level'', level), (lit ''msg'', text)]"
  from assms(1) obtain b where b: "put_json (JDict ?kvs) = Inr b" and bs: "bs = byte_of 1 # byte_of 9 # b"
    by (auto simp: pack_log_def pack_opens simp del: lit_Cons)
  have "\<forall>kv\<in>set ?kvs. flat_entry kv" using assms by (auto simp: flat_entry_def valid_char_def is_surrogate_def)
  from json_body_open [OF b this] bs show ?thesis
    by (simp add: parse_dispatch parse_log_def)
qed

lemma parse_pack_partners:
  assumes "pack_partners count = Inr bs" "flat_scalar count"
  shows "parse_message gunzip bs = Inr (PartnersMessage count)"
proof -
  let ?kvs = "[(lit ''count'', count)]"
  from assms(1) obtain b where b: "put_json (JDict ?kvs) = Inr b" and bs: "bs = byte_of 1 # byte_of 10 # b"
    by (auto simp: pack_partners_def pack_opens simp del: lit_Cons)
  have "\<forall>kv\<in>set ?kvs. flat_entry kv" using assms by (auto simp: flat_entry_def valid_char_def is_surrogate_def)
  from json_body_open [OF b this] bs show ?thesis
    by (simp add: parse_dispatch parse_partners_def)
qed

section \<open>The wire format\<close>

text \<open>
  \<open>wire_ok m\<close>: the messages the format carries. Text fields that are transmitted must be ASCII (see
  \<open>auth_roundtrip_iff_ascii\<close> for why), a protocol or operation must be one the wire has a code for, and a
  failure response must have the error text its decoder insists on.
\<close>

fun wire_ok :: "message \<Rightarrow> bool" where
  "wire_ok (AuthMessage token _ _) = ascii token"
| "wire_ok (AuthResponseMessage success error) = (\<not> success \<longrightarrow> truthy error \<longrightarrow> ascii (the error))"
| "wire_ok (ConnectMessage protocol _ address _) =
     (protocol = lit ''tcp'' \<and> ascii (the address) \<or> protocol = lit ''udp'')"
| "wire_ok (ConnectResponseMessage success _ error) =
     (\<not> success \<longrightarrow> error \<noteq> None \<and> ascii (the error))"
| "wire_ok (DataMessage protocol _ _ _ address _ target_addr _) =
     (protocol = lit ''tcp'' \<or> protocol = lit ''udp'' \<and>
       (truthy address \<longrightarrow> ascii (the address)) \<and> (truthy target_addr \<longrightarrow> ascii (the target_addr)))"
| "wire_ok (DisconnectMessage _ error) = (truthy error \<longrightarrow> ascii (the error))"
| "wire_ok (ConnectorMessage _ token operation) =
     (ascii token \<and> (operation = lit ''add'' \<or> operation = lit ''remove''))"
| "wire_ok (ConnectorResponseMessage success _ error token) =
     ((\<not> success \<longrightarrow> truthy error \<and> ascii (the error)) \<and>
      (success \<longrightarrow> truthy token \<longrightarrow> ascii (the token)))"
| "wire_ok (LogMessage level text) = (flat_scalar level \<and> flat_scalar text)"
| "wire_ok (PartnersMessage count) = flat_scalar count"

text \<open>
  \<open>norm_message m\<close>: the message the receiver sees. Errors of successes and empty errors are not
  transmitted; only a UDP data message has addresses, and an absent one arrives as the empty
  address and port 0.
\<close>

definition opt_text :: "pystr option \<Rightarrow> pystr option" where
  "opt_text x = (if truthy x then x else None)"

definition addr_or_empty :: "pystr option \<Rightarrow> pystr option" where
  "addr_or_empty x = Some (case x of Some s \<Rightarrow> s | None \<Rightarrow> [])"

definition port_or_zero :: "int option \<Rightarrow> int option" where
  "port_or_zero x = Some (case x of Some p \<Rightarrow> p | None \<Rightarrow> 0)"

fun norm_message :: "message \<Rightarrow> message" where
  "norm_message (AuthResponseMessage success error) =
     AuthResponseMessage success (if success then None else opt_text error)"
| "norm_message (ConnectMessage protocol cid address port) =
     (if protocol = lit ''tcp'' then ConnectMessage protocol cid address port
      else ConnectMessage protocol cid None None)"
| "norm_message (ConnectResponseMessage success cid error) =
     ConnectResponseMessage success cid (if success then None else error)"
| "norm_message (DataMessage protocol cid data compression address port target_addr target_port) =
     (if protocol = lit ''udp''
      then DataMessage protocol cid data compression (addr_or_empty address) (port_or_zero port)
        (addr_or_empty target_addr) (port_or_zero target_port)
      else DataMessage protocol cid data compression None None None None)"
| "norm_message (DisconnectMessage cid error) = DisconnectMessage cid (opt_text error)"
| "norm_message (ConnectorResponseMessage success cid error token) =
     ConnectorResponseMessage success cid (if success then None else error)
       (if success then opt_text token else None)"
| "norm_message m = m"

text \<open>What the transfer needs of gzip: the receiver can undo the compression of this message.\<close>

fun gzip_ok :: "(bytes \<Rightarrow> bytes) \<Rightarrow> (bytes \<Rightarrow> bytes res) \<Rightarrow> message \<Rightarrow> bool" where
  "gzip_ok gz gunzip (DataMessage _ _ data compression _ _ _ _) =
     (compression = DATA_COMPRESSION_GZIP \<longrightarrow> gunzip (gz data) = Inr data)"
| "gzip_ok gz gunzip _ = True"

lemma parse_pack_message:
  assumes "wire_ok m" "gzip_ok gz gunzip m" "pack_message gz m = Inr bs"
  shows "parse_message gunzip bs = Inr (norm_message m)"
proof (cases m)
  case (DataMessage protocol cid data compression address port ta tp)
  from DataMessage assms(3)
  have "pack_data gz protocol cid data compression address port ta tp = Inr bs" by simp
  from parse_pack_data [OF this, of gunzip] assms(1,2) DataMessage show ?thesis
    by (auto simp: addr_or_empty_def port_or_zero_def simp del: lit_Cons)
qed (use assms in \<open>auto simp: opt_text_def parse_pack_auth parse_pack_auth_response
  parse_pack_connect parse_pack_connect_response parse_pack_disconnect parse_pack_connector
  parse_pack_connector_response parse_pack_log parse_pack_partners simp del: lit_Cons\<close>)

interpretation msgfmt: wire_format "pack_message gz" "parse_message gunzip"
    "\<lambda>m. wire_ok m \<and> gzip_ok gz gunzip m" norm_message for gz gunzip
  by unfold_locales (use parse_pack_message in blast)

section \<open>Which messages can be packed\<close>

text \<open>A text field fits when its length fits the length byte and it has no lone surrogate.\<close>

definition text_fits :: "pystr \<Rightarrow> bool" where
  "text_fits s \<longleftrightarrow> length s < 256 \<and> valid_str s"

definition port_fits :: "int \<Rightarrow> bool" where
  "port_fits p \<longleftrightarrow> 0 \<le> p \<and> p < 65536"

definition endpoint_fits :: "pystr option \<Rightarrow> int option \<Rightarrow> bool" where
  "endpoint_fits a p \<longleftrightarrow> (truthy a \<longrightarrow> text_fits (the a)) \<and> (p \<noteq> None \<longrightarrow> port_fits (the p))"

definition json_fits :: "json \<Rightarrow> bool" where
  "json_fits v \<longleftrightarrow> length (json_dumps v) < 4294967296"

fun packable :: "(bytes \<Rightarrow> bytes) \<Rightarrow> message \<Rightarrow> bool" where
  "packable gz (AuthMessage token _ _) = text_fits token"
| "packable gz (AuthResponseMessage success error) =
     (\<not> success \<and> truthy error \<longrightarrow> text_fits (the error))"
| "packable gz (ConnectMessage protocol _ address port) =
     (protocol = lit ''tcp'' \<longrightarrow> address \<noteq> None \<and> port \<noteq> None \<and> text_fits (the address) \<and>
       port_fits (the port))"
| "packable gz (ConnectResponseMessage success _ error) =
     (\<not> success \<and> error \<noteq> None \<longrightarrow> text_fits (the error))"
| "packable gz (DataMessage protocol _ data compression address port target_addr target_port) =
     (0 \<le> compression \<and> compression < 256 \<and>
      length (if compression = DATA_COMPRESSION_GZIP then gz data else data) < 4294967296 \<and>
      (protocol = lit ''udp'' \<longrightarrow>
        endpoint_fits address port \<and> endpoint_fits target_addr target_port))"
| "packable gz (DisconnectMessage _ error) = (truthy error \<longrightarrow> text_fits (the error))"
| "packable gz (ConnectorMessage _ token _) = text_fits token"
| "packable gz (ConnectorResponseMessage success _ error token) =
     ((\<not> success \<and> truthy error \<longrightarrow> text_fits (the error)) \<and>
      (success \<and> truthy token \<longrightarrow> text_fits (the token)))"
| "packable gz (LogMessage level text) =
     json_fits (JDict [(lit ''level'', level), (lit ''msg'', text)])"
| "packable gz (PartnersMessage count) = json_fits (JDict [(lit ''count'', count)])"

lemma utf8_encode_ok_iff: "(\<exists>bs. utf8_encode s = Inr bs) \<longleftrightarrow> valid_str s"
proof
  show "\<exists>bs. utf8_encode s = Inr bs \<Longrightarrow> valid_str s"
  proof (induction s)
    case (Cons c s)
    then obtain b where "enc_cp c = Inr b" "valid_str s"
      by (auto simp: rbind_eq_Inr)
    then show ?case
      using enc_cp_valid [of c UnicodeEncodeError] by (simp add: valid_char_def)
  qed simp
qed (rule utf8_encode_valid)

lemma put_text_ok_iff: "(\<exists>b. put_text s = Inr b) \<longleftrightarrow> text_fits s"
  using utf8_encode_ok_iff [of s] by (auto simp: put_text_eq_Inr text_fits_def)

lemma concat_res_ok_Cons:
  "(\<exists>out. concat_res (p # ps) = Inr out) \<longleftrightarrow> (\<exists>b. p = Inr b) \<and> (\<exists>bs. concat_res ps = Inr bs)"
  by (auto simp: concat_res_Cons_Inr simp del: concat_res.simps)

lemma concat_res_ok_Nil: "\<exists>out. concat_res [] = Inr out"
  by simp

lemma append_byte_ok_iff: "(\<exists>b. append_byte n = Inr b) \<longleftrightarrow> 0 \<le> n \<and> n < 256"
  by (auto simp: append_byte_eq_Inr)

lemma struct_pack_ok_iff: "(\<exists>b. struct_pack n v = Inr b) \<longleftrightarrow> 0 \<le> v \<and> v < 256 ^ n"
  by (auto simp: struct_pack_eq_Inr)

lemma code_in_range:
  "0 \<le> protocol_to_bytes p" "protocol_to_bytes p < 256"
  "0 \<le> operation_to_bytes p" "operation_to_bytes p < 256"
  by (auto simp: protocol_to_bytes_def operation_to_bytes_def)

lemma put_opt_text_ok_iff: "(\<exists>b. put_opt_text x = Inr b) \<longleftrightarrow> x = None \<or> text_fits (the x)"
  using put_text_ok_iff by (cases x) auto

lemmas packs = concat_res_ok_Cons concat_res_ok_Nil append_byte_ok_iff struct_pack_ok_iff
  put_text_ok_iff put_opt_text_ok_iff code_in_range

lemma put_endpoint_ok_iff: "(\<exists>b. put_endpoint a p = Inr b) \<longleftrightarrow> endpoint_fits a p"
  by (cases a; cases p) (auto simp: packs endpoint_fits_def port_fits_def split: if_splits simp del: concat_res.simps)

lemma put_json_ok_iff:
  assumes "\<forall>kv\<in>set kvs. flat_entry kv"
  shows "(\<exists>b. put_json (JDict kvs) = Inr b) \<longleftrightarrow> json_fits (JDict kvs)"
  using ascii_json_dumps [OF assms]
  by (simp add: put_json_def utf8_encode_ascii packs json_fits_def del: concat_res.simps json_dumps.simps)


lemma guarded_piece_ok_iff:
  "(\<exists>b. (if c then p else Inr []) = Inr b) \<longleftrightarrow> (c \<longrightarrow> (\<exists>b. p = Inr b))"
  by simp

lemma truthy_iff: "truthy x \<longleftrightarrow> (\<exists>s. x = Some s \<and> s \<noteq> [])"
  by (cases x) auto

fun json_flat :: "message \<Rightarrow> bool" where
  "json_flat (LogMessage level text) = (flat_scalar level \<and> flat_scalar text)"
| "json_flat (PartnersMessage count) = flat_scalar count"
| "json_flat _ = True"

lemma pack_message_ok_iff:
  assumes "json_flat m"
  shows "(\<exists>bs. pack_message gz m = Inr bs) \<longleftrightarrow> packable gz m"
proof (cases m)
  case (ConnectMessage protocol cid address port)
  then show ?thesis
    by (cases address; cases port)
      (auto simp: pack_connect_def packs port_fits_def simp del: concat_res.simps lit_Cons)
next
  case (DataMessage protocol cid data compression address port ta tp)
  then show ?thesis
    by (auto simp: pack_data_def Let_def packs put_endpoint_ok_iff guarded_piece_ok_iff
      simp del: concat_res.simps lit_Cons put_endpoint.simps)
next
  case (LogMessage level msg)
  then have "\<forall>kv\<in>set [(lit ''level'', level), (lit ''msg'', msg)]. flat_entry kv"
    using assms by (auto simp: flat_entry_def valid_char_def is_surrogate_def)
  from put_json_ok_iff [OF this] LogMessage show ?thesis
    by (simp add: pack_log_def packs del: concat_res.simps lit_Cons json_dumps.simps)
next
  case (PartnersMessage count)
  then have "\<forall>kv\<in>set [(lit ''count'', count)]. flat_entry kv"
    using assms by (auto simp: flat_entry_def valid_char_def is_surrogate_def)
  from put_json_ok_iff [OF this] PartnersMessage show ?thesis
    by (simp add: pack_partners_def packs del: concat_res.simps lit_Cons json_dumps.simps)
qed (auto simp: truthy_iff pack_auth_def pack_auth_response_def pack_connect_response_def pack_disconnect_def
  pack_connector_def pack_connector_response_def packs guarded_piece_ok_iff
  simp del: concat_res.simps lit_Cons)

section \<open>Exceptions\<close>

text \<open>
  \<open>fails_in P r\<close>: the computation \<open>r\<close>, if it raises, raises an exception of the class \<open>P\<close>. The rules
  follow the structure of the code, so that a bounds check is available where the access it guards
  is made.
\<close>

definition fails_in :: "(exn \<Rightarrow> bool) \<Rightarrow> 'a res \<Rightarrow> bool" where
  "fails_in P r \<longleftrightarrow> (\<forall>e. r = Inl e \<longrightarrow> P e)"

lemma fails_in_Inr [intro!]: "fails_in P (Inr x)"
  by (simp add: fails_in_def)

lemma fails_in_Inl [intro]: "P e \<Longrightarrow> fails_in P (Inl e)"
  by (simp add: fails_in_def)

lemma fails_in_rbind [intro!]:
  "fails_in P r \<Longrightarrow> (\<And>x. r = Inr x \<Longrightarrow> fails_in P (f x)) \<Longrightarrow> fails_in P (rbind r f)"
  by (cases r) (auto simp: fails_in_def)

lemma fails_in_if [intro!]:
  "(c \<Longrightarrow> fails_in P a) \<Longrightarrow> (\<not> c \<Longrightarrow> fails_in P b) \<Longrightarrow> fails_in P (if c then a else b)"
  by simp

lemma fails_in_let [intro!]: "(\<And>x. x = e \<Longrightarrow> fails_in P (f x)) \<Longrightarrow> fails_in P (let x = e in f x)"
  by simp

lemma fails_in_concat: "(\<And>p. p \<in> set ps \<Longrightarrow> fails_in P p) \<Longrightarrow> fails_in P (concat_res ps)"
  by (induction ps) auto

lemma fails_in_byte_at: "i < length p \<Longrightarrow> fails_in P (byte_at p i)"
  by (simp add: byte_at_ok fails_in_def)

lemma fails_in_struct_unpack: "length bs = n \<Longrightarrow> fails_in P (struct_unpack n bs)"
  by (simp add: fails_in_def)

lemma fails_in_uuid: "length bs = 16 \<Longrightarrow> fails_in P (uuid_of_bytes bs)"
  by (drule uuid_of_bytes_ok) (auto simp: fails_in_def)

lemma fails_in_utf8_decode: "P UnicodeDecodeError \<Longrightarrow> fails_in P (utf8_decode bs)"
  using utf8_decode_error by (auto simp: fails_in_def)

lemma fails_in_json_loads: "P JSONDecodeError \<Longrightarrow> fails_in P (json_loads s)"
  using json_loads_fuel by (auto simp: fails_in_def)

lemma fails_in_utf8_encode: "P UnicodeEncodeError \<Longrightarrow> fails_in P (utf8_encode s)"
  using utf8_encode_error by (auto simp: fails_in_def)

lemma fails_in_json_get: "P AttributeError \<Longrightarrow> fails_in P (json_get v k d)"
  by (cases v) (auto simp: fails_in_def)

lemma fails_in_append_byte: "(\<And>s. P (ValueError s)) \<Longrightarrow> fails_in P (append_byte n)"
  by (auto simp: append_byte_def)

lemma fails_in_struct_pack: "P StructError \<Longrightarrow> fails_in P (struct_pack n v)"
  by (auto simp: struct_pack_def)

lemmas fails_intros = fails_in_byte_at fails_in_struct_unpack fails_in_uuid fails_in_utf8_decode
  fails_in_json_loads fails_in_utf8_encode fails_in_json_get fails_in_append_byte
  fails_in_struct_pack

text \<open>The exceptions parsing can raise, given those of the decompressor.\<close>

definition parse_exn :: "(bytes \<Rightarrow> bytes res) \<Rightarrow> exn \<Rightarrow> bool" where
  "parse_exn gunzip e \<longleftrightarrow> is_value_error e \<or> e = AttributeError \<or> (\<exists>raw. gunzip raw = Inl e)"

lemma parse_exn_simps [simp]:
  "parse_exn gunzip (ValueError s)" "parse_exn gunzip UnicodeDecodeError"
  "parse_exn gunzip JSONDecodeError" "parse_exn gunzip AttributeError"
  by (simp_all add: parse_exn_def)

lemma fails_in_gunzip: "fails_in (parse_exn gunzip) (gunzip raw)"
  by (auto simp: fails_in_def parse_exn_def)

lemma parse_parts_fail:
  "fails_in (parse_exn gunzip) (parse_auth p)"
  "fails_in (parse_exn gunzip) (parse_auth_response p)"
  "fails_in (parse_exn gunzip) (parse_connect p)"
  "fails_in (parse_exn gunzip) (parse_connect_response p)"
  "fails_in (parse_exn gunzip) (parse_disconnect p)"
  "fails_in (parse_exn gunzip) (parse_connector p)"
  "fails_in (parse_exn gunzip) (parse_connector_response p)"
  "fails_in (parse_exn gunzip) (parse_json_body s1 s2 p)"
  unfolding parse_auth_def parse_auth_response_def parse_connect_def parse_connect_response_def
    parse_disconnect_def parse_connector_def parse_connector_response_def parse_json_body_def
  by (auto intro!: fails_intros simp: struct_unpack_eq_Inr)

lemma parse_data_fail: "fails_in (parse_exn gunzip) (parse_data gunzip p)"
  unfolding parse_data_def
  by (auto intro!: fails_intros fails_in_gunzip simp: struct_unpack_eq_Inr)

lemma parse_message_fail: "fails_in (parse_exn gunzip) (parse_message gunzip data)"
  unfolding parse_message_def parse_log_def parse_partners_def
  by (auto intro!: fails_intros parse_parts_fail parse_data_fail)

definition pack_exn :: "exn \<Rightarrow> bool" where
  "pack_exn e \<longleftrightarrow> is_value_error e \<or> e = StructError"

lemma put_text_fail: "fails_in pack_exn (put_text s)"
  unfolding put_text_def by (auto intro!: fails_intros simp: pack_exn_def)

lemma put_opt_text_fail: "fails_in pack_exn (put_opt_text s)"
  by (cases s) (auto intro!: put_text_fail)

lemma put_endpoint_fail: "fails_in pack_exn (put_endpoint a p)"
  unfolding put_endpoint.simps
  by (rule fails_in_concat) (auto intro!: fails_intros put_opt_text_fail simp: pack_exn_def)

lemma put_json_fail: "fails_in pack_exn (put_json v)"
  unfolding put_json_def
  by (auto intro!: fails_intros fails_in_concat simp: pack_exn_def)

lemmas pack_fails = fails_intros put_text_fail put_opt_text_fail put_endpoint_fail put_json_fail

lemma pack_message_fail: "fails_in pack_exn (pack_message gz m)"
  by (cases m)
    (auto intro!: fails_in_concat pack_fails fails_in_Inl simp: pack_exn_def pack_auth_def pack_auth_response_def
      pack_connect_def pack_connect_response_def pack_data_def pack_disconnect_def pack_connector_def
      pack_connector_response_def pack_log_def pack_partners_def Let_def
      simp del: concat_res.simps lit_Cons put_endpoint.simps split: option.splits)

section \<open>Text fields that are not ASCII\<close>

text \<open>
  The length byte of a text field counts characters and the decoder reads that many bytes: the
  decoder gets the text back exactly when it is ASCII.
\<close>

lemma text_field_iff_ascii:
  assumes "utf8_encode s = Inr e"
  shows "utf8_decode (take (length s) e) = Inr s \<longleftrightarrow> ascii s"
proof
  assume "utf8_decode (take (length s) e) = Inr s"
  then have "utf8_encode s = Inr (take (length s) e)"
    by (rule utf8_encode_decode)
  with assms have "length e = min (length s) (length e)"
    by (metis Inr_inject length_take min.commute)
  with utf8_length_ge [OF assms] have "length e = length s" by simp
  with utf8_length_eq_iff [OF assms] show "ascii s" by simp
next
  assume "ascii s"
  with assms show "utf8_decode (take (length s) e) = Inr s"
    by (auto simp: utf8_encode_ascii)
qed

lemma auth_roundtrip_ascii:
  assumes "pack_auth token reverse inst = Inr bs"
  shows "parse_message gunzip bs = Inr (AuthMessage token reverse inst) \<longleftrightarrow> ascii token"
proof
  from assms obtain e where l: "length token < 256" and e: "utf8_encode token = Inr e"
    and bs: "bs = byte_of 1 # byte_of 1 # byte_of (length token) # e @
      [byte_of (if reverse then 1 else 0)] @ uuid_bytes inst"
    by (auto simp: pack_auth_def pack_opens put_text_eq_Inr)
  from utf8_length_ge [OF e] have ge: "length token \<le> length e" .
  assume "parse_message gunzip bs = Inr (AuthMessage token reverse inst)"
  with l ge bs have "utf8_decode (take (length token) e) = Inr token"
    by (auto simp: parse_dispatch parse_auth_def rbind_eq_Inr split: if_splits)
  with text_field_iff_ascii [OF e] show "ascii token" by simp
qed (rule parse_pack_auth [OF assms])

section \<open>Normal forms are what is packed\<close>

lemma truthy_opt_text [simp]: "truthy (opt_text x) = truthy x" "put_opt_text (opt_text x) =
    (if truthy x then put_opt_text x else Inr [])"
  by (cases x; simp add: opt_text_def)+

lemma put_endpoint_norm [simp]:
  "put_endpoint (addr_or_empty a) (port_or_zero p) = put_endpoint a p"
  by (cases a; cases p) (simp_all add: addr_or_empty_def port_or_zero_def)

lemma pack_norm: "pack_message gz (norm_message m) = pack_message gz m"
  by (cases m)
    (auto simp: pack_auth_response_def pack_connect_def pack_connect_response_def pack_data_def
      pack_disconnect_def pack_connector_response_def
      simp del: lit_Cons concat_res.simps put_endpoint.simps)

section \<open>Properties\<close>

text \<open>
  C1. Round trip of the wire protocol: for every message the wire carries (ASCII text fields, a known
  protocol or operation, an error text in a failed connect or connector response), whatever
  \<open>pack_message\<close> writes, \<open>parse_message\<close> reads back as the normal form of the message - every field
  that is transmitted is unchanged, and the fields that are not transmitted are absent - provided
  gzip decompression undoes the compression of a compressed payload.
\<close>

theorem message_roundtrip:
  assumes "wire_ok m" and "gzip_ok gz gunzip m" and "pack_message gz m = Inr bs"
  shows "parse_message gunzip bs = Inr (norm_message m)"
  using msgfmt.dec_enc [of m gz gunzip bs] assms by blast

definition sample_udp :: message where
  "sample_udp = DataMessage (lit ''udp'') 7 [1, 2, 3] DATA_COMPRESSION_GZIP (Some (lit ''10.0.0.1''))
     (Some 53) None None"

theorem message_roundtrip_witness:
  "\<exists>bs. pack_message rev sample_udp = Inr bs \<and>
     parse_message (\<lambda>b. Inr (rev b)) bs = Inr (DataMessage (lit ''udp'') 7 [1, 2, 3] 1
       (Some (lit ''10.0.0.1'')) (Some 53) (Some []) (Some 0))"
proof -
  have "json_flat sample_udp" "packable rev sample_udp"
    by (simp_all add: sample_udp_def endpoint_fits_def text_fits_def port_fits_def valid_char_def
      is_surrogate_def DATA_COMPRESSION_GZIP_def)
  then obtain bs where bs: "pack_message rev sample_udp = Inr bs"
    using pack_message_ok_iff by blast
  have "wire_ok sample_udp" "gzip_ok rev (\<lambda>b. Inr (rev b)) sample_udp"
    by (simp_all add: sample_udp_def ascii_def)
  from message_roundtrip [OF this bs] bs show ?thesis
    by (simp add: sample_udp_def addr_or_empty_def port_or_zero_def DATA_COMPRESSION_GZIP_def)
qed

text \<open>
  C33. Which messages can be packed: \<open>pack_message\<close> succeeds exactly when every transmitted text has at
  most 255 characters and no lone surrogate, every port fits 16 bits, the compression flag fits a
  byte, the payload fits its 32-bit length, and a TCP connect message has an address and a port.
\<close>

theorem pack_message_succeeds_iff:
  assumes "json_flat m"
  shows "(\<exists>bs. pack_message gz m = Inr bs) \<longleftrightarrow> packable gz m"
  using assms by (rule pack_message_ok_iff)

theorem pack_message_succeeds_iff_witness:
  "(\<exists>bs. pack_message id (ConnectMessage (lit ''tcp'') 1 (Some (lit ''a'')) (Some 65535)) = Inr bs) \<and>
   (\<nexists>bs. pack_message id (ConnectMessage (lit ''tcp'') 1 (Some (lit ''a'')) (Some 65536)) = Inr bs)"
  using pack_message_succeeds_iff [of "ConnectMessage (lit ''tcp'') 1 (Some (lit ''a'')) (Some 65535)" id]
    pack_message_succeeds_iff [of "ConnectMessage (lit ''tcp'') 1 (Some (lit ''a'')) (Some 65536)" id]
  by (simp add: text_fits_def port_fits_def valid_char_def is_surrogate_def)

text \<open>
  Relaying is byte exact: packing the normal form of a message (what a receiver parsed) gives the
  same result as packing the message itself, failures included.
\<close>

theorem repack_normal_form: "pack_message gz (norm_message m) = pack_message gz m"
  by (rule pack_norm)


text \<open>
  The text length byte counts characters, not encoded bytes: a packed authentication message is
  parsed back to itself exactly when its token is ASCII.
\<close>

theorem auth_roundtrip_iff_ascii:
  assumes "pack_message gz (AuthMessage token reverse inst) = Inr bs"
  shows "parse_message gunzip bs = Inr (AuthMessage token reverse inst) \<longleftrightarrow> ascii token"
  using assms auth_roundtrip_ascii by simp

theorem auth_roundtrip_iff_ascii_witness:
  "\<exists>bs. pack_message id (AuthMessage [233] True 0) = Inr bs \<and>
     parse_message Inr bs \<noteq> Inr (AuthMessage [233] True 0)"
proof -
  have "packable id (AuthMessage [233] True 0)"
    by (simp add: text_fits_def valid_char_def is_surrogate_def)
  then obtain bs where bs: "pack_message id (AuthMessage [233] True 0) = Inr bs"
    using pack_message_ok_iff [of "AuthMessage [233] True 0" id] by auto
  with auth_roundtrip_iff_ascii [OF bs, of Inr] show ?thesis
    by (auto simp: ascii_def)
qed

text \<open>
  A failure response without an error text cannot be received: \<open>pack_message\<close> accepts a failed
  connect response whose error is absent, and the bytes it writes are refused by \<open>parse_message\<close>.
\<close>

theorem silent_failure_unreadable:
  "rbind (pack_message gz (ConnectResponseMessage False cid None)) (parse_message gunzip) =
     value_error ''Invalid connect response error length''"
proof -
  have "pack_message gz (ConnectResponseMessage False cid None) =
      Inr (byte_of 1 # byte_of 5 # byte_of 0 # uuid_bytes cid)"
    by (simp add: pack_connect_response_def)
  then show ?thesis
    by (simp add: parse_dispatch parse_connect_response_def del: lit_Cons)
qed

end
