(* ===== verification/SocksServer.thy ===== *)
theory SocksServer
  imports Conn Relay Codec
begin

text \<open>
  The SOCKS5 server side of the relay (\<open>_refuse_socks_request\<close> and \<open>_handle_socks_request\<close> of
  \<^verbatim>\<open>pywssocks/relay.py\<close>): method negotiation, user name and password, the request, the connect message to
  the other end, its answer, and the clean-up.

  What the environment contributes is an argument: the fresh channel id, the answer that arrives on
  the channel's queue (\<open>None\<close> is the ten-second timeout), the port of the local UDP socket, what
  happens to the state while the forwarders run, and the text \<^verbatim>\<open>inet_ntop\<close> gives an IPv6 address.
\<close>

section \<open>Method negotiation and authentication\<close>

definition unpack_bytes :: "nat \<Rightarrow> bytes \<Rightarrow> nat list res" where
  "unpack_bytes n data = (if length data = n then Inr (map unat data) else Inl StructError)"

text \<open>
  \<open>True\<close>: the client may send its request; \<open>False\<close>: the handler returns (and the socket is closed).
\<close>

definition socks_login :: "pystr \<Rightarrow> pystr \<Rightarrow> (conn, bool) io" where
  "socks_login socks_username socks_password =
     io_bind recv_byte (\<lambda>auth_version.
     if auth_version \<noteq> 1 then io_return False
     else
       io_bind recv_byte (\<lambda>ulen.
       io_bind (sock_recv ulen) (\<lambda>ub.
       io_bind (io_lift (utf8_decode ub)) (\<lambda>username.
       io_bind recv_byte (\<lambda>plen.
       io_bind (sock_recv plen) (\<lambda>pb.
       io_bind (io_lift (utf8_decode pb)) (\<lambda>password.
       if username \<noteq> socks_username \<or> password \<noteq> socks_password
       then io_bind (sock_sendall [1, 1]) (\<lambda>_. io_return False)
       else io_bind (sock_sendall [1, 0]) (\<lambda>_. io_return True))))))))"

definition socks_negotiate :: "pystr option \<Rightarrow> pystr option \<Rightarrow> (conn, bool) io" where
  "socks_negotiate socks_username socks_password =
     io_bind (sock_recv 2) (\<lambda>data.
     io_bind (io_lift (unpack_bytes 2 data)) (\<lambda>h.
     io_bind (sock_recv (h ! 1)) (\<lambda>methods.
     if truthy socks_username \<and> truthy socks_password then
       (if 2 \<notin> set methods
        then io_bind (sock_sendall [5, 255]) (\<lambda>_. io_return False)
        else io_bind (sock_sendall [5, 2])
          (\<lambda>_. socks_login (the socks_username) (the socks_password)))
     else io_bind (sock_sendall [5, 0]) (\<lambda>_. io_return True))))"

section \<open>The request\<close>

definition socks_command :: "nat \<Rightarrow> pystr option" where
  "socks_command cmd =
     (if cmd = 1 then Some (lit ''tcp'') else if cmd = 3 then Some (lit ''udp'') else None)"

definition inet_ntoa :: "bytes \<Rightarrow> pystr res" where
  "inet_ntoa bs =
     (if length bs = 4
      then Inr (intersperse_str [46] (map (\<lambda>b. int_str (int (unat b))) bs))
      else Inl OSError)"

text \<open>The target of a CONNECT request; \<open>None\<close> for an address type the code does not know.\<close>

definition socks_target ::
    "(bytes \<Rightarrow> pystr res) \<Rightarrow> nat \<Rightarrow> (conn, (pystr \<times> int) option) io" where
  "socks_target inet_ntop6 atyp =
     (let read_port = (\<lambda>target_addr.
        io_bind (sock_recv 2) (\<lambda>port_bytes.
        io_bind (io_lift (struct_unpack 2 port_bytes)) (\<lambda>target_port.
          io_return (Some (target_addr, target_port))))) in
      if atyp = 1 then
        io_bind (sock_recv 4) (\<lambda>addr_bytes. io_bind (io_lift (inet_ntoa addr_bytes)) read_port)
      else if atyp = 3 then
        io_bind recv_byte (\<lambda>addr_len.
        io_bind (sock_recv addr_len) (\<lambda>addr_bytes. io_bind (io_lift (utf8_decode addr_bytes)) read_port))
      else if atyp = 4 then
        io_bind (sock_recv 16) (\<lambda>addr_bytes. io_bind (io_lift (inet_ntop6 addr_bytes)) read_port)
      else io_return None)"

section \<open>The handler\<close>

text \<open>The handler's state: its socket, the relay's channels, and what went out on the WebSocket.\<close>

record socks_env =
  se_conn :: conn
  se_relay :: relay
  se_ws_open :: bool
  se_ws_sent :: "bytes list"

definition on_conn :: "(conn, 'a) io \<Rightarrow> (socks_env, 'a) io" where
  "on_conn m s = (case m (se_conn s) of (r, c) \<Rightarrow> (r, s\<lparr>se_conn := c\<rparr>))"

definition on_relay :: "(relay \<Rightarrow> relay) \<Rightarrow> (socks_env, unit) io" where
  "on_relay f = io_modify (\<lambda>s. s\<lparr>se_relay := f (se_relay s)\<rparr>)"

text \<open>\<^verbatim>\<open>await websocket.send(pack_message(msg))\<close>. No message sent here is compressed.\<close>

definition ws_send :: "message \<Rightarrow> (socks_env, unit) io" where
  "ws_send msg s =
     (case pack_message id msg of
        Inl e \<Rightarrow> (Inl e, s)
      | Inr bs \<Rightarrow>
          (if se_ws_open s then (Inr (), s\<lparr>se_ws_sent := se_ws_sent s @ [bs]\<rparr>)
           else (Inl ConnectionClosed, s)))"

definition socks_reply :: "byte \<Rightarrow> bytes" where
  "socks_reply code = [5, code, 0, 1, 0, 0, 0, 0, 0, 0]"

definition udp_bound_reply :: "nat \<Rightarrow> bytes" where
  "udp_bound_reply bound_port = [5, 0, 0, 1, 127, 0, 0, 1] @ to_be 2 bound_port"

text \<open>
  The two forwarding phases: the queue and the task are registered, the forwarders run, and when one
  of them ends a disconnect message is sent if that is still possible.
\<close>

definition socks_tcp_forward :: "(socks_env \<Rightarrow> socks_env) \<Rightarrow> task \<Rightarrow> uuid \<Rightarrow> (socks_env, unit) io" where
  "socks_tcp_forward forwarding t channel_id =
     io_bind (on_relay (start_socks_tcp_forward (uuid_str channel_id) t)) (\<lambda>_.
     io_bind (io_modify forwarding) (\<lambda>_.
       io_catch (ws_send (DisconnectMessage channel_id None)) (\<lambda>_. io_return ())))"

definition socks_udp_forward :: "(socks_env \<Rightarrow> socks_env) \<Rightarrow> task \<Rightarrow> uuid \<Rightarrow> (socks_env, unit) io" where
  "socks_udp_forward forwarding t channel_id =
     io_bind (on_relay (start_socks_udp_forward (uuid_str channel_id) t)) (\<lambda>_.
     io_bind (io_modify forwarding) (\<lambda>_.
     io_bind (io_catch (ws_send (DisconnectMessage channel_id None)) (\<lambda>_. io_return ())) (\<lambda>_.
       on_relay (\<lambda>r. r\<lparr>udp_client_addrs := dict_del (uuid_str channel_id) (udp_client_addrs r)\<rparr>))))"

text \<open>What the environment contributes to one request.\<close>

record socks_oracle =
  so_connect_id :: uuid
  so_response :: "message option"
  so_bound_port :: nat
  so_task :: task
  so_forwarding :: "socks_env \<Rightarrow> socks_env"
  so_inet_ntop6 :: "bytes \<Rightarrow> pystr res"

definition socks_answer :: "socks_oracle \<Rightarrow> pystr \<Rightarrow> (socks_env, unit) io" where
  "socks_answer ora protocol =
     (case so_response ora of
        None \<Rightarrow> on_conn (sock_sendall (socks_reply 4))
      | Some (ConnectResponseMessage success channel_id error) \<Rightarrow>
          (if \<not> success then on_conn (sock_sendall (socks_reply 4))
           else if protocol = lit ''tcp'' then
             io_bind (on_conn (sock_sendall (socks_reply 0)))
               (\<lambda>_. socks_tcp_forward (so_forwarding ora) (so_task ora) channel_id)
           else
             io_bind (on_conn (sock_sendall (udp_bound_reply (so_bound_port ora))))
               (\<lambda>_. socks_udp_forward (so_forwarding ora) (so_task ora) channel_id))
      | Some _ \<Rightarrow> io_raise (ValueError (lit ''Unexpected response message type'')))"

definition socks_close :: "(socks_env, unit) io" where
  "socks_close = io_modify (\<lambda>s. s\<lparr>se_conn := conn_close (se_conn s)\<rparr>)"

definition socks_body :: "socks_oracle \<Rightarrow> pystr option \<Rightarrow> pystr option \<Rightarrow> (socks_env, unit) io" where
  "socks_body ora socks_username socks_password =
     io_bind (on_conn (socks_negotiate socks_username socks_password)) (\<lambda>authenticated.
     if \<not> authenticated then io_return ()
     else
       io_bind (on_conn (sock_recv 4)) (\<lambda>data.
       io_bind (io_lift (unpack_bytes 4 data)) (\<lambda>h.
       case socks_command (h ! 1) of
         None \<Rightarrow> socks_close
       | Some protocol \<Rightarrow>
           io_bind (on_relay (open_queue (uuid_str (so_connect_id ora)))) (\<lambda>_.
           if protocol = lit ''tcp'' then
             io_bind (on_conn (socks_target (so_inet_ntop6 ora) (h ! 3))) (\<lambda>target.
             case target of
               None \<Rightarrow> socks_close
             | Some (target_addr, target_port) \<Rightarrow>
                 io_bind (ws_send (ConnectMessage protocol (so_connect_id ora) (Some target_addr)
                     (Some target_port)))
                   (\<lambda>_. socks_answer ora protocol))
           else
             io_bind (ws_send (ConnectMessage protocol (so_connect_id ora) None None))
               (\<lambda>_. socks_answer ora protocol)))))"

definition handle_socks_request ::
    "socks_oracle \<Rightarrow> pystr option \<Rightarrow> pystr option \<Rightarrow> socks_env \<Rightarrow> socks_env" where
  "handle_socks_request ora socks_username socks_password s =
     (let s = snd (io_catch (socks_body ora socks_username socks_password)
            (\<lambda>_. io_catch (on_conn (sock_sendall (socks_reply 1))) (\<lambda>_. io_return ())) s);
          s = s\<lparr>se_conn := conn_close (se_conn s)\<rparr>
      in s\<lparr>se_relay := remove_queue (uuid_str (so_connect_id ora)) (se_relay s)\<rparr>)"

text \<open>\<open>_refuse_socks_request\<close>: speak just enough of the protocol to refuse the request.\<close>

definition refuse_socks_request :: "byte \<Rightarrow> (conn, unit) io" where
  "refuse_socks_request reason =
     io_bind (sock_recv 1024) (\<lambda>data.
     if data = [] \<or> hd data \<noteq> 5 then io_return ()
     else
       io_bind (sock_sendall [5, 0]) (\<lambda>_.
       io_bind (sock_recv 1024) (\<lambda>data.
       if length data < 7 then io_return ()
       else sock_sendall (socks_reply reason))))"

section \<open>A well-formed client\<close>

lemma recv_take [simp]:
  "n \<le> length d \<Longrightarrow> sock_recv n (waiting d segs out) = (Inr (take n d), waiting (drop n d) segs out)"
  using recv_waiting [of "take n d" n "drop n d" segs out] by simp

lemma recv_byte_Cons [simp]:
  "recv_byte (waiting (b # r) segs out) = (Inr (unat b), waiting r segs out)"
  by (rule recv_byte_waiting)

lemma sendall_out [simp]:
  "sock_sendall d (waiting r segs out) = (Inr (), waiting r segs (out @ [d]))"
  by (rule sendall_waiting)

lemma negotiate_open:
  assumes "length methods = unat n" "\<not> (truthy u \<and> truthy p)"
  shows "socks_negotiate u p (waiting (v # n # methods @ r) segs out) =
    (Inr True, waiting r segs (out @ [[5, 0]]))"
  using assms by (auto simp: socks_negotiate_def unpack_bytes_def numeral_2_eq_2)

lemma negotiate_login:
  assumes "length methods = unat n" "2 \<in> set methods" "u \<noteq> []" "p \<noteq> []"
    and "utf8_encode u = Inr ub" "utf8_encode p = Inr pb" "length ub < 256" "length pb < 256"
  shows "socks_negotiate (Some u) (Some p)
      (waiting (v # n # methods @ 1 # byte_of (length ub) # ub @ byte_of (length pb) # pb @ r) segs out) =
    (Inr True, waiting r segs (out @ [[5, 2], [1, 0]]))"
proof -
  from assms have "utf8_decode ub = Inr u" "utf8_decode pb = Inr p"
    by (auto dest: utf8_decode_encode)
  with assms show ?thesis
    by (simp add: socks_negotiate_def socks_login_def unpack_bytes_def numeral_2_eq_2)
qed

text \<open>The target of a request, as a client writes it and as the handler names it.\<close>

datatype target = IPv4 bytes | Domain bytes | IPv6 bytes

fun target_bytes :: "target \<Rightarrow> bytes" where
  "target_bytes (IPv4 b) = 1 # b"
| "target_bytes (Domain b) = 3 # byte_of (length b) # b"
| "target_bytes (IPv6 b) = 4 # b"

fun target_ok :: "target \<Rightarrow> bool" where
  "target_ok (IPv4 b) = (length b = 4)"
| "target_ok (Domain b) = (length b < 256)"
| "target_ok (IPv6 b) = (length b = 16)"

fun target_name :: "(bytes \<Rightarrow> pystr res) \<Rightarrow> target \<Rightarrow> pystr res" where
  "target_name ntop6 (IPv4 b) = inet_ntoa b"
| "target_name ntop6 (Domain b) = utf8_decode b"
| "target_name ntop6 (IPv6 b) = ntop6 b"

definition connect_request :: "target \<Rightarrow> int \<Rightarrow> bytes" where
  "connect_request tgt port = [5, 1, 0] @ target_bytes tgt @ to_be 2 (nat port)"

lemma target_read:
  assumes "target_ok tgt" "target_name ntop6 tgt = Inr addr" "0 \<le> port" "port < 65536"
  shows "\<exists>atyp r. target_bytes tgt = atyp # r \<and>
    socks_target ntop6 (unat atyp) (waiting (r @ to_be 2 (nat port) @ rest) segs out) =
      (Inr (Some (addr, port)), waiting rest segs out)"
proof -
  have "int (of_be (to_be 2 (nat port))) = port"
    using assms(3,4) by (simp add: of_be_to_be_small nat_less_iff)
  with assms show ?thesis
    by (cases tgt) (simp_all add: socks_target_def)
qed

definition after_request :: "socks_oracle \<Rightarrow> bytes \<Rightarrow> conn \<Rightarrow> socks_env \<Rightarrow> socks_env" where
  "after_request ora bs c s =
     s\<lparr>se_relay := open_queue (uuid_str (so_connect_id ora)) (se_relay s), se_conn := c,
       se_ws_sent := se_ws_sent s @ [bs]\<rparr>"

lemma body_after_negotiation:
  assumes "socks_negotiate u p (se_conn s) =
      (Inr True, waiting (connect_request tgt port @ rest) segs out)"
    and "target_ok tgt" "target_name (so_inet_ntop6 ora) tgt = Inr addr" "0 \<le> port" "port < 65536"
    and "pack_message id (ConnectMessage (lit ''tcp'') (so_connect_id ora) (Some addr) (Some port)) = Inr bs"
    and "se_ws_open s"
  shows "socks_body ora u p s = socks_answer ora (lit ''tcp'') (after_request ora bs (waiting rest segs out) s)"
proof -
  from target_read [OF assms(2-5)] obtain atyp r where t: "target_bytes tgt = atyp # r"
    "socks_target (so_inet_ntop6 ora) (unat atyp) (waiting (r @ to_be 2 (nat port) @ rest) segs out) =
      (Inr (Some (addr, port)), waiting rest segs out)"
    by blast
  have cmd: "socks_command 1 = Some (lit ''tcp'')" by (simp add: socks_command_def)
  have h: "unpack_bytes 4 [5, 1, 0, atyp] = Inr [5, 1, 0, unat atyp]"
    by (simp add: unpack_bytes_def)
  from assms(1,6,7) t cmd h show ?thesis
    by (simp add: socks_body_def on_conn_def on_relay_def ws_send_def connect_request_def after_request_def
        del: lit_Cons pack_message.simps)
qed


section \<open>Authentication cannot be skipped\<close>

lemma unpack_bytes_Inr: "unpack_bytes n d = Inr h \<longleftrightarrow> length d = n \<and> h = map unat d"
  by (auto simp: unpack_bytes_def)

lemma io_lift_Inr: "io_lift r c = (Inr x, c') \<longleftrightarrow> r = Inr x \<and> c' = c"
  by (auto simp: io_lift_def)

lemma sendall_Inr:
  "sock_sendall d c = (Inr x, c') \<longleftrightarrow> \<not> conn_closed c \<and> \<not> peer_gone c \<and> c' = c\<lparr>outbound := outbound c @ [d]\<rparr>"
  by (auto simp: sock_sendall_def)

text \<open>
  Whatever bytes arrive and however they are segmented: when the login succeeds, the stream held a
  version byte 1 and the two texts, whose decodings are the configured user name and password.
\<close>

lemma login_stream:
  assumes "socks_login u p c = (Inr True, c')"
  shows "\<exists>ul ub pl pb. stream (inbound c) = 1 # ul # ub @ pl # pb @ stream (inbound c') \<and>
    utf8_decode ub = Inr u \<and> utf8_decode pb = Inr p \<and> length ub \<le> unat ul \<and> length pb \<le> unat pl \<and>
    outbound c' = outbound c @ [[1, 0]]"
proof -
  from assms obtain c1 ul c2 ub c3 pl c4 pb c5 where
      "recv_byte c = (Inr 1, c1)" "recv_byte c1 = (Inr ul, c2)" "sock_recv ul c2 = (Inr ub, c3)"
      "recv_byte c3 = (Inr pl, c4)" "sock_recv pl c4 = (Inr pb, c5)"
      "utf8_decode ub = Inr u" "utf8_decode pb = Inr p" and c': "c' = c5\<lparr>outbound := outbound c5 @ [[1, 0]]\<rparr>"
    by (auto simp: socks_login_def io_bind_Inr io_lift_Inr sendall_Inr split: if_splits)
  note s = recv_byte_stream [OF this(1)] recv_byte_stream [OF this(2)] recv_stream [OF this(3)]
    recv_byte_stream [OF this(4)] recv_stream [OF this(5)] this(6,7)
  have "byte_of 1 = 1" by (simp add: byte_of_def)
  with s c' show ?thesis
    by (intro exI [of _ "byte_of ul"] exI [of _ ub] exI [of _ "byte_of pl"] exI [of _ pb]) simp
qed

lemma negotiate_stream:
  assumes "socks_negotiate (Some u) (Some p) c = (Inr True, c')" "u \<noteq> []" "p \<noteq> []"
  shows "\<exists>greeting ul ub pl pb.
    stream (inbound c) = greeting @ 1 # ul # ub @ pl # pb @ stream (inbound c') \<and>
    2 \<in> set (drop 2 greeting) \<and>
    utf8_decode ub = Inr u \<and> utf8_decode pb = Inr p \<and> length ub \<le> unat ul \<and> length pb \<le> unat pl \<and>
    outbound c' = outbound c @ [[5, 2], [1, 0]]"
proof -
  from assms obtain d c1 ms c2 where 1: "sock_recv 2 c = (Inr d, c1)" "length d = 2"
      "sock_recv (unat (d ! 1)) c1 = (Inr ms, c2)" "2 \<in> set ms"
    and 2: "socks_login u p (c2\<lparr>outbound := outbound c2 @ [[5, 2]]\<rparr>) = (Inr True, c')"
    by (auto simp: socks_negotiate_def io_bind_Inr io_lift_Inr sendall_Inr unpack_bytes_Inr split: if_splits)
  from login_stream [OF 2] obtain ul ub pl pb where
      "stream (inbound c2) = 1 # ul # ub @ pl # pb @ stream (inbound c')"
      "utf8_decode ub = Inr u" "utf8_decode pb = Inr p" "length ub \<le> unat ul" "length pb \<le> unat pl"
      "outbound c' = outbound c2 @ [[5, 2], [1, 0]]"
    by auto
  with recv_stream [OF 1(1)] recv_stream [OF 1(3)] 1(2,4) show ?thesis
    by (intro exI [of _ "d @ ms"] exI [of _ ul] exI [of _ ub] exI [of _ pl] exI [of _ pb]) simp
qed


section \<open>What every path of the handler keeps\<close>

text \<open>\<open>io_keeps P m\<close>: the computation keeps \<open>P\<close>, whether it returns or raises.\<close>

definition io_keeps :: "('s \<Rightarrow> bool) \<Rightarrow> ('s, 'a) io \<Rightarrow> bool" where
  "io_keeps P m \<longleftrightarrow> (\<forall>s. P s \<longrightarrow> P (snd (m s)))"

lemma io_keeps_basic:
  "io_keeps P (io_return x)" "io_keeps P (io_raise e)" "io_keeps P (io_lift r)"
  by (simp_all add: io_keeps_def)

lemma io_keeps_bind: "io_keeps P m \<Longrightarrow> (\<And>x. io_keeps P (f x)) \<Longrightarrow> io_keeps P (io_bind m f)"
  unfolding io_keeps_def io_bind_def by (auto split: prod.splits sum.splits)

lemma io_keeps_catch: "io_keeps P m \<Longrightarrow> (\<And>e. io_keeps P (h e)) \<Longrightarrow> io_keeps P (io_catch m h)"
  unfolding io_keeps_def io_catch_def by (auto split: prod.splits sum.splits)

lemma io_keeps_if: "io_keeps P a \<Longrightarrow> io_keeps P b \<Longrightarrow> io_keeps P (if c then a else b)"
  by simp

lemmas io_keeps_rules = io_keeps_basic io_keeps_bind io_keeps_catch io_keeps_if

definition success_told :: "conn \<Rightarrow> bool" where
  "success_told c \<longleftrightarrow> socks_reply 0 \<in> set (outbound c)"

lemma keeps_recv: "io_keeps (\<lambda>c. \<not> success_told c) (sock_recv n)" "io_keeps (\<lambda>c. \<not> success_told c) recv_byte"
proof -
  show "io_keeps (\<lambda>c. \<not> success_told c) (sock_recv n)" for n
    by (auto simp: io_keeps_def sock_recv_def success_told_def split: list.split sum.split)
  then show "io_keeps (\<lambda>c. \<not> success_told c) recv_byte"
    unfolding recv_byte_def by (intro io_keeps_rules)
qed

lemma keeps_send: "d \<noteq> socks_reply 0 \<Longrightarrow> io_keeps (\<lambda>c. \<not> success_told c) (sock_sendall d)"
  by (auto simp: io_keeps_def sock_sendall_def success_told_def)

lemma keeps_negotiate: "io_keeps (\<lambda>c. \<not> success_told c) (socks_negotiate u p)"
  unfolding socks_negotiate_def socks_login_def
  by (intro io_keeps_rules keeps_recv keeps_send) (simp_all add: socks_reply_def)

lemma keeps_target: "io_keeps (\<lambda>c. \<not> success_told c) (socks_target ntop6 atyp)"
  unfolding socks_target_def Let_def
  by (intro io_keeps_rules keeps_recv keeps_send)

text \<open>The state of a request that has not succeeded.\<close>

definition unsuccessful :: "pystr \<Rightarrow> relay \<Rightarrow> socks_env \<Rightarrow> bool" where
  "unsuccessful cid r s \<longleftrightarrow>
     \<not> success_told (se_conn s) \<and> (se_relay s = r \<or> se_relay s = open_queue cid r)"

lemma dict_set_idem: "dict_set k v (dict_set k v d) = dict_set k v d"
  by (induction d) auto

lemma open_queue_idem [simp]: "open_queue c (open_queue c r) = open_queue c r"
  by (simp add: open_queue_def dict_set_idem)

lemma keeps_on_conn:
  "io_keeps (\<lambda>c. \<not> success_told c) m \<Longrightarrow> io_keeps (unsuccessful cid r) (on_conn m)"
proof -
  assume m: "io_keeps (\<lambda>c. \<not> success_told c) m"
  have "unsuccessful cid r (snd (on_conn m s))" if "unsuccessful cid r s" for s
  proof -
    obtain x c where c: "m (se_conn s) = (x, c)" by fastforce
    with m that have "\<not> success_told c"
      unfolding io_keeps_def unsuccessful_def by (metis snd_conv)
    with c that show ?thesis by (simp add: on_conn_def unsuccessful_def)
  qed
  then show ?thesis by (simp add: io_keeps_def)
qed

lemma keeps_ws_send: "io_keeps (unsuccessful cid r) (ws_send m)"
  by (auto simp: io_keeps_def ws_send_def unsuccessful_def split: sum.split)

lemma keeps_open: "io_keeps (unsuccessful cid r) (on_relay (open_queue cid))"
  by (auto simp: io_keeps_def on_relay_def unsuccessful_def)

lemma keeps_close: "io_keeps (unsuccessful cid r) socks_close"
  by (auto simp: io_keeps_def socks_close_def unsuccessful_def success_told_def)

definition reported_success :: "socks_oracle \<Rightarrow> bool" where
  "reported_success ora \<longleftrightarrow> (\<exists>cid e. so_response ora = Some (ConnectResponseMessage True cid e))"

lemma keeps_answer:
  "\<not> reported_success ora \<Longrightarrow> io_keeps (unsuccessful cid r) (socks_answer ora protocol)"
  by (auto simp: socks_answer_def reported_success_def socks_reply_def split: option.split message.split
      intro!: io_keeps_rules keeps_on_conn keeps_send)

lemma keeps_body:
  "\<not> reported_success ora \<Longrightarrow>
     io_keeps (unsuccessful (uuid_str (so_connect_id ora)) r) (socks_body ora u p)"
  unfolding socks_body_def
  by (auto split: option.split prod.split intro!: io_keeps_rules keeps_on_conn keeps_negotiate keeps_recv
      keeps_close keeps_open keeps_target keeps_ws_send keeps_answer simp del: lit_Cons)

section \<open>Properties\<close>

lemma negotiate_relevant:
  assumes "se_ws_sent (handle_socks_request ora u p s) \<noteq> se_ws_sent s"
  shows "\<exists>c. socks_negotiate u p (se_conn s) = (Inr True, c)"
proof (rule ccontr)
  assume no: "\<nexists>c. socks_negotiate u p (se_conn s) = (Inr True, c)"
  obtain r c where "socks_negotiate u p (se_conn s) = (r, c)" by fastforce
  with no have "se_ws_sent (snd (socks_body ora u p s)) = se_ws_sent s" and
    "\<And>e s'. socks_body ora u p s = (Inl e, s') \<Longrightarrow> se_ws_sent s' = se_ws_sent s"
    by (cases r; auto simp: socks_body_def io_bind_def on_conn_def split: prod.splits)+
  then have "se_ws_sent (handle_socks_request ora u p s) = se_ws_sent s"
    unfolding handle_socks_request_def Let_def
    by (auto simp: io_catch_def on_conn_def split: prod.splits sum.splits)
  with assms show False by simp
qed

text \<open>
  A SOCKS5 CONNECT request reaches the other end: when a client without credentials to present
  sends a greeting and a CONNECT request for an IPv4 address, a domain or an IPv6 address (in one
  segment, with anything after it), the handler answers the greeting with "no authentication", opens
  the channel's queue, sends on the WebSocket exactly the connect message for that address and port,
  and goes on to answer with everything else in the stream unread.
\<close>

theorem request_reaches_peer:
  assumes "se_conn s = waiting ([v, n] @ methods @ connect_request tgt port @ rest) segs []"
    and "length methods = unat n" and "\<not> (truthy u \<and> truthy p)"
    and "target_ok tgt" and "target_name (so_inet_ntop6 ora) tgt = Inr addr"
    and "0 \<le> port" and "port < 65536" and "se_ws_open s"
    and "pack_message id (ConnectMessage (lit ''tcp'') (so_connect_id ora) (Some addr) (Some port)) = Inr bs"
  shows "socks_body ora u p s =
    socks_answer ora (lit ''tcp'') (after_request ora bs (waiting rest segs [[5, 0]]) s)"
proof (rule body_after_negotiation)
  show "socks_negotiate u p (se_conn s) = (Inr True, waiting (connect_request tgt port @ rest) segs [[5, 0]])"
    using negotiate_open [OF assms(2,3), of v "connect_request tgt port @ rest" segs "[]"] assms(1) by simp
qed (use assms in auto)

definition sample_oracle :: "message option \<Rightarrow> socks_oracle" where
  "sample_oracle resp = \<lparr>so_connect_id = 9, so_response = resp, so_bound_port = 4000, so_task = 1,
     so_forwarding = id, so_inet_ntop6 = (\<lambda>b. Inr [58, 58])\<rparr>"

definition empty_relay :: relay where
  "empty_relay = \<lparr>message_queues = [], udp_client_addrs = [], tcp_tasks = [], udp_tasks = [],
     connection_success_map = [], done_tasks = {}, cancelled = [], queue_timers = [], rl_clock = 0\<rparr>"

definition sample_env :: "conn \<Rightarrow> socks_env" where
  "sample_env c = \<lparr>se_conn = c, se_relay = empty_relay, se_ws_open = True, se_ws_sent = []\<rparr>"

lemma connect_packs:
  "valid_str a \<Longrightarrow> length a < 256 \<Longrightarrow> 0 \<le> port \<Longrightarrow> port < 65536 \<Longrightarrow>
     \<exists>bs. pack_message id (ConnectMessage (lit ''tcp'') cid (Some a) (Some port)) = Inr bs"
  using pack_message_ok_iff [of "ConnectMessage (lit ''tcp'') cid (Some a) (Some port)" id]
  by (auto simp: text_fits_def port_fits_def)

theorem request_reaches_peer_witness:
  "\<exists>bs. pack_message id (ConnectMessage (lit ''tcp'') 9 (Some (lit ''10.0.0.1'')) (Some 80)) = Inr bs \<and>
    socks_body (sample_oracle None) None None
      (sample_env (waiting ([5, 1, 0] @ connect_request (IPv4 [10, 0, 0, 1]) 80) [] [])) =
    socks_answer (sample_oracle None) (lit ''tcp'')
      (after_request (sample_oracle None) bs (waiting [] [] [[5, 0]])
        (sample_env (waiting ([5, 1, 0] @ connect_request (IPv4 [10, 0, 0, 1]) 80) [] [])))"
proof -
  have n: "target_name (so_inet_ntop6 (sample_oracle None)) (IPv4 [10, 0, 0, 1]) = Inr (lit ''10.0.0.1'')"
    by (simp add: inet_ntoa_def int_str_alt digit_str_def dec_digits.simps)
  obtain bs where bs: "pack_message id (ConnectMessage (lit ''tcp'') 9 (Some (lit ''10.0.0.1'')) (Some 80)) = Inr bs"
    using connect_packs [of "lit ''10.0.0.1''" 80 9] by (auto simp: valid_char_def is_surrogate_def)
  then have "pack_message id (ConnectMessage (lit ''tcp'') (so_connect_id (sample_oracle None))
      (Some (lit ''10.0.0.1'')) (Some 80)) = Inr bs"
    by (simp add: sample_oracle_def)
  from request_reaches_peer [of "sample_env (waiting ([5, 1, 0] @ connect_request (IPv4 [10, 0, 0, 1]) 80) [] [])"
      5 1 "[0]" "IPv4 [10, 0, 0, 1]" 80 "[]" "[]" None None, OF _ _ _ _ n _ _ _ this] bs
  show ?thesis by (simp add: sample_env_def)
qed

text \<open>
  C2. Authentication cannot be bypassed: with a non-empty user name and password configured, if the
  handler sends anything on the WebSocket then - whatever bytes the client sent and however they were
  segmented - the client offered method 2 and its stream contained a login (version 1, user name,
  password) whose texts decode to exactly the configured user name and password.
\<close>

theorem authentication_required:
  assumes "u \<noteq> []" and "p \<noteq> []"
    and "se_ws_sent (handle_socks_request ora (Some u) (Some p) s) \<noteq> se_ws_sent s"
  shows "\<exists>greeting ul ub pl pb rest.
    stream (inbound (se_conn s)) = greeting @ 1 # ul # ub @ pl # pb @ rest \<and> 2 \<in> set (drop 2 greeting) \<and>
    utf8_decode ub = Inr u \<and> utf8_decode pb = Inr p"
proof -
  from negotiate_relevant [OF assms(3)] obtain c
    where "socks_negotiate (Some u) (Some p) (se_conn s) = (Inr True, c)" by blast
  from negotiate_stream [OF this assms(1,2)] show ?thesis by metis
qed

definition login_bytes :: bytes where
  "login_bytes = [5, 1, 2] @ [1, 1, 117, 1, 112] @ connect_request (IPv4 [10, 0, 0, 1]) 80"

lemma lit_10_0_0_1: "inet_ntoa [10, 0, 0, 1] = Inr (lit ''10.0.0.1'')"
  by (simp add: inet_ntoa_def int_str_alt digit_str_def dec_digits.simps)

theorem authentication_required_witness:
  "\<exists>greeting ul ub pl pb rest.
    stream (inbound (waiting login_bytes [] [])) = greeting @ 1 # ul # ub @ pl # pb @ rest \<and>
    2 \<in> set (drop 2 greeting) \<and> utf8_decode ub = Inr [117] \<and> utf8_decode pb = Inr [112]"
proof -
  let ?c = "waiting login_bytes [] []"
  let ?s = "sample_env ?c" and ?ora = "sample_oracle None"
  have "socks_negotiate (Some [117]) (Some [112]) (se_conn ?s) =
      (Inr True, waiting (connect_request (IPv4 [10, 0, 0, 1]) 80 @ []) [] [[5, 2], [1, 0]])"
    using negotiate_login [of "[2]" 1 "[117]" "[112]" "[117]" "[112]" 5 "connect_request (IPv4 [10, 0, 0, 1]) 80" "[]" "[]"]
    by (simp add: sample_env_def login_bytes_def byte_of_def enc_cp_def)
  moreover obtain bs where "pack_message id (ConnectMessage (lit ''tcp'') (so_connect_id ?ora)
      (Some (lit ''10.0.0.1'')) (Some 80)) = Inr bs"
    using connect_packs [of "lit ''10.0.0.1''" 80 "so_connect_id ?ora"] by (auto simp: valid_char_def is_surrogate_def)
  ultimately have "socks_body ?ora (Some [117]) (Some [112]) ?s =
      socks_answer ?ora (lit ''tcp'') (after_request ?ora bs (waiting [] [] [[5, 2], [1, 0]]) ?s)"
    using body_after_negotiation [of "Some [117]" "Some [112]" ?s "IPv4 [10, 0, 0, 1]" 80 "[]" "[]"
        "[[5, 2], [1, 0]]" ?ora "lit ''10.0.0.1''" bs] lit_10_0_0_1
    by (simp add: sample_env_def)
  then have "se_ws_sent (handle_socks_request ?ora (Some [117]) (Some [112]) ?s) \<noteq> se_ws_sent ?s"
    by (simp add: handle_socks_request_def Let_def sample_oracle_def socks_answer_def on_conn_def
        after_request_def sample_env_def)
  from authentication_required [OF _ _ this] show ?thesis
    by (simp add: sample_env_def)
qed



text \<open>
  The handler depends on TCP segmentation: the same CONNECT request for \<open>example.com:80\<close> is
  forwarded as sent when it arrives in one segment, and as a request for host \<open>exa\<close>, port 28016 (the
  bytes "mp") when the network splits it inside the name - a read shorter than the announced length
  is not detected.
\<close>

definition example_request :: bytes where
  "example_request = [5, 1, 0] @ connect_request (Domain (map byte_of (lit ''example.com''))) 80"

lemma recv_short:
  "d \<noteq> [] \<Longrightarrow> length d \<le> k \<Longrightarrow> sock_recv k (waiting d segs out) = (Inr d, waiting [] segs out)"
  by (cases k) (auto simp: sock_recv_def waiting_def)

lemma next_segment: "d \<noteq> [] \<Longrightarrow> waiting [] (Inr d # segs) out = waiting d segs out"
  by (simp add: waiting_def)

lemma fresh_waiting: "d \<noteq> [] \<Longrightarrow> fresh_conn (d # ds) = waiting d (map Inr ds) []"
  by (simp add: fresh_conn_def waiting_def)

lemma unanswered:
  "se_ws_sent (snd (socks_answer (sample_oracle None) protocol s)) = se_ws_sent s"
  by (simp add: socks_answer_def sample_oracle_def on_conn_def split: prod.split)

lemma unanswered_handle:
  assumes "socks_body (sample_oracle None) u p s = socks_answer (sample_oracle None) protocol s'"
    and "se_ws_sent s' = [bs]"
  shows "se_ws_sent (handle_socks_request (sample_oracle None) u p s) = [bs]"
  using assms unanswered [of protocol s']
  by (auto simp: handle_socks_request_def Let_def io_catch_def on_conn_def split: prod.split sum.split)

theorem request_depends_on_segmentation:
  "map Inr (se_ws_sent (handle_socks_request (sample_oracle None) None None
      (sample_env (fresh_conn [example_request])))) =
     [pack_message id (ConnectMessage (lit ''tcp'') 9 (Some (lit ''example.com'')) (Some 80))] \<and>
   map Inr (se_ws_sent (handle_socks_request (sample_oracle None) None None
      (sample_env (fresh_conn [take 11 example_request, drop 11 example_request])))) =
     [pack_message id (ConnectMessage (lit ''tcp'') 9 (Some (lit ''exa'')) (Some 28016))]"
proof
  let ?ora = "sample_oracle None"
  obtain bs where bs: "pack_message id (ConnectMessage (lit ''tcp'') 9 (Some (lit ''example.com'')) (Some 80)) = Inr bs"
    using connect_packs [of "lit ''example.com''" 80 9] by (auto simp: valid_char_def is_surrogate_def)
  let ?s = "sample_env (fresh_conn [example_request])"
  have "socks_body ?ora None None ?s = socks_answer ?ora (lit ''tcp'')
      (after_request ?ora bs (waiting [] [] [[5, 0]]) ?s)"
  proof (rule body_after_negotiation)
    show "socks_negotiate None None (se_conn ?s) =
        (Inr True, waiting (connect_request (Domain (map byte_of (lit ''example.com''))) 80 @ []) [] [[5, 0]])"
      using negotiate_open [of "[0]" 1 None None 5 "connect_request (Domain (map byte_of (lit ''example.com''))) 80" "[]" "[]"]
      by (simp add: sample_env_def fresh_waiting example_request_def)
  qed (use bs in \<open>simp_all add: sample_env_def sample_oracle_def ascii_def del: list.map\<close>)
  from unanswered_handle [OF this, of bs] bs
  show "map Inr (se_ws_sent (handle_socks_request ?ora None None ?s)) =
     [pack_message id (ConnectMessage (lit ''tcp'') 9 (Some (lit ''example.com'')) (Some 80))]"
    by (simp add: after_request_def sample_env_def)
next
  let ?ora = "sample_oracle None"
  obtain bs where bs: "pack_message id (ConnectMessage (lit ''tcp'') 9 (Some (lit ''exa'')) (Some 28016)) = Inr bs"
    using connect_packs [of "lit ''exa''" 28016 9] by (auto simp: valid_char_def is_surrogate_def)
  let ?s = "sample_env (fresh_conn [take 11 example_request, drop 11 example_request])"
  have e: "example_request = [5, 1, 0, 5, 1, 0, 3, 11, 101, 120, 97] @ [109, 112, 108, 101, 46, 99, 111, 109, 0, 80]"
    by (simp add: example_request_def connect_request_def byte_of_def to_be_def numeral_2_eq_2)
  have seg: "se_conn ?s = waiting [5, 1, 0, 5, 1, 0, 3, 11, 101, 120, 97]
      [Inr [109, 112, 108, 101, 46, 99, 111, 109, 0, 80]] []"
    by (simp add: e sample_env_def fresh_waiting)
  have neg: "socks_negotiate None None (se_conn ?s) = (Inr True,
      waiting [5, 1, 0, 3, 11, 101, 120, 97] [Inr [109, 112, 108, 101, 46, 99, 111, 109, 0, 80]] [[5, 0]])"
    using negotiate_open [of "[0]" 1 None None 5 "[5, 1, 0, 3, 11, 101, 120, 97]"] unfolding seg by simp
  have dec: "utf8_decode [101, 120, 97] = Inr (lit ''exa'')"
    using utf8_decode_ascii [of "lit ''exa''"] by (simp add: ascii_def byte_of_def)
  have "of_be [109, 112] = 28016"
    by (simp add: of_be_def of_digits_def)
  then have tgt: "socks_target (so_inet_ntop6 ?ora) 3
      (waiting [11, 101, 120, 97] [Inr [109, 112, 108, 101, 46, 99, 111, 109, 0, 80]] [[5, 0]]) =
      (Inr (Some (lit ''exa'', 28016)), waiting [108, 101, 46, 99, 111, 109, 0, 80] [] [[5, 0]])"
    using dec by (simp add: socks_target_def recv_short next_segment del: lit_Cons)
  have cmd: "socks_command 1 = Some (lit ''tcp'')" by (simp add: socks_command_def)
  have "socks_body ?ora None None ?s = socks_answer ?ora (lit ''tcp'')
      (after_request ?ora bs (waiting [108, 101, 46, 99, 111, 109, 0, 80] [] [[5, 0]]) ?s)"
    using neg tgt cmd bs
    by (simp add: socks_body_def on_conn_def on_relay_def ws_send_def after_request_def unpack_bytes_def
        sample_oracle_def sample_env_def del: lit_Cons pack_message.simps)
  from unanswered_handle [OF this, of bs] bs
  show "map Inr (se_ws_sent (handle_socks_request ?ora None None ?s)) =
     [pack_message id (ConnectMessage (lit ''tcp'') 9 (Some (lit ''exa'')) (Some 28016))]"
    by (simp add: after_request_def sample_env_def)
qed

text \<open>A user name without a password: a client that offers no authentication is accepted.\<close>

lemma username_alone_is_no_authentication:
  "\<not> truthy p \<Longrightarrow>
     socks_negotiate u p (waiting ([5, 1, 0] @ r) segs out) = (Inr True, waiting r segs (out @ [[5, 0]]))"
  using negotiate_open [of "[0]" 1 u p 5 r segs out] by simp

text \<open>
  C40. Early data is lost: messages that are waiting in the channel's queue when the forwarding phase of
  a successful request starts (data the target sent right behind the connect response) are not in the
  queue the forwarder reads - it starts empty, whatever had arrived.
\<close>

theorem early_data_lost:
  assumes "dict_get (message_queues (se_relay s)) (uuid_str cid) = Some early"
  shows "socks_tcp_forward forwarding t cid s =
    socks_tcp_forward forwarding t cid
      (s\<lparr>se_relay := (se_relay s)\<lparr>message_queues :=
        dict_set (uuid_str cid) [] (message_queues (se_relay s))\<rparr>\<rparr>)"
  by (simp add: socks_tcp_forward_def on_relay_def io_bind_def start_socks_tcp_forward_def open_queue_def
      dict_set_idem)

theorem early_data_lost_witness:
  "socks_tcp_forward id 0 9
      ((sample_env (fresh_conn []))\<lparr>se_relay := put_message (uuid_str 9) (PartnersMessage JNull) (open_queue (uuid_str 9) empty_relay)\<rparr>) =
    socks_tcp_forward id 0 9
      ((sample_env (fresh_conn []))\<lparr>se_relay := open_queue (uuid_str 9) empty_relay\<rparr>)"
proof -
  let ?r = "put_message (uuid_str 9) (PartnersMessage JNull) (open_queue (uuid_str 9) empty_relay)"
  have "dict_get (message_queues ?r) (uuid_str 9) = Some [PartnersMessage JNull]"
    by (simp add: put_message_def open_queue_def empty_relay_def)
  with early_data_lost [of "(sample_env (fresh_conn []))\<lparr>se_relay := ?r\<rparr>" 9 "[PartnersMessage JNull]" id 0] show ?thesis
    by (simp add: put_message_def open_queue_def empty_relay_def)
qed

end
