(* ===== verification/Forward.thy ===== *)
theory Forward
  imports SocksServer
begin

text \<open>
  The forwarders of \<^verbatim>\<open>pywssocks/relay.py\<close>: TCP bytes to data messages and back, and SOCKS5 UDP datagrams
  to data messages and back. A forwarder is a loop over what its source delivers; the loops end as the
  code's do, at the end of the stream or with the first exception, which is part of the result.

  \<open>inet_aton\<close> of the C library, which says whether a text is an IPv4 address, is a parameter.
\<close>

section \<open>TCP\<close>

text \<open>
  \<open>_tcp_to_websocket\<close>: the frames sent and how the loop ended. \<open>alive i\<close> says whether the WebSocket
  still accepts the \<open>i\<close>-th frame.
\<close>

definition pending :: "conn \<Rightarrow> nat" where
  "pending c = (\<Sum>x\<leftarrow>inbound c. case x of Inr d \<Rightarrow> Suc (length d) | Inl e \<Rightarrow> 1)"

lemma recv_pending:
  "sock_recv n c = (Inr d, c') \<Longrightarrow> d \<noteq> [] \<Longrightarrow> pending c' < pending c"
  by (auto simp: sock_recv_def pending_def split: if_splits list.splits sum.splits)

definition tcp_data_message :: "uuid \<Rightarrow> bytes \<Rightarrow> message" where
  "tcp_data_message channel_id data =
     DataMessage (lit ''tcp'') channel_id data DATA_COMPRESSION_NONE None None None None"

function tcp_to_websocket ::
    "(nat \<Rightarrow> bool) \<Rightarrow> nat \<Rightarrow> nat \<Rightarrow> uuid \<Rightarrow> conn \<Rightarrow> bytes list \<times> unit res" where
  "tcp_to_websocket alive i buf_size channel_id c =
     (case sock_recv (min buf_size 65535) c of
        (Inl e, c') \<Rightarrow> ([], Inl e)
      | (Inr data, c') \<Rightarrow>
          (if data = [] then ([], Inr ())
           else
             (case pack_message id (tcp_data_message channel_id data) of
                Inl e \<Rightarrow> ([], Inl e)
              | Inr frame \<Rightarrow>
                  (if \<not> alive i then ([], Inl ConnectionClosed)
                   else
                     (case tcp_to_websocket alive (i + 1) buf_size channel_id c' of
                        (frames, r) \<Rightarrow> (frame # frames, r))))))"
  by pat_completeness auto
termination
  by (relation "measure (\<lambda>(alive, i, b, cid, c). pending c)") (auto dest!: recv_pending [OF sym])

declare tcp_to_websocket.simps [simp del]

text \<open>\<open>_websocket_to_tcp\<close> on the messages its queue delivers: everything but data messages is ignored.\<close>

fun websocket_to_tcp :: "message list \<Rightarrow> (conn, unit) io" where
  "websocket_to_tcp [] = io_return ()"
| "websocket_to_tcp (m # ms) =
     (case m of
        DataMessage protocol channel_id data compression address port target_addr target_port \<Rightarrow>
          io_bind (sock_sendall data) (\<lambda>_. websocket_to_tcp ms)
      | _ \<Rightarrow> websocket_to_tcp ms)"

section \<open>UDP\<close>

text \<open>
  The SOCKS5 UDP request header: \<open>None\<close> for a datagram the code ignores (too short, or of an address
  type it does not know), \<open>Inl\<close> for one that ends the forwarder.
\<close>

definition parse_udp_request :: "bytes \<Rightarrow> (pystr \<times> int \<times> bytes) option res" where
  "parse_udp_request data =
     (if length data > 3 then
        rbind (byte_at data 3) (\<lambda>atyp.
        if atyp = 1 then
          rbind (inet_ntoa (slice 4 8 data)) (\<lambda>target_addr.
            Inr (Some (target_addr, int (of_be (slice 8 10 data)), drop 10 data)))
        else if atyp = 3 then
          rbind (byte_at data 4) (\<lambda>addr_len.
          rbind (utf8_decode (slice 5 (5 + addr_len) data)) (\<lambda>target_addr.
            Inr (Some (target_addr, int (of_be (slice (5 + addr_len) (7 + addr_len) data)),
              drop (7 + addr_len) data))))
        else Inr None)
      else Inr None)"

text \<open>
  One round of \<open>_socks_udp_to_websocket\<close>: the client's address is remembered even when the datagram is
  then ignored. UDP data is sent compressed.
\<close>

definition udp_ws_send :: "(bytes \<Rightarrow> bytes) \<Rightarrow> message \<Rightarrow> (socks_env, unit) io" where
  "udp_ws_send gz msg s =
     (case pack_message gz msg of
        Inl e \<Rightarrow> (Inl e, s)
      | Inr bs \<Rightarrow>
          (if se_ws_open s then (Inr (), s\<lparr>se_ws_sent := se_ws_sent s @ [bs]\<rparr>)
           else (Inl ConnectionClosed, s)))"

definition socks_udp_to_websocket ::
    "(bytes \<Rightarrow> bytes) \<Rightarrow> uuid \<Rightarrow> bytes \<Rightarrow> pystr \<times> int \<Rightarrow> (socks_env, unit) io" where
  "socks_udp_to_websocket gz channel_id data addr =
     io_bind (on_relay (\<lambda>r. r\<lparr>udp_client_addrs :=
         dict_set (uuid_str channel_id) addr (udp_client_addrs r)\<rparr>)) (\<lambda>_.
     io_bind (io_lift (parse_udp_request data)) (\<lambda>req.
     case req of
       None \<Rightarrow> io_return ()
     | Some (target_addr, target_port, payload) \<Rightarrow>
         udp_ws_send gz (DataMessage (lit ''udp'') channel_id payload DATA_COMPRESSION_GZIP None None
           (Some target_addr) (Some target_port))))"

text \<open>The header of a datagram that goes back to the SOCKS client.\<close>

definition build_udp_reply :: "(pystr \<Rightarrow> bytes option) \<Rightarrow> pystr \<Rightarrow> int \<Rightarrow> bytes \<Rightarrow> bytes res" where
  "build_udp_reply inet_aton from_addr from_port binary_data =
     rbind (case inet_aton from_addr of
         Some addr_bytes \<Rightarrow> Inr (1 # addr_bytes)
       | None \<Rightarrow>
           rbind (utf8_encode from_addr) (\<lambda>domain_bytes.
             rbind (append_byte (int (length domain_bytes))) (\<lambda>l. Inr (3 # l @ domain_bytes))))
       (\<lambda>address. rbind (int_to_bytes 2 from_port) (\<lambda>port.
         Inr ([0, 0, 0] @ address @ port @ binary_data)))"

text \<open>
  One round of \<open>_websocket_to_socks_udp\<close>: the datagram sent and to whom, or nothing when the message
  is not data, has no sender, or the client's address is not known.
\<close>

definition websocket_to_socks_udp ::
    "(pystr \<Rightarrow> bytes option) \<Rightarrow> pystr \<Rightarrow> message \<Rightarrow> relay \<Rightarrow> (bytes \<times> pystr \<times> int) option res" where
  "websocket_to_socks_udp inet_aton channel_id msg r =
     (case msg of
        DataMessage protocol cid binary_data compression from_addr from_port target_addr target_port \<Rightarrow>
          (case (from_addr, from_port) of
             (Some a, Some p) \<Rightarrow>
               rbind (build_udp_reply inet_aton a p binary_data) (\<lambda>packet.
                 Inr (case dict_get (udp_client_addrs r) channel_id of
                   None \<Rightarrow> None
                 | Some addr \<Rightarrow> Some (packet, addr)))
           | _ \<Rightarrow> Inr None)
      | _ \<Rightarrow> Inr None)"

text \<open>
  The other end of a UDP channel: \<open>_udp_to_websocket\<close> wraps a datagram with its sender's address, and
  \<open>_websocket_to_udp\<close> sends the payload to the target the message names.
\<close>

definition udp_data_message :: "uuid \<Rightarrow> bytes \<Rightarrow> pystr \<times> int \<Rightarrow> message" where
  "udp_data_message channel_id data addr =
     DataMessage (lit ''udp'') channel_id data DATA_COMPRESSION_NONE (Some (fst addr)) (Some (snd addr))
       None None"

definition udp_to_websocket :: "uuid \<Rightarrow> bytes \<Rightarrow> pystr \<times> int \<Rightarrow> (socks_env, unit) io" where
  "udp_to_websocket channel_id data addr = ws_send (udp_data_message channel_id data addr)"

definition websocket_to_udp :: "message \<Rightarrow> (bytes \<times> pystr option \<times> int option) option" where
  "websocket_to_udp msg =
     (case msg of
        DataMessage protocol cid binary_data compression address port target_addr target_port \<Rightarrow>
          Some (binary_data, target_addr, target_port)
      | _ \<Rightarrow> None)"

text \<open>\<open>_monitor_socks_tcp\<close>: it reads and discards until the client closes its control connection.\<close>

function monitor_socks_tcp :: "conn \<Rightarrow> unit res \<times> conn" where
  "monitor_socks_tcp c =
     (case sock_recv 1 c of
        (Inl e, c') \<Rightarrow> (Inl e, c')
      | (Inr data, c') \<Rightarrow> (if data = [] then (Inr (), c') else monitor_socks_tcp c'))"
  by pat_completeness auto
termination
  by (relation "measure pending") (auto dest!: recv_pending [OF sym])

declare monitor_socks_tcp.simps [simp del]

section \<open>TCP is transparent\<close>

lemma tcp_data_ok:
  assumes "length data \<le> 65535"
  shows "\<exists>frame. pack_message id (tcp_data_message cid data) = Inr frame \<and>
    parse_message gunzip frame = Inr (tcp_data_message cid data)"
proof -
  have "packable id (tcp_data_message cid data)"
    using assms by (simp add: tcp_data_message_def DATA_COMPRESSION_NONE_def DATA_COMPRESSION_GZIP_def)
  then obtain frame where f: "pack_message id (tcp_data_message cid data) = Inr frame"
    using pack_message_ok_iff [of "tcp_data_message cid data" id] by (auto simp: tcp_data_message_def)
  have "parse_message gunzip frame = Inr (norm_message (tcp_data_message cid data))"
    by (rule parse_pack_message [OF _ _ f])
      (simp_all add: tcp_data_message_def DATA_COMPRESSION_NONE_def DATA_COMPRESSION_GZIP_def)
  with f show ?thesis by (simp add: tcp_data_message_def)
qed

text \<open>The data a list of messages carries.\<close>

definition payload :: "message \<Rightarrow> bytes" where
  "payload m = (case m of DataMessage p c data z a b ta tb \<Rightarrow> data | _ \<Rightarrow> [])"

definition healthy :: "conn \<Rightarrow> bool" where
  "healthy c \<longleftrightarrow> \<not> conn_closed c \<and> (\<forall>x\<in>set (inbound c). \<exists>d. x = Inr d \<and> d \<noteq> [])"

lemma payload_data [simp]: "payload (DataMessage p c data z a b ta tb) = data"
  by (simp add: payload_def)

lemma recv_healthy:
  assumes "healthy c" "sock_recv n c = (r, c')" "0 < n"
  shows "healthy c' \<and> (\<exists>d. r = Inr d \<and> (d = [] \<longrightarrow> stream (inbound c) = []) \<and> length d \<le> n)"
  using assms by (auto simp: sock_recv_def healthy_def split: if_splits list.splits sum.splits)

lemma tcp_to_websocket_lossless:
  assumes "healthy c" "0 < buf" "\<forall>j. alive j"
  shows "snd (tcp_to_websocket alive i buf cid c) = Inr () \<and>
    (\<exists>ms. map (parse_message gunzip) (fst (tcp_to_websocket alive i buf cid c)) = map Inr ms \<and>
      concat (map payload ms) = stream (inbound c) \<and>
      (\<forall>m\<in>set ms. \<exists>data. m = tcp_data_message cid data \<and> length data \<le> buf))"
  using assms(1)
proof (induction "pending c" arbitrary: c i rule: less_induct)
  case less
  let ?n = "min buf 65535"
  obtain r c' where r: "sock_recv ?n c = (r, c')" by fastforce
  with recv_healthy [OF less.prems r] assms(2) obtain d
    where d: "r = Inr d" "d = [] \<longrightarrow> stream (inbound c) = []" "length d \<le> ?n" and h: "healthy c'"
    by auto
  show ?case
  proof (cases "d = []")
    case True
    with r d show ?thesis
      by (subst tcp_to_websocket.simps, subst tcp_to_websocket.simps) simp
  next
    case False
    from d(3) have len: "length d \<le> 65535" "length d \<le> buf" by simp_all
    from tcp_data_ok [OF len(1), of cid gunzip] obtain frame
      where f: "pack_message id (tcp_data_message cid d) = Inr frame"
        "parse_message gunzip frame = Inr (tcp_data_message cid d)" by blast
    from recv_pending [OF r [unfolded d(1)] False] have "pending c' < pending c" .
    from less.hyps [OF this h, of "i + 1"] obtain ms where ms:
      "snd (tcp_to_websocket alive (i + 1) buf cid c') = Inr ()"
      "map (parse_message gunzip) (fst (tcp_to_websocket alive (i + 1) buf cid c')) = map Inr ms"
      "concat (map payload ms) = stream (inbound c')"
      "\<forall>m\<in>set ms. \<exists>data. m = tcp_data_message cid data \<and> length data \<le> buf"
      by blast
    have step: "tcp_to_websocket alive i buf cid c =
        (frame # fst (tcp_to_websocket alive (i + 1) buf cid c'), Inr ())"
      using r d(1) False f(1) ms(1) assms(3)
      by (subst tcp_to_websocket.simps) (simp add: split_def)
    from recv_stream [OF r [unfolded d(1)]] have "stream (inbound c) = d @ stream (inbound c')" by simp
    with ms f(2) len(2) show ?thesis
      unfolding step
      by (intro conjI exI [of _ "tcp_data_message cid d # ms"])
        (auto simp: tcp_data_message_def)
  qed
qed

lemma websocket_to_tcp_sends:
  assumes "\<forall>m\<in>set ms. \<exists>data. m = tcp_data_message cid data" "\<not> conn_closed c" "\<not> peer_gone c"
  shows "\<exists>c'. websocket_to_tcp ms c = (Inr (), c') \<and>
    concat (outbound c') = concat (outbound c) @ concat (map payload ms)"
  using assms
proof (induction ms arbitrary: c)
  case (Cons m ms)
  then obtain data where m: "m = tcp_data_message cid data" by auto
  let ?c = "c\<lparr>outbound := outbound c @ [data]\<rparr>"
  from Cons.IH [of ?c] Cons.prems obtain c' where "websocket_to_tcp ms ?c = (Inr (), c')"
    "concat (outbound c') = concat (outbound ?c) @ concat (map payload ms)" by auto
  with m Cons.prems show ?case
    by (simp add: tcp_data_message_def sock_sendall_def)
qed simp

section \<open>UDP headers\<close>

lemma to_be_2: "length (to_be 2 n) = 2" by simp

lemma udp_reply_ipv4:
  assumes "inet_aton a = Some b" "inet_ntoa b = Inr a" "0 \<le> p" "p < 65536"
  shows "\<exists>packet. build_udp_reply inet_aton a p data = Inr packet \<and>
    parse_udp_request packet = Inr (Some (a, p, data))"
proof -
  from assms(2) have b: "length b = 4" by (simp add: inet_ntoa_def split: if_splits)
  have "of_be (to_be 2 (nat p)) = nat p"
    using assms(3,4) by (simp add: of_be_to_be_small nat_less_iff)
  with assms b show ?thesis
    by (simp add: build_udp_reply_def int_to_bytes_def parse_udp_request_def)
qed

lemma udp_reply_domain:
  assumes "inet_aton a = None" "utf8_encode a = Inr e" "length e < 256" "0 \<le> p" "p < 65536"
  shows "\<exists>packet. build_udp_reply inet_aton a p data = Inr packet \<and>
    parse_udp_request packet = Inr (Some (a, p, data))"
proof -
  have "of_be (to_be 2 (nat p)) = nat p"
    using assms(4,5) by (simp add: of_be_to_be_small nat_less_iff)
  with assms utf8_decode_encode [OF assms(2)] show ?thesis
    by (simp add: build_udp_reply_def int_to_bytes_def parse_udp_request_def drop_Cons')
qed

section \<open>Properties\<close>

text \<open>
  The TCP relay is transparent: however the sender's bytes are segmented, the frames the sending
  side packs are parsed by the receiving side into data messages of the same channel, none larger than
  the buffer, and writing those messages in order puts exactly the sender's byte stream on the
  receiving socket; the loop ends normally at the end of the stream.
\<close>

theorem tcp_relay_transparent:
  assumes "healthy c" and "0 < buf_size" and "\<forall>j. alive j" and "\<not> conn_closed out" and "\<not> peer_gone out"
  shows "\<exists>frames ms out'.
    tcp_to_websocket alive 0 buf_size cid c = (frames, Inr ()) \<and>
    map (parse_message gunzip) frames = map Inr ms \<and>
    (\<forall>m\<in>set ms. msg_channel_id m = cid \<and> length (msg_data m) \<le> buf_size) \<and>
    websocket_to_tcp ms out = (Inr (), out') \<and>
    concat (outbound out') = concat (outbound out) @ stream (inbound c)"
proof -
  define frames where "frames = fst (tcp_to_websocket alive 0 buf_size cid c)"
  from tcp_to_websocket_lossless [OF assms(1-3), where i = 0 and cid = cid and gunzip = gunzip]
  have res: "tcp_to_websocket alive 0 buf_size cid c = (frames, Inr ())"
    by (simp add: frames_def prod_eq_iff)
  from tcp_to_websocket_lossless [OF assms(1-3), where i = 0 and cid = cid and gunzip = gunzip]
  obtain ms where ms: "map (parse_message gunzip) frames = map Inr ms"
    "concat (map payload ms) = stream (inbound c)"
    and each: "\<forall>m\<in>set ms. \<exists>data. m = tcp_data_message cid data \<and> length data \<le> buf_size"
    unfolding frames_def by blast
  from each have "\<forall>m\<in>set ms. \<exists>data. m = tcp_data_message cid data" by blast
  from websocket_to_tcp_sends [OF this assms(4,5)] obtain out' where
    out: "websocket_to_tcp ms out = (Inr (), out')"
      "concat (outbound out') = concat (outbound out) @ concat (map payload ms)"
    by blast
  from each have "\<forall>m\<in>set ms. msg_channel_id m = cid \<and> length (msg_data m) \<le> buf_size"
    by (auto simp: tcp_data_message_def)
  with res ms out show ?thesis by auto
qed

theorem tcp_relay_transparent_witness:
  "\<exists>frames ms out'.
    tcp_to_websocket (\<lambda>_. True) 0 2 5 (fresh_conn [[1, 2, 3], [4]]) = (frames, Inr ()) \<and>
    map (parse_message Inr) frames = map Inr ms \<and>
    websocket_to_tcp ms (fresh_conn []) = (Inr (), out') \<and> concat (outbound out') = [1, 2, 3, 4]"
proof -
  have "healthy (fresh_conn [[1, 2, 3], [4]])" "\<not> conn_closed (fresh_conn [])" "\<not> peer_gone (fresh_conn [])"
    by (simp_all add: healthy_def fresh_conn_def)
  from tcp_relay_transparent [of _ 2 "\<lambda>_. True" _ 5 Inr, OF this(1) _ _ this(2,3)] show ?thesis
    by (force simp: fresh_conn_def)
qed

text \<open>
  UDP headers round-trip: the datagram built for the SOCKS client from a sender's address, port
  and payload is one that the code's own header parser reads back as that address, port and payload,
  for an IPv4 text in canonical form and for any other name of at most 255 bytes.
\<close>

theorem udp_header_roundtrip:
  assumes "0 \<le> p" and "p < 65536"
    and "case inet_aton a of Some b \<Rightarrow> inet_ntoa b = Inr a
      | None \<Rightarrow> \<exists>e. utf8_encode a = Inr e \<and> length e < 256"
  shows "rbind (build_udp_reply inet_aton a p data) parse_udp_request = Inr (Some (a, p, data))"
proof (cases "inet_aton a")
  case None
  with assms obtain e where "utf8_encode a = Inr e" "length e < 256" by auto
  with udp_reply_domain [of inet_aton a e p data] None assms(1,2) show ?thesis by auto
next
  case (Some b)
  with assms have "inet_ntoa b = Inr a" by simp
  with udp_reply_ipv4 [of inet_aton a b p data] Some assms(1,2) show ?thesis by auto
qed

theorem udp_header_roundtrip_witness:
  "rbind (build_udp_reply (\<lambda>t. if t = lit ''10.0.0.1'' then Some [10, 0, 0, 1] else None)
      (lit ''10.0.0.1'') 53 [7, 8]) parse_udp_request = Inr (Some (lit ''10.0.0.1'', 53, [7, 8]))"
proof (rule udp_header_roundtrip)
  show "case if lit ''10.0.0.1'' = lit ''10.0.0.1'' then Some [10, 0, 0, 1] else None of
      Some b \<Rightarrow> inet_ntoa b = Inr (lit ''10.0.0.1'')
    | None \<Rightarrow> \<exists>e. utf8_encode (lit ''10.0.0.1'') = Inr e \<and> length e < 256"
    by (simp add: lit_10_0_0_1 del: lit_Cons)
qed simp_all

text \<open>
  A malformed datagram ends the UDP association: a datagram of exactly four bytes that announces a
  domain name makes the forwarder raise \<open>IndexError\<close> - unlike shorter datagrams and unknown address
  types, which it ignores.
\<close>

theorem truncated_datagram_ends_forwarder:
  "fst (socks_udp_to_websocket gz cid [0, 0, 0, 3] addr s) = Inl IndexError \<and>
   fst (socks_udp_to_websocket gz cid [0, 0, 0] addr s) = Inr () \<and>
   fst (socks_udp_to_websocket gz cid [0, 0, 0, 9] addr s) = Inr ()"
  by (simp add: socks_udp_to_websocket_def on_relay_def parse_udp_request_def byte_at_def index_res_def)

end
