(* ===== verification/PyText.thy ===== *)
theory PyText
  imports Json
begin

text \<open>
  The text functions of Python's library that the proxy code uses: \<^verbatim>\<open>str.split\<close> with a separator and an
  optional maximum, \<^verbatim>\<open>int(text)\<close> for decimal literals in ASCII digits, lenient UTF-8 decoding
  (\<^verbatim>\<open>errors="ignore"\<close>), \<^verbatim>\<open>base64.b64encode\<close>, and the text of an exception.
\<close>

section \<open>Splitting\<close>

fun split_first :: "pystr \<Rightarrow> pystr \<Rightarrow> (pystr \<times> pystr) option" where
  "split_first sep [] = None"
| "split_first sep (c # cs) =
     (if take (length sep) (c # cs) = sep then Some ([], drop (length sep) (c # cs))
      else case split_first sep cs of
        None \<Rightarrow> None
      | Some (a, b) \<Rightarrow> Some (c # a, b))"

fun split_max :: "nat \<Rightarrow> pystr \<Rightarrow> pystr \<Rightarrow> pystr list" where
  "split_max 0 sep s = [s]"
| "split_max (Suc n) sep s =
     (case split_first sep s of
        None \<Rightarrow> [s]
      | Some (a, b) \<Rightarrow> a # split_max n sep b)"

definition split_all :: "pystr \<Rightarrow> pystr \<Rightarrow> pystr list" where
  "split_all sep s = split_max (length s) sep s"

lemma split_first_eq: "split_first sep s = Some (a, b) \<Longrightarrow> s = a @ sep @ b"
proof (induction s arbitrary: a)
  case (Cons c s)
  show ?case
  proof (cases "take (length sep) (c # s) = sep")
    case True
    with Cons.prems show ?thesis using append_take_drop_id [of "length sep" "c # s"] by auto
  next
    case False
    with Cons show ?thesis by (auto split: option.splits)
  qed
qed simp

lemma split_first_char:
  "split_first [x] s = (if x \<in> set s then Some (takeWhile (\<lambda>c. c \<noteq> x) s, tl (dropWhile (\<lambda>c. c \<noteq> x) s)) else None)"
  by (induction s) auto

lemma split_max_join: "intersperse_str sep (split_max n sep s) = s"
proof (induction n sep s rule: split_max.induct)
  case (2 n sep s)
  show ?case
  proof (cases "split_first sep s")
    case (Some ab)
    then obtain a b where ab: "split_first sep s = Some (a, b)" by (cases ab) auto
    have "split_max n sep b \<noteq> []" by (cases n) (auto split: option.split prod.split)
    then have "intersperse_str sep (a # split_max n sep b) = a @ sep @ intersperse_str sep (split_max n sep b)"
      by (cases "split_max n sep b") auto
    with ab 2 split_first_eq [OF ab] show ?thesis by simp
  qed simp
qed simp

lemma split_max_length: "length (split_max n sep s) \<le> Suc n"
  by (induction n sep s rule: split_max.induct) (auto split: option.split)

section \<open>Integers\<close>

definition is_space :: "nat \<Rightarrow> bool" where
  "is_space c \<longleftrightarrow>
     9 \<le> c \<and> c \<le> 13 \<or> 28 \<le> c \<and> c \<le> 32 \<or> c = 0x85 \<or> c = 0xA0 \<or> c = 0x1680 \<or>
     0x2000 \<le> c \<and> c \<le> 0x200A \<or> c = 0x2028 \<or> c = 0x2029 \<or> c = 0x202F \<or> c = 0x205F \<or> c = 0x3000"

definition strip :: "pystr \<Rightarrow> pystr" where
  "strip s = rev (dropWhile is_space (rev (dropWhile is_space s)))"

text \<open>Digits, with single underscores between them.\<close>

fun int_digits :: "bool \<Rightarrow> pystr \<Rightarrow> nat list option" where
  "int_digits after_digit [] = (if after_digit then Some [] else None)"
| "int_digits after_digit (c # cs) =
     (if 48 \<le> c \<and> c \<le> 57 then
        (case int_digits True cs of None \<Rightarrow> None | Some ds \<Rightarrow> Some ((c - 48) # ds))
      else if c = 95 \<and> after_digit \<and> cs \<noteq> [] then int_digits False cs
      else None)"

definition py_int :: "pystr \<Rightarrow> int res" where
  "py_int s =
     (let t = strip s;
          neg = (t \<noteq> [] \<and> hd t = 45);
          u = (if t \<noteq> [] \<and> (hd t = 45 \<or> hd t = 43) then tl t else t) in
      case int_digits False u of
        None \<Rightarrow> Inl (ValueError (lit ''invalid literal for int() with base 10: '' @ s))
      | Some ds \<Rightarrow> Inr ((if neg then - 1 else 1) * int (of_digits 10 ds)))"

lemma int_digits_digits:
  "\<forall>d\<in>set ds. d < 10 \<Longrightarrow> int_digits b (map (\<lambda>d. 48 + d) ds) = (if b \<or> ds \<noteq> [] then Some ds else None)"
  by (induction ds arbitrary: b) auto

lemma digit_not_space: "is_digit c \<Longrightarrow> \<not> is_space c"
  unfolding is_digit_def is_space_def by linarith

lemma strip_digits: "\<forall>c\<in>set s. \<not> is_space c \<Longrightarrow> strip s = s"
proof -
  assume a: "\<forall>c\<in>set s. \<not> is_space c"
  have id: "dropWhile is_space t = t" if "\<forall>c\<in>set t. \<not> is_space c" for t
    using that by (cases t) auto
  from a show ?thesis by (simp add: strip_def id)
qed

lemma py_int_digit_str [simp]: "py_int (digit_str n) = Inr (int n)"
proof -
  have ds: "\<forall>d\<in>set (dec_digits n). d < 10" "dec_digits n \<noteq> []" "of_digits 10 (dec_digits n) = n"
    using dec_digits_facts [of n] by auto
  have "\<forall>c\<in>set (digit_str n). \<not> is_space c"
    using digit_str_facts(2) [of _ n] digit_not_space by blast
  from strip_digits [OF this] have s: "strip (digit_str n) = digit_str n" .
  have hd: "hd (digit_str n) \<noteq> 45 \<and> hd (digit_str n) \<noteq> 43"
    using hd_digit_str [of n] by (auto simp: is_digit_def)
  from ds int_digits_digits [of "dec_digits n" False] s hd show ?thesis
    by (simp add: py_int_def Let_def digit_str_def)
qed

section \<open>Lenient decoding\<close>

text \<open>
  With \<^verbatim>\<open>errors="ignore"\<close> a byte that starts no valid sequence is dropped; dropping byte by byte gives
  the same text as dropping maximal invalid parts, since the rest of such a part consists of
  continuation bytes.
\<close>

function utf8_decode_ignore :: "bytes \<Rightarrow> pystr" where
  "utf8_decode_ignore bs =
     (if bs = [] then []
      else case dec_cp bs of
        None \<Rightarrow> utf8_decode_ignore (tl bs)
      | Some (c, r) \<Rightarrow> c # utf8_decode_ignore r)"
  by pat_completeness auto
termination
  by (relation "measure length") (auto intro: dec_cp_shorter)

declare utf8_decode_ignore.simps [simp del]

lemma utf8_decode_ignore_valid: "utf8_decode bs = Inr s \<Longrightarrow> utf8_decode_ignore bs = s"
proof (induction bs arbitrary: s rule: utf8_decode.induct)
  case (1 bs)
  then show ?case
    by (subst utf8_decode_ignore.simps, subst (asm) (2) utf8_decode.simps)
      (auto simp: rbind_eq_Inr split: if_splits option.splits)
qed

section \<open>Base 64\<close>

definition b64_char :: "nat \<Rightarrow> nat" where
  "b64_char n =
     (if n < 26 then 65 + n else if n < 52 then 97 + (n - 26) else if n < 62 then 48 + (n - 52)
      else if n = 62 then 43 else 47)"

fun b64encode :: "bytes \<Rightarrow> pystr" where
  "b64encode [] = []"
| "b64encode [a] =
     (let v = unat a * 16 in [b64_char (v div 64), b64_char (v mod 64), 61, 61])"
| "b64encode [a, b] =
     (let v = (unat a * 256 + unat b) * 4 in
      [b64_char (v div 4096), b64_char (v div 64 mod 64), b64_char (v mod 64), 61])"
| "b64encode (a # b # c # r) =
     (let v = unat a * 65536 + unat b * 256 + unat c in
      [b64_char (v div 262144), b64_char (v div 4096 mod 64), b64_char (v div 64 mod 64),
       b64_char (v mod 64)] @ b64encode r)"

section \<open>Exception texts\<close>

text \<open>
  \<^verbatim>\<open>str(e)\<close>: the message given when the exception was raised; what the library puts into its own
  exceptions is the parameter \<open>lib_text\<close>.
\<close>

fun exn_text :: "(exn \<Rightarrow> pystr) \<Rightarrow> exn \<Rightarrow> pystr" where
  "exn_text lib_text (ValueError s) = s"
| "exn_text lib_text (RuntimeError s) = s"
| "exn_text lib_text (GenericException s) = s"
| "exn_text lib_text e = lib_text e"

end
