(* ===== verification/Upstream.thy ===== *)
theory Upstream
  imports Forward PyText
begin

text \<open>
  Outgoing connections of the relay (\<^verbatim>\<open>pywssocks/relay.py\<close>): the SOCKS5 and HTTP CONNECT clients for an
  upstream proxy, and the handlers of a connect message, which open the target connection, report
  the outcome, forward, and clean up.

  Opening a TCP connection over IPv6 or IPv4, \<^verbatim>\<open>inet_aton\<close>, \<^verbatim>\<open>inet_pton\<close> and \<^verbatim>\<open>getaddrinfo\<close> belong to the
  operating system and are parameters (the record \<open>os_net\<close>); so is the text of the library's own
  exceptions.
\<close>

section \<open>Configuration\<close>

record upstream_config =
  up_proxy :: "pystr option"
  up_username :: "pystr option"
  up_password :: "pystr option"
  up_type :: "pystr option"

text \<open>The operating system and the C library, as the code uses them.\<close>

datatype addr_family = AF_INET | AF_INET6

record os_net =
  sock_connect :: "addr_family \<Rightarrow> pystr \<Rightarrow> int \<Rightarrow> conn res"
  os_inet_aton :: "pystr \<Rightarrow> bytes option"
  os_inet_pton4 :: "pystr \<Rightarrow> bytes option"
  os_inet_pton6 :: "pystr \<Rightarrow> bytes option"
  getaddrinfo :: "pystr \<Rightarrow> int \<Rightarrow> (addr_family \<times> pystr) res"
  lib_text :: "exn \<Rightarrow> pystr"

definition raise_text :: "string \<Rightarrow> ('s, 'a) io" where
  "raise_text t = io_raise (GenericException (lit t))"

definition raise_with_int :: "string \<Rightarrow> nat \<Rightarrow> ('s, 'a) io" where
  "raise_with_int t n = io_raise (GenericException (lit t @ int_str (int n)))"

text \<open>\<^verbatim>\<open>host, port = proxy.split(":"); port = int(port)\<close>\<close>

definition proxy_endpoint :: "pystr \<Rightarrow> (pystr \<times> int) res" where
  "proxy_endpoint proxy =
     (case split_all (lit '':'') proxy of
        [host, port] \<Rightarrow> rbind (py_int port) (\<lambda>p. Inr (host, p))
      | [x] \<Rightarrow> value_error ''not enough values to unpack (expected 2, got 1)''
      | _ \<Rightarrow> value_error ''too many values to unpack (expected 2)'')"

definition dial_proxy :: "os_net \<Rightarrow> pystr \<Rightarrow> int \<Rightarrow> conn res" where
  "dial_proxy os host port =
     (case sock_connect os AF_INET6 host port of
        Inr c \<Rightarrow> Inr c
      | Inl e \<Rightarrow> sock_connect os AF_INET host port)"

section \<open>SOCKS5\<close>

definition socks5_auth_request :: "pystr \<Rightarrow> pystr \<Rightarrow> bytes res" where
  "socks5_auth_request username password = concat_res [Inr [1], put_text username, put_text password]"

definition socks5_address :: "os_net \<Rightarrow> pystr \<Rightarrow> bytes res" where
  "socks5_address os target_addr =
     (case os_inet_aton os target_addr of
        Some addr_bytes \<Rightarrow> Inr (1 # addr_bytes)
      | None \<Rightarrow>
          (case os_inet_pton6 os target_addr of
             Some addr_bytes \<Rightarrow> Inr (4 # addr_bytes)
           | None \<Rightarrow>
               rbind (utf8_encode target_addr) (\<lambda>domain_bytes.
               rbind (append_byte (int (length domain_bytes))) (\<lambda>l. Inr (3 # l @ domain_bytes)))))"

definition socks5_request :: "os_net \<Rightarrow> pystr \<Rightarrow> int \<Rightarrow> bytes res" where
  "socks5_request os target_addr target_port =
     concat_res [Inr [5, 1, 0], socks5_address os target_addr, int_to_bytes 2 target_port]"

definition socks5_authenticate :: "upstream_config \<Rightarrow> nat \<Rightarrow> (conn, unit) io" where
  "socks5_authenticate cfg meth =
     (if meth = 2 then
        (if \<not> truthy (up_username cfg) \<or> \<not> truthy (up_password cfg)
         then raise_text ''Proxy requires authentication but no credentials provided''
         else
           io_bind (io_lift (socks5_auth_request (the (up_username cfg)) (the (up_password cfg)))) (\<lambda>auth.
           io_bind (sock_sendall auth) (\<lambda>_.
           io_bind (sock_recv 2) (\<lambda>auth_response.
           if length auth_response < 2 then raise_text ''Auth response too short''
           else if auth_response ! 0 \<noteq> 1 \<or> auth_response ! 1 \<noteq> 0 then raise_text ''Authentication failed''
           else io_return ()))))
      else if meth \<noteq> 0 then raise_with_int ''Unsupported auth method: '' meth
      else io_return ())"

definition socks5_skip_bound :: "nat \<Rightarrow> (conn, unit) io" where
  "socks5_skip_bound atyp =
     (if atyp = 1 then io_bind (sock_recv (4 + 2)) (\<lambda>_. io_return ())
      else if atyp = 3 then
        io_bind recv_byte (\<lambda>domain_len. io_bind (sock_recv (domain_len + 2)) (\<lambda>_. io_return ()))
      else if atyp = 4 then io_bind (sock_recv (16 + 2)) (\<lambda>_. io_return ())
      else io_return ())"

definition socks5_handshake :: "os_net \<Rightarrow> upstream_config \<Rightarrow> pystr \<Rightarrow> int \<Rightarrow> (conn, unit) io" where
  "socks5_handshake os cfg target_addr target_port =
     io_bind (sock_sendall (if truthy (up_username cfg) \<and> truthy (up_password cfg)
         then [5, 1, 2] else [5, 1, 0])) (\<lambda>_.
     io_bind (sock_recv 2) (\<lambda>response.
     if length response < 2 then raise_text ''Handshake response too short''
     else if response ! 0 \<noteq> 5 then raise_with_int ''Invalid SOCKS version: '' (unat (response ! 0))
     else
       io_bind (socks5_authenticate cfg (unat (response ! 1))) (\<lambda>_.
       io_bind (io_lift (socks5_request os target_addr target_port)) (\<lambda>request.
       io_bind (sock_sendall request) (\<lambda>_.
       io_bind (sock_recv 4) (\<lambda>response.
       if length response < 4 then raise_text ''Connect response too short''
       else if response ! 0 \<noteq> 5 then raise_with_int ''Invalid SOCKS version: '' (unat (response ! 0))
       else if response ! 1 \<noteq> 0 then raise_with_int ''Connection failed: '' (unat (response ! 1))
       else socks5_skip_bound (unat (response ! 3))))))))"

text \<open>
  Both clients wrap what goes wrong after the connection to the proxy is up: the socket is closed and
  one exception with a prefixed text is raised.
\<close>

definition close_on_error :: "os_net \<Rightarrow> string \<Rightarrow> (conn, unit) io \<Rightarrow> (conn, unit) io" where
  "close_on_error os prefix m =
     io_catch m (\<lambda>e. io_bind (io_modify conn_close)
       (\<lambda>_. io_raise (GenericException (lit prefix @ exn_text (lib_text os) e))))"

definition via_proxy ::
    "os_net \<Rightarrow> upstream_config \<Rightarrow> string \<Rightarrow> (conn, unit) io \<Rightarrow> unit res \<times> conn option" where
  "via_proxy os cfg prefix handshake =
     (if \<not> truthy (up_proxy cfg) then (value_error ''No upstream proxy configured'', None)
      else
        case rbind (proxy_endpoint (the (up_proxy cfg))) (\<lambda>(host, port). dial_proxy os host port) of
          Inl e \<Rightarrow> (Inl e, None)
        | Inr c \<Rightarrow>
            (case close_on_error os prefix handshake c of (r, c') \<Rightarrow> (r, Some c')))"

definition connect_via_socks5 ::
    "os_net \<Rightarrow> upstream_config \<Rightarrow> pystr \<Rightarrow> int \<Rightarrow> unit res \<times> conn option" where
  "connect_via_socks5 os cfg target_addr target_port =
     via_proxy os cfg ''SOCKS5 connection failed: '' (socks5_handshake os cfg target_addr target_port)"

section \<open>HTTP CONNECT\<close>

definition crlf :: pystr where
  "crlf = [13, 10]"

definition http_request :: "upstream_config \<Rightarrow> pystr \<Rightarrow> int \<Rightarrow> bytes res" where
  "http_request cfg target_addr target_port =
     (let hostport = target_addr @ lit '':'' @ int_str target_port in
      rbind (if truthy (up_username cfg) \<and> truthy (up_password cfg) then
          rbind (utf8_encode (the (up_username cfg) @ lit '':'' @ the (up_password cfg))) (\<lambda>credentials.
            Inr (lit ''Proxy-Authorization: Basic '' @ b64encode credentials @ crlf))
        else Inr []) (\<lambda>auth.
      utf8_encode (lit ''CONNECT '' @ hostport @ lit '' HTTP/1.1'' @ crlf @
        lit ''Host: '' @ hostport @ crlf @ auth @ crlf)))"

text \<open>\<^verbatim>\<open>b"\r\n\r\n" in response\<close>\<close>

fun header_complete :: "bytes \<Rightarrow> bool" where
  "header_complete [] = False"
| "header_complete (b # r) = (take 4 (b # r) = [13, 10, 13, 10] \<or> header_complete r)"

function read_header :: "bytes \<Rightarrow> (conn, bytes) io" where
  "read_header response c =
     (if header_complete response then (Inr response, c)
      else case sock_recv 1024 c of
        (Inl e, c') \<Rightarrow> (Inl e, c')
      | (Inr chunk, c') \<Rightarrow>
          (if chunk = []
           then (Inl (GenericException (lit ''Connection closed while reading proxy response'')), c')
           else read_header (response @ chunk) c'))"
  by pat_completeness auto
termination
  by (relation "measure (\<lambda>(response, c). pending c)") (auto dest!: recv_pending [OF sym])

declare read_header.simps [simp del]

definition http_status :: "bytes \<Rightarrow> unit res" where
  "http_status response =
     (let response_str = utf8_decode_ignore response;
          status_line = hd (split_all crlf response_str);
          parts = split_max 2 (lit '' '') status_line in
      if length parts < 2
      then Inl (GenericException (lit ''Invalid proxy response: '' @ status_line))
      else rbind (py_int (parts ! 1)) (\<lambda>status_code.
        if status_code \<noteq> 200
        then (let reason = (if length parts > 2 then parts ! 2 else lit ''Unknown'') in
              Inl (GenericException (lit ''Proxy CONNECT failed: '' @ int_str status_code @ lit '' '' @ reason)))
        else Inr ()))"

definition http_handshake :: "upstream_config \<Rightarrow> pystr \<Rightarrow> int \<Rightarrow> (conn, unit) io" where
  "http_handshake cfg target_addr target_port =
     io_bind (io_lift (http_request cfg target_addr target_port)) (\<lambda>request.
     io_bind (sock_sendall request) (\<lambda>_.
     io_bind (read_header []) (\<lambda>response. io_lift (http_status response))))"

definition connect_via_http ::
    "os_net \<Rightarrow> upstream_config \<Rightarrow> pystr \<Rightarrow> int \<Rightarrow> unit res \<times> conn option" where
  "connect_via_http os cfg target_addr target_port =
     via_proxy os cfg ''HTTP CONNECT failed: '' (http_handshake cfg target_addr target_port)"

section \<open>The handler of a connect message\<close>

text \<open>
  A direct connection: a literal address decides the family, any other name is resolved first. The
  resolver's own error (a subclass of \<^verbatim>\<open>OSError\<close>) is replaced by an exception with a text.
\<close>

definition direct_connect :: "os_net \<Rightarrow> pystr \<Rightarrow> int \<Rightarrow> conn res" where
  "direct_connect os address port =
     (if os_inet_pton6 os address \<noteq> None then sock_connect os AF_INET6 address port
      else if os_inet_pton4 os address \<noteq> None then sock_connect os AF_INET address port
      else
        (case getaddrinfo os address port of
           Inr (family, connect_address) \<Rightarrow> sock_connect os family connect_address port
         | Inl OSError \<Rightarrow>
             Inl (GenericException (lit ''Failed to resolve address: '' @ lib_text os OSError))
         | Inl e \<Rightarrow> Inl e))"

text \<open>The remote socket, when there is one; the handler's \<^verbatim>\<open>finally\<close> closes it.\<close>

definition open_remote ::
    "os_net \<Rightarrow> upstream_config \<Rightarrow> pystr option \<Rightarrow> int option \<Rightarrow> unit res \<times> conn option" where
  "open_remote os cfg address port =
     (case (address, port) of
        (Some a, Some p) \<Rightarrow>
          (if truthy (up_proxy cfg) then
             (let proxy_type = (if truthy (up_type cfg) then the (up_type cfg) else lit ''socks5'') in
              if proxy_type = lit ''http'' then connect_via_http os cfg a p
              else connect_via_socks5 os cfg a p)
           else
             (case direct_connect os a p of Inl e \<Rightarrow> (Inl e, None) | Inr c \<Rightarrow> (Inr (), Some c)))
      | _ \<Rightarrow> (value_error ''Missing address or port in connection request'', None))"

text \<open>
  The state here is \<open>socks_env\<close> with the remote socket in the place of the local one. The report of a
  failure can itself fail, and then the handler raises after its clean-up.
\<close>

definition remote_forward :: "(socks_env \<Rightarrow> socks_env) \<Rightarrow> (pystr \<Rightarrow> relay \<Rightarrow> unit res \<times> relay) \<Rightarrow> uuid \<Rightarrow>
    (socks_env, unit) io" where
  "remote_forward forwarding start channel_id s =
     (case start (uuid_str channel_id) (se_relay s) of
        (Inl e, r) \<Rightarrow> (Inl e, s\<lparr>se_relay := r\<rparr>)
      | (Inr _, r) \<Rightarrow> (Inr (), forwarding (s\<lparr>se_relay := r\<rparr>)))"

definition finish_channel :: "uuid \<Rightarrow> (socks_env, unit) io" where
  "finish_channel channel_id =
     io_bind (io_modify (\<lambda>s. s\<lparr>se_conn := conn_close (se_conn s)\<rparr>)) (\<lambda>_.
     io_bind (io_catch (ws_send (DisconnectMessage channel_id None)) (\<lambda>_. io_return ())) (\<lambda>_.
       on_relay (disconnect_channel (uuid_str channel_id) default_delay)))"

definition io_finally :: "('s, 'a) io \<Rightarrow> ('s, unit) io \<Rightarrow> ('s, 'a) io" where
  "io_finally m f s =
     (case m s of (r, s') \<Rightarrow> (case f s' of (Inl e, s'') \<Rightarrow> (Inl e, s'') | (Inr _, s'') \<Rightarrow> (r, s'')))"

definition serve_remote ::
    "os_net \<Rightarrow> unit res \<times> conn option \<Rightarrow> (socks_env, unit) io \<Rightarrow> uuid \<Rightarrow> (socks_env, unit) io" where
  "serve_remote os opened forward channel_id =
     io_finally
       (io_catch
         (io_bind (io_modify (\<lambda>s. case snd opened of Some c \<Rightarrow> s\<lparr>se_conn := c\<rparr> | None \<Rightarrow> s)) (\<lambda>_.
          io_bind (io_lift (fst opened)) (\<lambda>_.
          io_bind (ws_send (ConnectResponseMessage True channel_id None)) (\<lambda>_. forward))))
         (\<lambda>e. ws_send (ConnectResponseMessage False channel_id (Some (exn_text (lib_text os) e)))))
       (finish_channel channel_id)"

definition handle_tcp_connection ::
    "os_net \<Rightarrow> upstream_config \<Rightarrow> (socks_env \<Rightarrow> socks_env) \<Rightarrow> task \<Rightarrow> message \<Rightarrow> (socks_env, unit) io" where
  "handle_tcp_connection os cfg forwarding t request_msg =
     (let channel_id = msg_channel_id request_msg in
      serve_remote os (open_remote os cfg (msg_address request_msg) (msg_port request_msg))
        (remote_forward forwarding (\<lambda>cid. start_remote_tcp_forward cid t) channel_id) channel_id)"

text \<open>\<open>bound\<close>: the local UDP socket could be created and bound.\<close>

definition handle_udp_connection ::
    "os_net \<Rightarrow> unit res \<Rightarrow> (socks_env \<Rightarrow> socks_env) \<Rightarrow> task \<Rightarrow> message \<Rightarrow> (socks_env, unit) io" where
  "handle_udp_connection os bound forwarding t request_msg =
     (let channel_id = msg_channel_id request_msg in
      serve_remote os (bound, None)
        (remote_forward forwarding (\<lambda>cid. start_remote_udp_forward cid t) channel_id) channel_id)"

definition handle_network_connection ::
    "os_net \<Rightarrow> upstream_config \<Rightarrow> unit res \<Rightarrow> (socks_env \<Rightarrow> socks_env) \<Rightarrow> task \<Rightarrow> message \<Rightarrow>
     (socks_env, unit) io" where
  "handle_network_connection os cfg bound forwarding t request_msg =
     (if msg_protocol request_msg = lit ''tcp'' then handle_tcp_connection os cfg forwarding t request_msg
      else if msg_protocol request_msg = lit ''udp'' then
        handle_udp_connection os bound forwarding t request_msg
      else io_return ())"

section \<open>The SOCKS5 client\<close>

text \<open>The C library gives four bytes for an IPv4 text and sixteen for an IPv6 text.\<close>

definition address_sizes :: "os_net \<Rightarrow> bool" where
  "address_sizes os \<longleftrightarrow>
     (\<forall>a b. os_inet_aton os a = Some b \<longrightarrow> length b = 4) \<and>
     (\<forall>a b. os_inet_pton6 os a = Some b \<longrightarrow> length b = 16)"

definition target_of :: "os_net \<Rightarrow> pystr \<Rightarrow> bytes \<Rightarrow> target" where
  "target_of os a e =
     (case os_inet_aton os a of Some b \<Rightarrow> IPv4 b
      | None \<Rightarrow> (case os_inet_pton6 os a of Some b \<Rightarrow> IPv6 b | None \<Rightarrow> Domain e))"

lemma socks5_request_target:
  assumes "socks5_request os a p = Inr req" "address_sizes os"
  shows "0 \<le> p \<and> p < 65536 \<and> (\<exists>e. req = connect_request (target_of os a e) p \<and> target_ok (target_of os a e) \<and>
    (os_inet_aton os a = None \<longrightarrow> os_inet_pton6 os a = None \<longrightarrow> utf8_encode a = Inr e))"
proof -
  from assms(1) obtain ad where ad: "socks5_address os a = Inr ad" and p: "0 \<le> p" "p < 65536"
    and req: "req = [5, 1, 0] @ ad @ to_be 2 (nat p)"
    by (auto simp: socks5_request_def pack_opens int_to_bytes_def split: if_splits)
  from ad assms(2) have "\<exists>e. ad = target_bytes (target_of os a e) \<and> target_ok (target_of os a e) \<and>
    (os_inet_aton os a = None \<longrightarrow> os_inet_pton6 os a = None \<longrightarrow> utf8_encode a = Inr e)"
    by (auto simp: socks5_address_def target_of_def address_sizes_def pack_opens split: option.splits)
  with req p show ?thesis by (auto simp: connect_request_def)
qed

text \<open>A conforming proxy: what it says, and what the client has said in the end.\<close>

fun bound_ok :: "byte \<Rightarrow> bytes \<Rightarrow> bool" where
  "bound_ok atyp bound =
     (atyp = 1 \<and> length bound = 6 \<or> atyp = 4 \<and> length bound = 18 \<or>
      atyp = 3 \<and> bound \<noteq> [] \<and> length bound = unat (hd bound) + 3)"

definition wants_auth :: "upstream_config \<Rightarrow> bool" where
  "wants_auth cfg \<longleftrightarrow> truthy (up_username cfg) \<and> truthy (up_password cfg)"

definition proxy_says :: "upstream_config \<Rightarrow> byte \<Rightarrow> bytes \<Rightarrow> bytes \<Rightarrow> bytes list" where
  "proxy_says cfg atyp bound rest =
     (if wants_auth cfg then [[5, 2], [1, 0]] else [[5, 0]]) @ [[5, 0, 0, atyp] @ bound @ rest]"

definition client_says :: "upstream_config \<Rightarrow> bytes \<Rightarrow> bytes \<Rightarrow> bytes list" where
  "client_says cfg auth req = (if wants_auth cfg then [[5, 1, 2], auth, req] else [[5, 1, 0], req])"

lemma waiting_next [simp]: "d \<noteq> [] \<Longrightarrow> waiting [] (Inr d # segs) out = waiting d segs out"
  by (simp add: waiting_def)

lemma skip_bound:
  assumes "bound_ok atyp bound"
  shows "socks5_skip_bound (unat atyp) (waiting (bound @ rest) segs out) = (Inr (), waiting rest segs out)"
proof -
  consider (4) "atyp = 1" "length bound = 6" | (6) "atyp = 4" "length bound = 18"
    | (dom) "atyp = 3" "bound \<noteq> []" "length bound = unat (hd bound) + 3"
    using assms by auto
  then show ?thesis
  proof cases
    case dom
    then obtain l b where "bound = l # b" "length b = unat l + 2" by (cases bound) auto
    with dom show ?thesis by (simp add: socks5_skip_bound_def)
  qed (simp_all add: socks5_skip_bound_def)
qed

lemma handshake_conforming:
  assumes "socks5_request os a p = Inr req" "bound_ok atyp bound"
    and "wants_auth cfg \<Longrightarrow> socks5_auth_request (the (up_username cfg)) (the (up_password cfg)) = Inr auth"
  shows "socks5_handshake os cfg a p (fresh_conn (proxy_says cfg atyp bound rest)) =
    (Inr (), waiting rest [] (client_says cfg auth req))"
proof -
  have tail: "socks5_skip_bound (unat atyp) (waiting (bound @ rest) [] out) = (Inr (), waiting rest [] out)" for out
    by (rule skip_bound [OF assms(2)])
  show ?thesis
  proof (cases "wants_auth cfg")
    case True
    then have t: "truthy (up_username cfg)" "truthy (up_password cfg)" by (simp_all add: wants_auth_def)
    from True assms t tail show ?thesis
      by (simp add: socks5_handshake_def socks5_authenticate_def proxy_says_def client_says_def fresh_waiting
          del: bound_ok.simps)
  next
    case False
    then have t: "\<not> (truthy (up_username cfg) \<and> truthy (up_password cfg))" by (simp add: wants_auth_def)
    from False assms t tail show ?thesis
      by (auto simp add: socks5_handshake_def socks5_authenticate_def proxy_says_def client_says_def fresh_waiting
          simp del: bound_ok.simps)
  qed
qed

section \<open>Failures\<close>

lemma close_on_error_fails:
  "close_on_error os prefix m c = (Inl e, c') \<Longrightarrow>
     conn_closed c' \<and> (\<exists>t. e = GenericException (lit prefix @ t))"
  by (auto simp: close_on_error_def io_catch_def io_bind_def split: prod.splits sum.splits)

lemma via_proxy_result:
  "via_proxy os cfg prefix m = (r, oc) \<Longrightarrow>
     (case oc of None \<Rightarrow> \<exists>e. r = Inl e
      | Some c \<Rightarrow> r = Inr () \<or> (conn_closed c \<and> (\<exists>t. r = Inl (GenericException (lit prefix @ t)))))"
  using close_on_error_fails [of os prefix m]
  by (cases r) (auto simp: via_proxy_def split: if_splits sum.splits prod.splits)

section \<open>The HTTP client\<close>

lemma read_header_stream:
  "read_header resp c = (Inr out, c') \<Longrightarrow>
     resp @ stream (inbound c) = out @ stream (inbound c') \<and> header_complete out"
proof (induction resp c rule: read_header.induct)
  case (1 resp c)
  show ?case
  proof (cases "header_complete resp")
    case True
    with 1 show ?thesis by (simp add: read_header.simps)
  next
    case False
    with 1(2) obtain chunk c1 where r: "sock_recv 1024 c = (Inr chunk, c1)" "chunk \<noteq> []"
      "read_header (resp @ chunk) c1 = (Inr out, c')"
      by (subst (asm) read_header.simps) (auto split: prod.splits sum.splits if_splits)
    from "1.IH" [OF False r(1) [symmetric] refl r(2,3)] recv_stream [OF r(1)]
    show ?thesis by simp
  qed
qed

lemma http_handshake_ok:
  assumes "http_handshake cfg a p c = (Inr (), c')"
  shows "\<exists>response. stream (inbound c) = response @ stream (inbound c') \<and>
    header_complete response \<and> http_status response = Inr ()"
proof -
  from assms obtain request c1 response where
    "sock_sendall request c = (Inr (), c1)" "read_header [] c1 = (Inr response, c')" "http_status response = Inr ()"
    by (auto simp: http_handshake_def io_bind_Inr io_lift_Inr)
  with sendall_stream [of request c c1] read_header_stream [of "[]" c1 response c'] show ?thesis
    by auto
qed

section \<open>The handler of a connect message\<close>

lemma ws_send_ok:
  "pack_message id m = Inr bs \<Longrightarrow> se_ws_open s \<Longrightarrow> ws_send m s = (Inr (), s\<lparr>se_ws_sent := se_ws_sent s @ [bs]\<rparr>)"
  by (simp add: ws_send_def)

lemma disconnect_packs: "\<exists>bs. pack_message id (DisconnectMessage cid None) = Inr bs"
  using pack_message_ok_iff [of "DisconnectMessage cid None" id] by simp

lemma failure_packs: "text_fits t \<Longrightarrow> \<exists>bs. pack_message id (ConnectResponseMessage False cid (Some t)) = Inr bs"
  using pack_message_ok_iff [of "ConnectResponseMessage False cid (Some t)" id] by simp

lemma failure_does_not_pack:
  "256 \<le> length t \<Longrightarrow> \<exists>e. pack_message id (ConnectResponseMessage False cid (Some t)) = Inl (ValueError e)"
  by (auto simp: pack_connect_response_def put_text_def append_byte_def)

definition finished :: "uuid \<Rightarrow> bytes list \<Rightarrow> socks_env \<Rightarrow> socks_env" where
  "finished cid frames s =
     s\<lparr>se_conn := conn_close (se_conn s), se_ws_sent := se_ws_sent s @ frames,
       se_relay := disconnect_channel (uuid_str cid) default_delay (se_relay s)\<rparr>"

lemma finish_channel_open:
  assumes "pack_message id (DisconnectMessage cid None) = Inr d" "se_ws_open s"
  shows "finish_channel cid s = (Inr (), finished cid [d] s)"
  using assms by (simp add: finish_channel_def on_relay_def finished_def ws_send_def io_catch_def del: pack_message.simps)

text \<open>When the target cannot be reached.\<close>

lemma serve_remote_fails:
  fixes os :: os_net
  assumes "fst opened = Inl e" "se_ws_open s" "pack_message id (DisconnectMessage cid None) = Inr d"
  defines "t \<equiv> exn_text (lib_text os) e"
  defines "s1 \<equiv> (case snd opened of Some c \<Rightarrow> s\<lparr>se_conn := c\<rparr> | None \<Rightarrow> s)"
  shows "serve_remote os opened forward cid s =
    (case pack_message id (ConnectResponseMessage False cid (Some t)) of
       Inr r \<Rightarrow> (Inr (), finished cid [r, d] s1)
     | Inl x \<Rightarrow> (Inl x, finished cid [d] s1))"
proof -
  have o: "se_ws_open s1" using assms(2) by (simp add: s1_def split: option.split)
  show ?thesis
  proof (cases "pack_message id (ConnectResponseMessage False cid (Some t))")
    case (Inl x)
    then have "ws_send (ConnectResponseMessage False cid (Some t)) s1 = (Inl x, s1)"
      by (simp add: ws_send_def del: pack_message.simps)
    with Inl finish_channel_open [OF assms(3) o] assms(1) show ?thesis
      by (simp add: serve_remote_def io_finally_def t_def s1_def del: pack_message.simps)
  next
    case (Inr r)
    from ws_send_ok [OF Inr o] have "ws_send (ConnectResponseMessage False cid (Some t)) s1 =
        (Inr (), s1\<lparr>se_ws_sent := se_ws_sent s1 @ [r]\<rparr>)" .
    with Inr finish_channel_open [OF assms(3), of "s1\<lparr>se_ws_sent := se_ws_sent s1 @ [r]\<rparr>"] o assms(1)
    show ?thesis
      by (simp add: serve_remote_def io_finally_def t_def s1_def finished_def del: pack_message.simps)
  qed
qed

section \<open>Properties\<close>


definition sample_os :: os_net where
  "sample_os = \<lparr>sock_connect = (\<lambda>f _ _. case f of AF_INET6 \<Rightarrow> Inl OSError
       | AF_INET \<Rightarrow> Inr (fresh_conn [[5, 0], [5, 0, 0, 1, 0, 0, 0, 0, 0, 0, 42]])),
     os_inet_aton = (\<lambda>t. if t = [49] then Some [0, 0, 0, 1] else None),
     os_inet_pton4 = (\<lambda>_. None), os_inet_pton6 = (\<lambda>_. None),
     getaddrinfo = (\<lambda>_ _. Inl OSError), lib_text = (\<lambda>_. lit ''error'')\<rparr>"

definition sample_cfg :: upstream_config where
  "sample_cfg = \<lparr>up_proxy = Some (lit ''p:1''), up_username = None, up_password = None, up_type = None\<rparr>"


text \<open>
  No half-open connection to a proxy survives: for both clients and whatever the proxy does, either
  the connection to the proxy could not be opened and an exception is raised, or the handshake
  succeeded, or the socket is closed and exactly one kind of exception, with the client's prefix, is
  raised.
\<close>

definition proxy_outcome_ok :: "string \<Rightarrow> unit res \<times> conn option \<Rightarrow> bool" where
  "proxy_outcome_ok prefix out =
     (case out of
        (r, None) \<Rightarrow> (\<exists>e. r = Inl e)
      | (r, Some c) \<Rightarrow>
          r = Inr () \<or> conn_closed c \<and> (\<exists>t. r = Inl (GenericException (lit prefix @ t))))"

theorem proxy_failure_closes_socket:
  "proxy_outcome_ok ''SOCKS5 connection failed: '' (connect_via_socks5 os cfg a p) \<and>
   proxy_outcome_ok ''HTTP CONNECT failed: '' (connect_via_http os cfg a p)"
proof -
  have "proxy_outcome_ok prefix (via_proxy os cfg prefix m)" for prefix m
    using via_proxy_result [of os cfg prefix m "fst (via_proxy os cfg prefix m)" "snd (via_proxy os cfg prefix m)"]
    by (auto simp: proxy_outcome_ok_def split: prod.split option.splits)
  then show ?thesis
    by (simp add: connect_via_socks5_def connect_via_http_def)
qed

text \<open>
  C38. The HTTP client reports success only for a complete header whose status is 200, and it consumes
  the stream in whole reads: bytes the target sent that arrive together with the end of the proxy's
  header are consumed with it and never forwarded (the second part: the banner of an SSH server).
\<close>

definition http_ok :: pystr where
  "http_ok = lit ''HTTP/1.1 200 OK'' @ crlf @ crlf"

definition ssh_banner :: pystr where
  "ssh_banner = lit ''SSH-2.0''"

lemma banner_header: "header_complete (map byte_of (http_ok @ ssh_banner))"
  by (simp add: http_ok_def ssh_banner_def crlf_def byte_of_def)

lemma banner_status: "http_status (map byte_of (http_ok @ ssh_banner)) = Inr ()"
proof -
  have a: "ascii (http_ok @ ssh_banner)"
    by (simp add: ascii_def http_ok_def ssh_banner_def crlf_def)
  have h: "hd (split_all crlf (http_ok @ ssh_banner)) = lit ''HTTP/1.1 200 OK''"
    by (simp add: split_all_def http_ok_def ssh_banner_def crlf_def)
  have "split_max 2 (lit '' '') (lit ''HTTP/1.1 200 OK'') = [lit ''HTTP/1.1'', lit ''200'', lit ''OK'']"
    by (simp add: numeral_2_eq_2)
  moreover have "py_int (lit ''200'') = Inr 200"
    by (simp add: py_int_def strip_def is_space_def of_digits_def)
  ultimately show ?thesis
    unfolding http_status_def utf8_decode_ignore_valid [OF utf8_decode_ascii [OF a]] Let_def h
    by simp
qed

lemma banner_lost:
  "\<exists>c'. http_handshake sample_cfg [49] 80 (fresh_conn [map byte_of (http_ok @ ssh_banner)]) = (Inr (), c') \<and>
     stream (inbound c') = []"
proof -
  have d: "map byte_of (http_ok @ ssh_banner) \<noteq> []" "length (map byte_of (http_ok @ ssh_banner)) \<le> 1024"
    by (simp_all add: http_ok_def ssh_banner_def crlf_def)
  obtain req where "http_request sample_cfg [49] 80 = Inr req"
  proof -
    let ?t = "lit ''CONNECT '' @ ([49] @ lit '':'' @ int_str 80) @ lit '' HTTP/1.1'' @ crlf @
      lit ''Host: '' @ ([49] @ lit '':'' @ int_str 80) @ crlf @ [] @ crlf"
    have "ascii ?t"
      by (simp add: ascii_def crlf_def int_str_alt digit_str_def dec_digits.simps)
    from utf8_encode_ascii [OF this] show thesis
      by (intro that) (simp add: http_request_def sample_cfg_def Let_def)
  qed
  moreover define D where "D = map byte_of (http_ok @ ssh_banner)"
  moreover have "read_header [] (waiting D [] out) = (Inr D, waiting [] [] out)" for out
    using recv_short [OF d, of "[]" out] banner_header d(1) unfolding D_def [symmetric]
    by (subst read_header.simps, simp, subst read_header.simps) simp
  moreover have "fresh_conn [D] = waiting D [] []" "http_status D = Inr ()"
    using d(1) banner_status fresh_waiting [of D "[]"] unfolding D_def [symmetric] by simp_all
  ultimately show ?thesis
    by (simp add: http_handshake_def del: map_append) (simp add: waiting_def)
qed



text \<open>
  C36. A connect message whose target cannot be reached is answered exactly once: when the error's text
  fits a text field, the handler sends a failed connect response with that text and then a disconnect
  message, closes the remote socket if there is one, releases the channel, and returns normally.
\<close>

theorem unreachable_target_reported:
  assumes "msg_protocol m = lit ''tcp''" and "se_ws_open s"
    and "open_remote os cfg (msg_address m) (msg_port m) = (Inl e, oc)"
    and "text_fits (exn_text (lib_text os) e)"
  shows "\<exists>r d. pack_message id (ConnectResponseMessage False (msg_channel_id m)
        (Some (exn_text (lib_text os) e))) = Inr r \<and>
    pack_message id (DisconnectMessage (msg_channel_id m) None) = Inr d \<and>
    handle_network_connection os cfg bound forwarding t m s =
      (Inr (), finished (msg_channel_id m) [r, d]
        (case oc of Some c \<Rightarrow> s\<lparr>se_conn := c\<rparr> | None \<Rightarrow> s))"
proof -
  obtain r where r: "pack_message id (ConnectResponseMessage False (msg_channel_id m)
      (Some (exn_text (lib_text os) e))) = Inr r"
    using failure_packs [OF assms(4)] by blast
  obtain d where d: "pack_message id (DisconnectMessage (msg_channel_id m) None) = Inr d"
    using disconnect_packs by blast
  from serve_remote_fails [of "(Inl e, oc)" e s "msg_channel_id m" d os] assms r d
  show ?thesis
    by (simp add: handle_network_connection_def handle_tcp_connection_def Let_def del: pack_message.simps)
qed

definition tcp_request :: message where
  "tcp_request = ConnectMessage (lit ''tcp'') 3 (Some [49]) (Some 80)"

definition direct_cfg :: upstream_config where
  "direct_cfg = \<lparr>up_proxy = None, up_username = None, up_password = None, up_type = None\<rparr>"

theorem unreachable_target_reported_witness:
  "\<exists>r d. handle_network_connection sample_os direct_cfg (Inr ()) id 0 tcp_request (sample_env (fresh_conn [])) =
     (Inr (), finished 3 [r, d] (sample_env (fresh_conn [])))"
proof -
  have "open_remote sample_os direct_cfg (msg_address tcp_request) (msg_port tcp_request) =
      (Inl (GenericException (lit ''Failed to resolve address: error'')), None)"
    by (simp add: open_remote_def direct_cfg_def sample_os_def tcp_request_def direct_connect_def)
  moreover have "text_fits (exn_text (lib_text sample_os)
      (GenericException (lit ''Failed to resolve address: error'')))"
    by (simp add: text_fits_def valid_char_def is_surrogate_def)
  ultimately show ?thesis
    using unreachable_target_reported [of tcp_request "sample_env (fresh_conn [])" sample_os direct_cfg
        "GenericException (lit ''Failed to resolve address: error'')" None "Inr ()" id 0]
    by (auto simp: tcp_request_def sample_env_def)
qed

text \<open>
  A failure with a long text is never reported: when the error's text has more than 255 characters,
  packing the failed connect response raises, the handler sends only the disconnect message and raises
  a \<open>ValueError\<close> itself, so the requesting side waits for a response that does not come.
\<close>

theorem long_error_unreported:
  assumes "msg_protocol m = lit ''tcp''" and "se_ws_open s"
    and "open_remote os cfg (msg_address m) (msg_port m) = (Inl e, oc)"
    and "255 < length (exn_text (lib_text os) e)"
  shows "\<exists>d x. pack_message id (DisconnectMessage (msg_channel_id m) None) = Inr d \<and>
    handle_network_connection os cfg bound forwarding t m s =
      (Inl (ValueError x), finished (msg_channel_id m) [d]
        (case oc of Some c \<Rightarrow> s\<lparr>se_conn := c\<rparr> | None \<Rightarrow> s))"
proof -
  obtain x where x: "pack_message id (ConnectResponseMessage False (msg_channel_id m)
      (Some (exn_text (lib_text os) e))) = Inl (ValueError x)"
    using failure_does_not_pack [of "exn_text (lib_text os) e" "msg_channel_id m"] assms(4) by auto
  obtain d where d: "pack_message id (DisconnectMessage (msg_channel_id m) None) = Inr d"
    using disconnect_packs by blast
  from serve_remote_fails [of "(Inl e, oc)" e s "msg_channel_id m" d os] assms x d
  show ?thesis
    by (simp add: handle_network_connection_def handle_tcp_connection_def Let_def del: pack_message.simps)
qed

definition chatty_os :: os_net where
  "chatty_os = sample_os\<lparr>lib_text := (\<lambda>_. replicate 300 120)\<rparr>"

theorem long_error_unreported_witness:
  "\<exists>d x. handle_network_connection chatty_os direct_cfg (Inr ()) id 0 tcp_request (sample_env (fresh_conn [])) =
     (Inl (ValueError x), finished 3 [d] (sample_env (fresh_conn [])))"
proof -
  have "open_remote chatty_os direct_cfg (msg_address tcp_request) (msg_port tcp_request) =
      (Inl (GenericException (lit ''Failed to resolve address: '' @ replicate 300 120)), None)"
    by (simp add: open_remote_def direct_cfg_def sample_os_def chatty_os_def tcp_request_def direct_connect_def)
  moreover have "255 < length (exn_text (lib_text chatty_os)
      (GenericException (lit ''Failed to resolve address: '' @ replicate 300 120)))"
    by simp
  ultimately show ?thesis
    using long_error_unreported [of tcp_request "sample_env (fresh_conn [])" chatty_os direct_cfg
        "GenericException (lit ''Failed to resolve address: '' @ replicate 300 120)" None "Inr ()" id 0]
    by (auto simp: tcp_request_def sample_env_def)
qed

end
