(* ===== verification/Forwarding.thy ===== *)
theory Forwarding
  imports Forward "HOL-Library.Sublist"
begin

text \<open>
  A forwarding phase of \<^verbatim>\<open>pywssocks/relay.py\<close> as what it is: tasks that run side by side until
  \<^verbatim>\<open>asyncio.wait\<close> with \<^verbatim>\<open>FIRST_COMPLETED\<close> sees the first of them end, after which the others are cancelled.
  A task is given by one round of its loop, which says whether the loop has ended. A phase is run by a
  list of events: rounds of its tasks, and what the rest of the program and the outside world do in between.
  The list ends when the waiting handler runs again, which can be some rounds after the first end. How the
  tasks ended makes no difference to what the handlers do next: exceptions are logged, and the
  \<^verbatim>\<open>CancelledError\<close> of a cancelled task passes only \<^verbatim>\<open>finally\<close> clauses on its way out.

  A round is taken as atomic, though it waits in its read, its send and its write: a task that is cancelled while
  it waits in a send or a write has lost what it was sending.
\<close>

section \<open>Tasks\<close>

datatype ending = Ended "unit res" | Cancelled

record 's session =
  ss_state :: 's
  ss_tasks :: "ending option list"

definition start_tasks :: "nat \<Rightarrow> 's \<Rightarrow> 's session" where
  "start_tasks n s = \<lparr>ss_state = s, ss_tasks = replicate n None\<rparr>"

definition live :: "nat \<Rightarrow> 's session \<Rightarrow> bool" where
  "live i \<sigma> \<longleftrightarrow> i < length (ss_tasks \<sigma>) \<and> ss_tasks \<sigma> ! i = None"

definition end_task :: "nat \<Rightarrow> ending \<Rightarrow> 's session \<Rightarrow> 's session" where
  "end_task i x \<sigma> = \<sigma>\<lparr>ss_tasks := (ss_tasks \<sigma>)[i := Some x]\<rparr>"

definition run_round :: "nat \<Rightarrow> ('s, bool) io \<Rightarrow> 's session \<Rightarrow> 's session" where
  "run_round i round \<sigma> =
     (if \<not> live i \<sigma> then \<sigma>
      else case round (ss_state \<sigma>) of
        (Inl e, s) \<Rightarrow> end_task i (Ended (Inl e)) (\<sigma>\<lparr>ss_state := s\<rparr>)
      | (Inr True, s) \<Rightarrow> end_task i (Ended (Inr ())) (\<sigma>\<lparr>ss_state := s\<rparr>)
      | (Inr False, s) \<Rightarrow> \<sigma>\<lparr>ss_state := s\<rparr>)"

definition cancel_task :: "nat \<Rightarrow> 's session \<Rightarrow> 's session" where
  "cancel_task i \<sigma> = (if live i \<sigma> then end_task i Cancelled \<sigma> else \<sigma>)"

definition outside :: "('s \<Rightarrow> 's) \<Rightarrow> 's session \<Rightarrow> 's session" where
  "outside f \<sigma> = \<sigma>\<lparr>ss_state := f (ss_state \<sigma>)\<rparr>"

text \<open>\<^verbatim>\<open>asyncio.wait\<close> can return.\<close>

definition first_completed :: "'s session \<Rightarrow> bool" where
  "first_completed \<sigma> \<longleftrightarrow> list_ex (\<lambda>x. x \<noteq> None) (ss_tasks \<sigma>)"

section \<open>The two TCP tasks\<close>

text \<open>
  \<open>_tcp_to_websocket\<close> reads at most 65535 bytes and sends them as one message; \<open>_websocket_to_tcp\<close>
  waits for the next message of its queue (a round that finds none has no effect). Task 0 is the one that is
  registered under \<open>tcp_tasks\<close>, so it is the one that a disconnect cancels.
\<close>

definition tcp_to_websocket_round :: "nat \<Rightarrow> uuid \<Rightarrow> (socks_env, bool) io" where
  "tcp_to_websocket_round buf_size channel_id =
     io_bind (on_conn (sock_recv (min buf_size 65535))) (\<lambda>data.
     if data = [] then io_return True
     else io_bind (ws_send (tcp_data_message channel_id data)) (\<lambda>_. io_return False))"

definition websocket_to_tcp_round :: "uuid \<Rightarrow> (socks_env, bool) io" where
  "websocket_to_tcp_round channel_id s =
     (case take_message (uuid_str channel_id) (se_relay s) of
        (None, r) \<Rightarrow> (Inr False, s)
      | (Some msg, r) \<Rightarrow>
          io_bind (case msg of
              DataMessage protocol cid data compression address port target_addr target_port \<Rightarrow>
                on_conn (sock_sendall data)
            | _ \<Rightarrow> io_return ())
          (\<lambda>_. io_return False) (s\<lparr>se_relay := r\<rparr>))"

text \<open>
  What can happen during a TCP forwarding phase: a round of either task, a message for the channel that the
  dispatcher puts into the queue, a disconnect message for the channel, the loss of the socket's peer
  or of the WebSocket.
\<close>

datatype tcp_event = Reads | Writes | Arrives message | Disconnects | SocketLost | WebSocketLost

definition change_relay :: "(relay \<Rightarrow> relay) \<Rightarrow> socks_env \<Rightarrow> socks_env" where
  "change_relay f s = s\<lparr>se_relay := f (se_relay s)\<rparr>"

definition registered :: "uuid \<Rightarrow> task \<Rightarrow> socks_env \<Rightarrow> bool" where
  "registered channel_id t s \<longleftrightarrow> dict_get (tcp_tasks (se_relay s)) (uuid_str channel_id) = Some t"

fun tcp_step :: "nat \<Rightarrow> uuid \<Rightarrow> task \<Rightarrow> tcp_event \<Rightarrow> socks_env session \<Rightarrow> socks_env session" where
  "tcp_step buf_size channel_id t Reads \<sigma> =
     (let \<sigma>' = run_round 0 (tcp_to_websocket_round buf_size channel_id) \<sigma>
      in if live 0 \<sigma>' then \<sigma>' else outside (change_relay (\<lambda>r. r\<lparr>done_tasks := insert t (done_tasks r)\<rparr>)) \<sigma>')"
| "tcp_step buf_size channel_id t Writes \<sigma> = run_round 1 (websocket_to_tcp_round channel_id) \<sigma>"
| "tcp_step buf_size channel_id t (Arrives msg) \<sigma> = outside (change_relay (put_message (uuid_str channel_id) msg)) \<sigma>"
| "tcp_step buf_size channel_id t Disconnects \<sigma> =
     (let \<sigma>' = outside (change_relay (disconnect_channel (uuid_str channel_id) default_delay)) \<sigma>
      in if registered channel_id t (ss_state \<sigma>) then cancel_task 0 \<sigma>' else \<sigma>')"
| "tcp_step buf_size channel_id t SocketLost \<sigma> = outside (\<lambda>s. s\<lparr>se_conn := (se_conn s)\<lparr>peer_gone := True\<rparr>\<rparr>) \<sigma>"
| "tcp_step buf_size channel_id t WebSocketLost \<sigma> = outside (\<lambda>s. s\<lparr>se_ws_open := False\<rparr>) \<sigma>"

definition tcp_session :: "nat \<Rightarrow> uuid \<Rightarrow> task \<Rightarrow> tcp_event list \<Rightarrow> socks_env \<Rightarrow> socks_env session" where
  "tcp_session buf_size channel_id t events s =
     foldl (\<lambda>\<sigma> ev. tcp_step buf_size channel_id t ev \<sigma>) (start_tasks 2 s) events"

text \<open>What a whole phase does to the state of the handler around it.\<close>

definition forward_tcp :: "nat \<Rightarrow> uuid \<Rightarrow> task \<Rightarrow> tcp_event list \<Rightarrow> socks_env \<Rightarrow> socks_env" where
  "forward_tcp buf_size channel_id t events s = ss_state (tcp_session buf_size channel_id t events s)"

section \<open>What a round does\<close>

definition data_frame :: "uuid \<Rightarrow> bytes \<Rightarrow> bytes \<Rightarrow> bool" where
  "data_frame cid frame d \<longleftrightarrow> pack_message id (tcp_data_message cid d) = Inr frame \<and> length d \<le> 65535"

lemma data_frame_parses:
  "data_frame cid frame d \<Longrightarrow> parse_message gunzip frame = Inr (tcp_data_message cid d)"
  using tcp_data_ok [of d cid gunzip] by (auto simp: data_frame_def)

definition no_empty :: "conn \<Rightarrow> bool" where
  "no_empty c \<longleftrightarrow> Inr [] \<notin> set (inbound c)"

lemma recv_no_empty:
  assumes "no_empty c" "0 < n" "sock_recv n c = (Inr d, c')"
  shows "no_empty c'" "d = [] \<Longrightarrow> inbound c = [] \<and> inbound c' = []"
  using assms by (auto simp: no_empty_def sock_recv_def split: if_splits list.splits sum.splits)

lemma read_round_cases:
  assumes "tcp_to_websocket_round buf cid s = (r, s')"
  obtains (failed) e where "r = Inl e" "se_ws_sent s' = se_ws_sent s"
    | (ended) c where "r = Inr True" "sock_recv (min buf 65535) (se_conn s) = (Inr [], c)" "s' = s\<lparr>se_conn := c\<rparr>"
    | (sent) d c frame where "r = Inr False" "sock_recv (min buf 65535) (se_conn s) = (Inr d, c)" "d \<noteq> []"
        "data_frame cid frame d" "s' = s\<lparr>se_conn := c, se_ws_sent := se_ws_sent s @ [frame]\<rparr>" "se_ws_open s"
proof -
  obtain x c where x: "sock_recv (min buf 65535) (se_conn s) = (x, c)" by fastforce
  show thesis
  proof (cases x)
    case (Inl e)
    with x assms failed show thesis by (auto simp: tcp_to_websocket_round_def io_bind_def on_conn_def)
  next
    case (Inr d)
    show thesis
    proof (cases "d = []")
      case True
      with Inr x assms ended show thesis by (auto simp: tcp_to_websocket_round_def io_bind_def on_conn_def)
    next
      case False
      have len: "length d \<le> 65535" using recv_stream [OF x [unfolded Inr]] by simp
      from tcp_data_ok [OF this, of cid] obtain frame where f: "pack_message id (tcp_data_message cid d) = Inr frame"
        by blast
      from Inr x f False assms have "(r, s') = (if se_ws_open s
          then (Inr False, s\<lparr>se_conn := c, se_ws_sent := se_ws_sent s @ [frame]\<rparr>)
          else (Inl ConnectionClosed, s\<lparr>se_conn := c\<rparr>))"
        by (cases "se_ws_open s") (simp_all add: tcp_to_websocket_round_def io_bind_def on_conn_def ws_send_def)
      with sent [OF _ _ False] failed Inr x f len show thesis
        by (cases "se_ws_open s") (auto simp: data_frame_def)
    qed
  qed
qed

lemma write_round_cases:
  assumes "websocket_to_tcp_round cid s = (r, s')" "dict_get (message_queues (se_relay s)) (uuid_str cid) = Some q"
  obtains (waits) "q = []" "r = Inr False" "s' = s"
    | (wrote) m q' c relay where "q = m # q'" "r = Inr False" "s' = s\<lparr>se_relay := relay, se_conn := c\<rparr>"
        "dict_get (message_queues relay) (uuid_str cid) = Some q'" "inbound c = inbound (se_conn s)"
        "concat (outbound c) = concat (outbound (se_conn s)) @ payload m"
    | (lost) m q' e relay where "q = m # q'" "r = Inl e" "s' = s\<lparr>se_relay := relay\<rparr>"
        "dict_get (message_queues relay) (uuid_str cid) = Some q'"
proof (cases q)
  case Nil
  with assms waits show thesis by (auto simp: websocket_to_tcp_round_def take_message_def)
next
  case (Cons m q')
  let ?r = "(se_relay s)\<lparr>message_queues := dict_set (uuid_str cid) q' (message_queues (se_relay s))\<rparr>"
  have q': "dict_get (message_queues ?r) (uuid_str cid) = Some q'" by (simp add: dict_simps)
  have round: "websocket_to_tcp_round cid s = io_bind (case m of
      DataMessage protocol cid data compression address port target_addr target_port \<Rightarrow> on_conn (sock_sendall data)
    | _ \<Rightarrow> io_return ()) (\<lambda>_. io_return False) (s\<lparr>se_relay := ?r\<rparr>)"
    using assms(2) Cons by (simp add: websocket_to_tcp_round_def take_message_def)
  show thesis
  proof (cases "\<exists>p c data z a b ta tb. m = DataMessage p c data z a b ta tb")
    case True
    then obtain p c' data z a b ta tb where m: "m = DataMessage p c' data z a b ta tb" by blast
    have res: "(r, s') = (if conn_closed (se_conn s) \<or> peer_gone (se_conn s) then (Inl OSError, s\<lparr>se_relay := ?r\<rparr>)
        else (Inr False, s\<lparr>se_relay := ?r, se_conn := (se_conn s)\<lparr>outbound := outbound (se_conn s) @ [data]\<rparr>\<rparr>))"
      using assms(1) unfolding round m by (auto simp: io_bind_def on_conn_def sock_sendall_def)
    show thesis
    proof (cases "conn_closed (se_conn s) \<or> peer_gone (se_conn s)")
      case True
      with res lost [OF Cons _ _ q'] show thesis by simp
    next
      case False
      with res m wrote [OF Cons _ _ q', of "(se_conn s)\<lparr>outbound := outbound (se_conn s) @ [data]\<rparr>"]
      show thesis by simp
    qed
  next
    case False
    then have "(r, s') = (Inr False, s\<lparr>se_relay := ?r\<rparr>)" "payload m = []"
      using assms(1) unfolding round by (cases m; simp add: payload_def)+
    moreover have "s\<lparr>se_relay := ?r\<rparr> = s\<lparr>se_relay := ?r, se_conn := se_conn s\<rparr>" by (cases s) simp
    ultimately show thesis using wrote [OF Cons, where relay = ?r and c = "se_conn s"] q' by simp
  qed
qed

section \<open>What events leave alone\<close>

lemma session_simps [simp]:
  "ss_state (end_task i x \<sigma>) = ss_state \<sigma>" "ss_tasks (end_task i x \<sigma>) = (ss_tasks \<sigma>)[i := Some x]"
  "ss_state (outside f \<sigma>) = f (ss_state \<sigma>)" "ss_tasks (outside f \<sigma>) = ss_tasks \<sigma>"
  "ss_state (cancel_task i \<sigma>) = ss_state \<sigma>" "live i (outside f \<sigma>) = live i \<sigma>"
  "ss_tasks (cancel_task i \<sigma>) = (if live i \<sigma> then (ss_tasks \<sigma>)[i := Some Cancelled] else ss_tasks \<sigma>)"
  "ss_state (start_tasks n s) = s" "ss_tasks (start_tasks n s) = replicate n None"
  by (simp_all add: end_task_def outside_def cancel_task_def live_def start_tasks_def)

lemma change_relay_simps [simp]:
  "se_conn (change_relay f s) = se_conn s" "se_ws_sent (change_relay f s) = se_ws_sent s"
  "se_ws_open (change_relay f s) = se_ws_open s" "se_relay (change_relay f s) = f (se_relay s)"
  by (simp_all add: change_relay_def)

lemma tasks_length [simp]: "length (ss_tasks (tcp_step buf cid t ev \<sigma>)) = length (ss_tasks \<sigma>)"
  by (cases ev) (auto simp: run_round_def Let_def split: prod.splits sum.splits bool.splits)

text \<open>The first task's part of the state, and the second's.\<close>

lemma reader_untouched:
  assumes "ev \<noteq> Reads"
  shows "inbound (se_conn (ss_state (tcp_step buf cid t ev \<sigma>))) = inbound (se_conn (ss_state \<sigma>))"
    "conn_closed (se_conn (ss_state (tcp_step buf cid t ev \<sigma>))) = conn_closed (se_conn (ss_state \<sigma>))"
    "se_ws_sent (ss_state (tcp_step buf cid t ev \<sigma>)) = se_ws_sent (ss_state \<sigma>)"
    "ev \<noteq> WebSocketLost \<Longrightarrow> se_ws_open (ss_state (tcp_step buf cid t ev \<sigma>)) = se_ws_open (ss_state \<sigma>)"
    "ss_tasks (tcp_step buf cid t ev \<sigma>) ! 0 =
      (if ev = Disconnects \<and> registered cid t (ss_state \<sigma>) \<and> live 0 \<sigma> then Some Cancelled else ss_tasks \<sigma> ! 0)"
proof -
  have w: "websocket_to_tcp_round cid s = (r, s') \<Longrightarrow> inbound (se_conn s') = inbound (se_conn s) \<and>
      conn_closed (se_conn s') = conn_closed (se_conn s) \<and> se_ws_sent s' = se_ws_sent s \<and> se_ws_open s' = se_ws_open s"
    for s r s'
    by (auto simp: websocket_to_tcp_round_def take_message_def io_bind_def on_conn_def sock_sendall_def
        split: option.splits list.splits message.splits if_splits prod.splits sum.splits)
  obtain r s' where r: "websocket_to_tcp_round cid (ss_state \<sigma>) = (r, s')" by fastforce
  from assms r w [OF r]
  show "inbound (se_conn (ss_state (tcp_step buf cid t ev \<sigma>))) = inbound (se_conn (ss_state \<sigma>))"
    "conn_closed (se_conn (ss_state (tcp_step buf cid t ev \<sigma>))) = conn_closed (se_conn (ss_state \<sigma>))"
    "se_ws_sent (ss_state (tcp_step buf cid t ev \<sigma>)) = se_ws_sent (ss_state \<sigma>)"
    "ev \<noteq> WebSocketLost \<Longrightarrow> se_ws_open (ss_state (tcp_step buf cid t ev \<sigma>)) = se_ws_open (ss_state \<sigma>)"
    "ss_tasks (tcp_step buf cid t ev \<sigma>) ! 0 =
      (if ev = Disconnects \<and> registered cid t (ss_state \<sigma>) \<and> live 0 \<sigma> then Some Cancelled else ss_tasks \<sigma> ! 0)"
    by (cases ev; auto simp: run_round_def Let_def live_def split: sum.splits bool.splits)+
qed

lemma disconnect_keeps_queue:
  "dict_get (message_queues (disconnect_channel c default_delay r)) c' = dict_get (message_queues r) c'"
  by (simp add: disconnect_channel_effect default_delay_def)

lemma writer_untouched:
  assumes "ev \<noteq> Writes"
  shows "outbound (se_conn (ss_state (tcp_step buf cid t ev \<sigma>))) = outbound (se_conn (ss_state \<sigma>))"
    "ss_tasks (tcp_step buf cid t ev \<sigma>) ! 1 = ss_tasks \<sigma> ! 1"
    "dict_get (message_queues (se_relay (ss_state \<sigma>))) (uuid_str cid) = Some q \<Longrightarrow>
     dict_get (message_queues (se_relay (ss_state (tcp_step buf cid t ev \<sigma>)))) (uuid_str cid) =
       Some (q @ (case ev of Arrives m \<Rightarrow> [m] | _ \<Rightarrow> []))"
proof -
  have w: "tcp_to_websocket_round buf cid s = (r, s') \<Longrightarrow>
      outbound (se_conn s') = outbound (se_conn s) \<and> se_relay s' = se_relay s" for s r s'
    by (auto simp: tcp_to_websocket_round_def ws_send_def io_bind_def on_conn_def sock_recv_def
        split: list.splits if_splits prod.splits sum.splits)
  obtain r s' where r: "tcp_to_websocket_round buf cid (ss_state \<sigma>) = (r, s')" by fastforce
  from assms r w [OF r]
  show "outbound (se_conn (ss_state (tcp_step buf cid t ev \<sigma>))) = outbound (se_conn (ss_state \<sigma>))"
    "ss_tasks (tcp_step buf cid t ev \<sigma>) ! 1 = ss_tasks \<sigma> ! 1"
    "dict_get (message_queues (se_relay (ss_state \<sigma>))) (uuid_str cid) = Some q \<Longrightarrow>
     dict_get (message_queues (se_relay (ss_state (tcp_step buf cid t ev \<sigma>)))) (uuid_str cid) =
       Some (q @ (case ev of Arrives m \<Rightarrow> [m] | _ \<Rightarrow> []))"
    by (cases ev; auto simp: run_round_def Let_def live_def put_take disconnect_keeps_queue split: sum.splits bool.splits)+
qed

section \<open>The invariant of a phase\<close>

fun sent_so_far :: "ending option \<Rightarrow> bytes \<Rightarrow> bytes \<Rightarrow> bytes \<Rightarrow> bool" where
  "sent_so_far None sent rest all = (all = sent @ rest)"
| "sent_so_far (Some (Ended (Inr _))) sent rest all = (sent = all)"
| "sent_so_far _ sent rest all = prefix sent all"

definition reader_inv :: "uuid \<Rightarrow> socks_env \<Rightarrow> socks_env session \<Rightarrow> bool" where
  "reader_inv cid s\<^sub>0 \<sigma> \<longleftrightarrow>
     (let s = ss_state \<sigma> in
      length (ss_tasks \<sigma>) = 2 \<and> (ss_tasks \<sigma> ! 0 = None \<longrightarrow> no_empty (se_conn s)) \<and>
      (\<exists>frames ds. se_ws_sent s = se_ws_sent s\<^sub>0 @ frames \<and> list_all2 (data_frame cid) frames ds \<and>
         sent_so_far (ss_tasks \<sigma> ! 0) (concat ds) (stream (inbound (se_conn s))) (stream (inbound (se_conn s\<^sub>0)))))"

definition writer_inv :: "uuid \<Rightarrow> socks_env \<Rightarrow> message list \<Rightarrow> socks_env session \<Rightarrow> bool" where
  "writer_inv cid s\<^sub>0 arrived \<sigma> \<longleftrightarrow>
     (let s = ss_state \<sigma> in
      length (ss_tasks \<sigma>) = 2 \<and>
      (\<exists>q\<^sub>0 q taken. dict_get (message_queues (se_relay s\<^sub>0)) (uuid_str cid) = Some q\<^sub>0 \<and>
         dict_get (message_queues (se_relay s)) (uuid_str cid) = Some q \<and> taken @ q = q\<^sub>0 @ arrived \<and>
         (\<exists>written lost. concat (outbound (se_conn s)) = concat (outbound (se_conn s\<^sub>0)) @ written \<and>
           written @ lost = concat (map payload taken) \<and> (ss_tasks \<sigma> ! 1 = None \<longrightarrow> lost = []))))"

fun arrivals :: "tcp_event list \<Rightarrow> message list" where
  "arrivals [] = []"
| "arrivals (Arrives m # evs) = m # arrivals evs"
| "arrivals (_ # evs) = arrivals evs"

lemma sent_so_far_prefix: "sent_so_far x sent rest all \<Longrightarrow> prefix sent all"
  by (cases "(x, sent, rest, all)" rule: sent_so_far.cases) auto

lemma reader_inv_step:
  assumes "reader_inv cid s\<^sub>0 \<sigma>" "0 < buf"
  shows "reader_inv cid s\<^sub>0 (tcp_step buf cid t ev \<sigma>)"
proof -
  let ?s = "ss_state \<sigma>" and ?all = "stream (inbound (se_conn s\<^sub>0))"
  from assms(1) obtain frames ds where inv: "length (ss_tasks \<sigma>) = 2" "ss_tasks \<sigma> ! 0 = None \<Longrightarrow> no_empty (se_conn ?s)"
    "se_ws_sent ?s = se_ws_sent s\<^sub>0 @ frames" "list_all2 (data_frame cid) frames ds"
    "sent_so_far (ss_tasks \<sigma> ! 0) (concat ds) (stream (inbound (se_conn ?s))) ?all"
    by (auto simp: reader_inv_def Let_def)
  show ?thesis
  proof (cases "ev = Reads")
    case False
    show ?thesis
    proof (cases "ev = Disconnects \<and> registered cid t ?s \<and> live 0 \<sigma>")
      case True
      with False reader_untouched [OF False, where buf = buf and cid = cid and t = t and \<sigma> = \<sigma>] inv sent_so_far_prefix [OF inv(5)] show ?thesis
        unfolding reader_inv_def by (simp add: Let_def) blast
    next
      case untouched: False
      have tasks: "ss_tasks (tcp_step buf cid t ev \<sigma>) ! 0 = ss_tasks \<sigma> ! 0"
        unfolding reader_untouched(5) [OF False] using untouched by (simp only: if_False)
      with reader_untouched(1,3) [OF False, where buf = buf and cid = cid and t = t and \<sigma> = \<sigma>] inv show ?thesis
        unfolding reader_inv_def no_empty_def tasks tasks_length by (simp add: Let_def) blast
    qed
  next
    case ev: True
    show ?thesis
    proof (cases "live 0 \<sigma>")
      case False
      with ev assms(1) show ?thesis by (simp add: run_round_def Let_def reader_inv_def)
    next
      case live: True
      then have at0: "ss_tasks \<sigma> ! 0 = None" by (simp add: live_def)
      note ne = inv(2) [OF at0]
      have sofar: "?all = concat ds @ stream (inbound (se_conn ?s))" using inv(5) at0 by simp
      obtain r s' where round: "tcp_to_websocket_round buf cid ?s = (r, s')" by fastforce
      from round show ?thesis
      proof (cases rule: read_round_cases)
        case (failed e)
        with ev live round inv(1,3,4) sofar show ?thesis
          unfolding reader_inv_def Let_def
          by (intro conjI exI [of _ frames] exI [of _ ds]) (simp_all add: run_round_def Let_def live_def)
      next
        case (ended c)
        from recv_no_empty [OF ne _ ended(2)] assms(2) have "stream (inbound (se_conn ?s)) = []" by simp
        with ended ev live round inv(1,3,4) sofar show ?thesis
          unfolding reader_inv_def Let_def
          by (intro conjI exI [of _ frames] exI [of _ ds]) (simp_all add: run_round_def Let_def live_def)
      next
        case (sent d c frame)
        have "no_empty c" using recv_no_empty(1) [OF ne _ sent(2)] assms(2) by simp
        moreover have "?all = concat (ds @ [d]) @ stream (inbound c)"
          using sofar recv_stream [OF sent(2)] by simp
        moreover have "list_all2 (data_frame cid) (frames @ [frame]) (ds @ [d])"
          using inv(4) sent(4) by (simp add: list_all2_appendI)
        moreover have "tcp_step buf cid t ev \<sigma> = \<sigma>\<lparr>ss_state := s'\<rparr>"
          using ev live round sent(1) by (simp add: run_round_def Let_def live_def)
        ultimately show ?thesis
          using inv(1,3) sent(5) at0 unfolding reader_inv_def Let_def
          by (intro conjI exI [of _ "frames @ [frame]"] exI [of _ "ds @ [d]"]) simp_all
      qed
    qed
  qed
qed

lemma writer_inv_step:
  assumes "writer_inv cid s\<^sub>0 arrived \<sigma>"
  shows "writer_inv cid s\<^sub>0 (arrived @ arrivals [ev]) (tcp_step buf cid t ev \<sigma>)"
proof -
  let ?s = "ss_state \<sigma>" and ?out = "\<lambda>s. concat (outbound (se_conn s))"
  from assms obtain q\<^sub>0 q taken written lost where inv: "length (ss_tasks \<sigma>) = 2"
    "dict_get (message_queues (se_relay s\<^sub>0)) (uuid_str cid) = Some q\<^sub>0"
    "dict_get (message_queues (se_relay ?s)) (uuid_str cid) = Some q" "taken @ q = q\<^sub>0 @ arrived"
    "?out ?s = ?out s\<^sub>0 @ written" "written @ lost = concat (map payload taken)" "ss_tasks \<sigma> ! 1 = None \<Longrightarrow> lost = []"
    by (auto simp: writer_inv_def Let_def)
  show ?thesis
  proof (cases "ev = Writes")
    case False
    have "arrivals [ev] = (case ev of Arrives m \<Rightarrow> [m] | _ \<Rightarrow> [])" by (cases ev) simp_all
    with writer_untouched [OF False, where buf = buf and cid = cid and t = t and \<sigma> = \<sigma>] inv show ?thesis
      unfolding writer_inv_def Let_def
      by (intro conjI exI [of _ q\<^sub>0] exI [of _ "q @ arrivals [ev]"] exI [of _ taken] exI [of _ written] exI [of _ lost]) simp_all
  next
    case ev: True
    show ?thesis
    proof (cases "live 1 \<sigma>")
      case False
      with ev assms show ?thesis by (simp add: run_round_def)
    next
      case live: True
      then have at1: "lost = []" using inv(7) by (simp add: live_def)
      obtain r s' where round: "websocket_to_tcp_round cid ?s = (r, s')" by fastforce
      from round inv(3) show ?thesis
      proof (cases rule: write_round_cases)
        case waits
        with ev live round assms show ?thesis by (simp add: run_round_def)
      next
        case (wrote m q' c relay)
        with ev live round inv at1 show ?thesis
          unfolding writer_inv_def Let_def
          by (intro conjI exI [of _ q\<^sub>0] exI [of _ q'] exI [of _ "taken @ [m]"]
              exI [of _ "written @ payload m"] exI [of _ "[]"])
            (simp_all add: run_round_def live_def)
      next
        case (lost m q' e relay)
        with ev live round inv at1 show ?thesis
          unfolding writer_inv_def Let_def
          by (intro conjI exI [of _ q\<^sub>0] exI [of _ q'] exI [of _ "taken @ [m]"]
              exI [of _ written] exI [of _ "payload m"])
            (simp_all add: run_round_def live_def)
      qed
    qed
  qed
qed

lemma session_append:
  "tcp_session buf cid t (evs @ [ev]) s = tcp_step buf cid t ev (tcp_session buf cid t evs s)"
  by (simp add: tcp_session_def)

interpretation reading: invariant_machine "\<lambda>\<sigma> ev. tcp_step buf cid t ev \<sigma>" "\<lambda>\<sigma>. reader_inv cid s \<sigma> \<and> 0 < buf"
  for buf cid t s
  by unfold_locales (blast intro: reader_inv_step)

lemma phase_reader_inv:
  assumes "no_empty (se_conn s)" "0 < buf"
  shows "reader_inv cid s (tcp_session buf cid t evs s)"
  using reading.run_keeps [of cid s "start_tasks 2 s" buf t evs] assms
  by (simp add: tcp_session_def reader_inv_def numeral_2_eq_2)

lemma arrivals_append: "arrivals (xs @ ys) = arrivals xs @ arrivals ys"
  by (induction xs rule: arrivals.induct) simp_all

lemma phase_writer_inv:
  assumes "dict_get (message_queues (se_relay s)) (uuid_str cid) = Some q"
  shows "writer_inv cid s (arrivals evs) (tcp_session buf cid t evs s)"
proof (induction evs rule: rev_induct)
  case Nil
  with assms show ?case by (simp add: tcp_session_def writer_inv_def)
next
  case (snoc ev evs)
  from writer_inv_step [OF this] show ?case unfolding session_append arrivals_append .
qed

section \<open>The loop and its rounds\<close>

lemma loop_depends_on:
  "inbound c = inbound c' \<Longrightarrow> conn_closed c = conn_closed c' \<Longrightarrow>
     tcp_to_websocket (\<lambda>_. a) i buf cid c = tcp_to_websocket (\<lambda>_. a) j buf cid c'"
proof (induction "pending c" arbitrary: c c' i j rule: less_induct)
  case less
  let ?n = "min buf 65535"
  obtain r c1 where r: "sock_recv ?n c = (r, c1)" by fastforce
  obtain r' c1' where r': "sock_recv ?n c' = (r', c1')" by fastforce
  from r r' less.prems have same: "r' = r" "inbound c1 = inbound c1'" "conn_closed c1 = conn_closed c1'"
    by (auto simp: sock_recv_def split: if_splits list.splits sum.splits)
  show ?case
  proof (cases "\<exists>d. r = Inr d \<and> d \<noteq> []")
    case True
    then obtain d where d: "r = Inr d" "d \<noteq> []" by blast
    from less.hyps [OF recv_pending [OF r [unfolded d(1)] d(2)] same(2,3), of "Suc i" "Suc j"] r r' same(1) d show ?thesis
      by (subst (1 2) tcp_to_websocket.simps) (cases a; simp split: sum.split)
  next
    case False
    with r r' same(1) show ?thesis
      by (subst (1 2) tcp_to_websocket.simps) (auto split: sum.split)
  qed
qed

lemma loop_step:
  assumes "tcp_to_websocket_round buf cid s = (r, s')"
  shows "tcp_to_websocket (\<lambda>_. se_ws_open s) i buf cid (se_conn s) =
    (case r of
       Inl e \<Rightarrow> ([], Inl e)
     | Inr True \<Rightarrow> ([], Inr ())
     | Inr False \<Rightarrow>
         (last (se_ws_sent s') # fst (tcp_to_websocket (\<lambda>_. se_ws_open s) (i + 1) buf cid (se_conn s')),
          snd (tcp_to_websocket (\<lambda>_. se_ws_open s) (i + 1) buf cid (se_conn s'))))"
  using assms
  by (subst tcp_to_websocket.simps)
    (auto simp: tcp_to_websocket_round_def io_bind_def on_conn_def ws_send_def split_def
      split: sum.splits if_splits prod.splits)

lemma reader_finished:
  assumes "ss_tasks \<sigma> ! 0 = Some x"
  shows "ss_tasks (foldl (\<lambda>\<sigma> ev. tcp_step buf cid t ev \<sigma>) \<sigma> evs) ! 0 = Some x \<and>
    se_ws_sent (ss_state (foldl (\<lambda>\<sigma> ev. tcp_step buf cid t ev \<sigma>) \<sigma> evs)) = se_ws_sent (ss_state \<sigma>)"
  using assms
proof (induction evs arbitrary: \<sigma>)
  case (Cons ev evs)
  have "ss_tasks (tcp_step buf cid t ev \<sigma>) ! 0 = Some x \<and>
      se_ws_sent (ss_state (tcp_step buf cid t ev \<sigma>)) = se_ws_sent (ss_state \<sigma>)"
  proof (cases "ev = Reads")
    case True
    with Cons.prems show ?thesis by (simp add: run_round_def live_def Let_def)
  next
    case False
    from reader_untouched(3,5) [OF False] Cons.prems show ?thesis by (simp add: live_def)
  qed
  with Cons.IH show ?case by simp
qed simp

text \<open>
  Whatever happens in between, enough rounds of the first task are its loop.
\<close>

lemma rounds_are_loop:
  fixes buf cid t
  assumes "live 0 \<sigma>" "pending (se_conn (ss_state \<sigma>)) < count_list evs Reads"
    "Disconnects \<notin> set evs" "WebSocketLost \<notin> set evs"
  defines "loop \<equiv> \<lambda>s. tcp_to_websocket (\<lambda>_. se_ws_open s) 0 buf cid (se_conn s)"
    and "run \<equiv> \<lambda>\<sigma> evs. foldl (\<lambda>\<sigma> ev. tcp_step buf cid t ev \<sigma>) \<sigma> evs"
  shows "se_ws_sent (ss_state (run \<sigma> evs)) = se_ws_sent (ss_state \<sigma>) @ fst (loop (ss_state \<sigma>)) \<and>
    ss_tasks (run \<sigma> evs) ! 0 = Some (Ended (snd (loop (ss_state \<sigma>))))"
  using assms(1-4)
proof (induction evs arbitrary: \<sigma>)
  case (Cons ev evs)
  let ?s = "ss_state \<sigma>" and ?\<sigma> = "tcp_step buf cid t ev \<sigma>"
  have run: "run \<sigma> (ev # evs) = run ?\<sigma> evs" by (simp add: run_def)
  show ?case
  proof (cases "ev = Reads")
    case False
    note u = reader_untouched [OF False, where buf = buf and cid = cid and t = t and \<sigma> = \<sigma>]
    from Cons.prems(3,4) have ev: "ev \<noteq> Disconnects" "ev \<noteq> WebSocketLost" by auto
    with u have same: "loop (ss_state ?\<sigma>) = loop ?s" "pending (se_conn (ss_state ?\<sigma>)) = pending (se_conn ?s)"
      unfolding loop_def by (auto intro: loop_depends_on simp: pending_def)
    have "live 0 ?\<sigma>" using Cons.prems(1) u(5) ev by (simp add: live_def)
    from Cons.IH [OF this] Cons.prems False same u(3,5) ev show ?thesis unfolding run by simp
  next
    case ev: True
    obtain r s' where round: "tcp_to_websocket_round buf cid ?s = (r, s')" by fastforce
    note loop = loop_step [OF round, of 0]
    from round show ?thesis
    proof (cases rule: read_round_cases)
      case (failed e)
      with ev Cons.prems(1) round have "ss_tasks ?\<sigma> ! 0 = Some (Ended (Inl e))"
        "se_ws_sent (ss_state ?\<sigma>) = se_ws_sent ?s"
        by (simp_all add: run_round_def live_def Let_def)
      with reader_finished [of ?\<sigma>] loop failed show ?thesis unfolding run run_def loop_def by simp
    next
      case (ended c)
      with ev Cons.prems(1) round have "ss_tasks ?\<sigma> ! 0 = Some (Ended (Inr ()))"
        "se_ws_sent (ss_state ?\<sigma>) = se_ws_sent ?s"
        by (simp_all add: run_round_def live_def Let_def)
      with reader_finished [of ?\<sigma>] loop ended show ?thesis unfolding run run_def loop_def by simp
    next
      case (sent d c frame)
      with ev Cons.prems(1) round have step: "?\<sigma> = \<sigma>\<lparr>ss_state := s'\<rparr>" "live 0 ?\<sigma>"
        by (simp_all add: run_round_def live_def Let_def)
      have "pending c < pending (se_conn ?s)" by (rule recv_pending [OF sent(2,3)])
      with Cons.prems(2) ev sent(5) have "pending (se_conn (ss_state ?\<sigma>)) < count_list evs Reads"
        unfolding step(1) by simp
      from Cons.IH [OF step(2) this] Cons.prems(3,4) loop sent show ?thesis
        unfolding run step(1) by (simp add: loop_depends_on [of c c _ "Suc 0" _ _ 0] loop_def)
    qed
  qed
qed simp

section \<open>Properties\<close>

text \<open>
  A TCP forwarding phase keeps the order and loses nothing on its way, whatever the interleaving of its two
  tasks, of arriving messages, disconnects and failures: what it has sent on the WebSocket are data
  messages of its channel whose contents are a beginning of what the socket delivers, all of it together
  with what is still unread while the reading task runs, and all of it once that task has ended at the end of the
  stream; what it has written to the socket is a beginning of the contents of the messages it took, and all
  of it unless a write failed; and the messages taken and those still waiting are those
  that were put into the queue, in order.
\<close>

theorem tcp_phase_in_order:
  fixes buf cid t evs s
  assumes "no_empty (se_conn s)" "0 < buf" "dict_get (message_queues (se_relay s)) (uuid_str cid) = Some q"
  defines "\<sigma> \<equiv> tcp_session buf cid t evs s"
  defines "s' \<equiv> ss_state \<sigma>"
  shows "\<exists>frames ds taken left written lost.
    se_ws_sent s' = se_ws_sent s @ frames \<and>
    map (parse_message gunzip) frames = map (Inr \<circ> tcp_data_message cid) ds \<and>
    sent_so_far (ss_tasks \<sigma> ! 0) (concat ds) (stream (inbound (se_conn s'))) (stream (inbound (se_conn s))) \<and>
    dict_get (message_queues (se_relay s')) (uuid_str cid) = Some left \<and> taken @ left = q @ arrivals evs \<and>
    concat (outbound (se_conn s')) = concat (outbound (se_conn s)) @ written \<and>
    written @ lost = concat (map payload taken) \<and> (ss_tasks \<sigma> ! 1 = None \<longrightarrow> lost = [])"
proof -
  have parses: "list_all2 (data_frame cid) frames ds \<Longrightarrow>
      map (parse_message gunzip) frames = map (Inr \<circ> tcp_data_message cid) ds" for frames ds
    by (induction rule: list_all2_induct) (auto simp: data_frame_parses)
  from phase_reader_inv [OF assms(1,2), of cid t evs] obtain frames ds where
    r: "se_ws_sent s' = se_ws_sent s @ frames" "list_all2 (data_frame cid) frames ds"
    "sent_so_far (ss_tasks \<sigma> ! 0) (concat ds) (stream (inbound (se_conn s'))) (stream (inbound (se_conn s)))"
    unfolding reader_inv_def \<sigma>_def s'_def Let_def by blast
  from phase_writer_inv [OF assms(3), of evs buf t] assms(3) obtain left taken written lost where
    w: "dict_get (message_queues (se_relay s')) (uuid_str cid) = Some left" "taken @ left = q @ arrivals evs"
    "concat (outbound (se_conn s')) = concat (outbound (se_conn s)) @ written" "written @ lost = concat (map payload taken)"
    "ss_tasks \<sigma> ! 1 = None \<longrightarrow> lost = []"
    unfolding writer_inv_def \<sigma>_def s'_def Let_def by auto
  show ?thesis by (intro exI conjI) (fact r(1) parses [OF r(2)] r(3) w)+
qed

definition busy_env :: socks_env where
  "busy_env = change_relay (open_queue (uuid_str 9)) (sample_env (fresh_conn [[1, 2, 3], [4]]))"

lemma busy_env_simps [simp]:
  "se_conn busy_env = fresh_conn [[1, 2, 3], [4]]" "se_ws_open busy_env" "se_ws_sent busy_env = []"
  "dict_get (message_queues (se_relay busy_env)) (uuid_str 9) = Some []"
  by (simp_all add: busy_env_def sample_env_def open_queue_def dict_simps)

theorem tcp_phase_in_order_witness:
  "\<exists>ds left. let \<sigma> = tcp_session 2 9 1 [Reads, Arrives (tcp_data_message 9 [7]), Writes, Disconnects, Reads] busy_env in
    prefix (concat ds) [1, 2, 3, 4] \<and>
    map (parse_message Inr) (se_ws_sent (ss_state \<sigma>)) = map (Inr \<circ> tcp_data_message 9) ds \<and>
    dict_get (message_queues (se_relay (ss_state \<sigma>))) (uuid_str 9) = Some left"
proof -
  have "no_empty (se_conn busy_env)" by (simp add: no_empty_def fresh_conn_def)
  from tcp_phase_in_order [OF this, where buf = 2 and cid = 9 and q = "[]" and t = 1 and gunzip = Inr and
      evs = "[Reads, Arrives (tcp_data_message 9 [7]), Writes, Disconnects, Reads]"]
  show ?thesis by (auto simp: Let_def fresh_conn_def dest!: sent_so_far_prefix)
qed



lemma ws_send_or_not:
  "\<exists>s'. io_catch (ws_send msg) (\<lambda>_. io_return ()) s = (Inr (), s') \<and> se_conn s' = se_conn s \<and> se_relay s' = se_relay s"
  by (cases "pack_message id msg") (simp_all add: io_catch_def ws_send_def del: pack_message.simps)


end
