(* ===== verification/Tokens.thy ===== *)
theory Tokens
  imports Relay PortPool ConnectorCache
begin

text \<open>
  The server's state and its token operations (class \<open>WSSocksServer\<close> of \<^verbatim>\<open>pywssocks/server.py\<close>:
  \<open>add_reverse_token\<close>, \<open>add_forward_token\<close>, \<open>add_connector_token\<close>, \<open>remove_token\<close>,
  \<open>remove_connector_token\<close>, \<open>_handle_pending_token\<close>, \<open>_get_next_websocket\<close>).

  The record extends the relay's by the attributes of the class. A running SOCKS server task is
  represented by the token it serves. What the code hands to the event loop and to its connections
  (closing a connection or sending on it, cleaning up the channel cache, starting or cancelling a
  SOCKS server or the handler of a connect message) is appended to \<open>srv_actions\<close>, in order; the operations themselves run without suspension, so each is one step.
\<close>

section \<open>State\<close>

record token_options =
  opt_username :: "pystr option"
  opt_password :: "pystr option"
  opt_allow_manage_connector :: bool

datatype action =
    CloseWs ws int pystr
  | CacheCleanup pystr
  | HandlePending pystr
  | StartSocks pystr int
  | CancelSocks int
  | SendWs ws bytes
  | StartNetwork ws message
  | CancelNetwork ws

type_synonym client_id = uuid

record server = relay +
  srv_loop :: bool
  srv_port_pool :: port_pool
  srv_wait_client :: bool
  srv_pending_tokens :: "pystr list"
  srv_clients :: "(client_id, ws) dict"
  srv_token_locks :: "pystr set"
  srv_token_clients :: "(pystr, (client_id \<times> ws) list) dict"
  srv_token_indexes :: "(pystr, nat) dict"
  srv_tokens :: "(pystr, int) dict"
  srv_socks_tasks :: "(int, pystr) dict"
  srv_forward_tokens :: "pystr set"
  srv_forward_clients :: "(client_id, ws) dict"
  srv_connector_tokens :: "(pystr, pystr) dict"
  srv_internal_tokens :: "(pystr, pystr list) dict"
  srv_token_options :: "(pystr, token_options) dict"
  srv_conn_cache :: connector_cache
  srv_actions :: "action list"

definition srv_init :: "int list \<Rightarrow> bool \<Rightarrow> server" where
  "srv_init ports wait_client =
     \<lparr>message_queues = [], udp_client_addrs = [], tcp_tasks = [], udp_tasks = [],
      connection_success_map = [], done_tasks = {}, cancelled = [], queue_timers = [], rl_clock = 0,
      srv_loop = False, srv_port_pool = pp_init ports, srv_wait_client = wait_client,
      srv_pending_tokens = [], srv_clients = [], srv_token_locks = {}, srv_token_clients = [],
      srv_token_indexes = [], srv_tokens = [], srv_socks_tasks = [], srv_forward_tokens = {},
      srv_forward_clients = [], srv_connector_tokens = [], srv_internal_tokens = [],
      srv_token_options = [], srv_conn_cache = cc_init, srv_actions = []\<rparr>"

section \<open>Building blocks\<close>

text \<open>\<^verbatim>\<open>self._loop.create_task(...)\<close>, which the code does only when the loop is running.\<close>

definition emit_if_loop :: "action \<Rightarrow> server \<Rightarrow> server" where
  "emit_if_loop a s = (if srv_loop s then s\<lparr>srv_actions := srv_actions s @ [a]\<rparr> else s)"

text \<open>\<^verbatim>\<open>"".join(random.choice(chars) for _ in range(16))\<close>: \<open>draws i\<close> is the \<open>i\<close>-th random draw.\<close>

definition token_chars :: pystr where
  "token_chars = [97..<123] @ [65..<91] @ [48..<58]"

definition random_token :: "(nat \<Rightarrow> nat) \<Rightarrow> pystr" where
  "random_token draws = map (\<lambda>i. random_choice (draws i) token_chars) [0..<16]"

definition token_removed :: pystr where
  "token_removed = lit ''Token removed''"

text \<open>
  Close every connection of a client list and forget the clients; and the same for all clients of a
  token, whose list is then dropped.
\<close>

fun close_clients :: "(client_id \<times> ws) list \<Rightarrow> server \<Rightarrow> server" where
  "close_clients [] s = s"
| "close_clients ((cid, w) # r) s =
     (let s = emit_if_loop (CloseWs w 1000 token_removed) s;
          s = (if has_key (srv_clients s) cid then s\<lparr>srv_clients := dict_del cid (srv_clients s)\<rparr> else s)
      in close_clients r s)"

definition close_token_clients :: "pystr \<Rightarrow> server \<Rightarrow> server" where
  "close_token_clients token s =
     (case dict_get (srv_token_clients s) token of
        None \<Rightarrow> s
      | Some cs \<Rightarrow>
          (let s = close_clients cs s in
           s\<lparr>srv_token_clients := dict_del token (srv_token_clients s)\<rparr>))"

section \<open>Adding tokens\<close>

definition add_connector_token ::
    "(nat \<Rightarrow> nat) \<Rightarrow> pystr option \<Rightarrow> pystr option \<Rightarrow> server \<Rightarrow> pystr option \<times> server" where
  "add_connector_token draws connector_token reverse_token s =
     (if \<not> truthy reverse_token \<or> \<not> has_key (srv_tokens s) (the reverse_token) then (None, s)
      else
        (let connector_token = (case connector_token of None \<Rightarrow> random_token draws | Some t \<Rightarrow> t) in
         if has_key (srv_connector_tokens s) connector_token then (None, s)
         else
           (Some connector_token,
            s\<lparr>srv_connector_tokens :=
              dict_set connector_token (the reverse_token) (srv_connector_tokens s)\<rparr>)))"

text \<open>The entries a new reverse token gets, and the task (or the note for later) that starts its server.\<close>

definition register_reverse_token :: "pystr \<Rightarrow> int \<Rightarrow> token_options \<Rightarrow> server \<Rightarrow> server" where
  "register_reverse_token token port opts s =
     (let s = s\<lparr>srv_tokens := dict_set token port (srv_tokens s),
                srv_token_locks := insert token (srv_token_locks s)\<rparr>;
          s = s\<lparr>srv_token_options := dict_set token opts (srv_token_options s)\<rparr>
      in if srv_loop s then emit_if_loop (HandlePending token) s
         else s\<lparr>srv_pending_tokens := srv_pending_tokens s @ [token]\<rparr>)"

definition add_reverse_token ::
    "(nat \<Rightarrow> nat) \<Rightarrow> nat \<Rightarrow> pystr option \<Rightarrow> int option \<Rightarrow> pystr option \<Rightarrow> pystr option \<Rightarrow> bool \<Rightarrow>
     server \<Rightarrow> (pystr \<times> int) option \<times> server" where
  "add_reverse_token draws draw token port username password allow_manage_connector s =
     (let token = (case token of None \<Rightarrow> random_token draws | Some t \<Rightarrow> t);
          opts = \<lparr>opt_username = username, opt_password = password,
            opt_allow_manage_connector = allow_manage_connector\<rparr> in
      case dict_get (srv_tokens s) token of
        Some p \<Rightarrow> (Some (token, p), s)
      | None \<Rightarrow>
          (if allow_manage_connector
           then (Some (token, - 1), register_reverse_token token (- 1) opts s)
           else
             (case pp_get draw port (srv_port_pool s) of
                (got, pool) \<Rightarrow>
                  (let s = s\<lparr>srv_port_pool := pool\<rparr> in
                   case got of
                     None \<Rightarrow> (None, s)
                   | Some p \<Rightarrow>
                       (if p = 0 then (None, s)
                        else (Some (token, p), register_reverse_token token p opts s))))))"

definition add_forward_token :: "(nat \<Rightarrow> nat) \<Rightarrow> pystr option \<Rightarrow> server \<Rightarrow> pystr \<times> server" where
  "add_forward_token draws token s =
     (let token = (case token of None \<Rightarrow> random_token draws | Some t \<Rightarrow> t) in
      (token, s\<lparr>srv_forward_tokens := insert token (srv_forward_tokens s)\<rparr>))"

section \<open>Removing tokens\<close>

text \<open>The branch of both removals that handles a connector token.\<close>

definition drop_connector_token :: "pystr \<Rightarrow> server \<Rightarrow> server" where
  "drop_connector_token token s =
     (let s = emit_if_loop (CacheCleanup token) s;
          s = close_token_clients token s
      in s\<lparr>srv_connector_tokens := dict_del token (srv_connector_tokens s)\<rparr>)"

definition remove_connector_token :: "pystr \<Rightarrow> server \<Rightarrow> bool \<times> server" where
  "remove_connector_token connector_token s =
     (if \<not> has_key (srv_connector_tokens s) connector_token then (False, s)
      else (True, drop_connector_token connector_token s))"

definition drop_internal_token :: "pystr \<Rightarrow> server \<Rightarrow> server" where
  "drop_internal_token internal_token s =
     (let s = close_token_clients internal_token s
      in s\<lparr>srv_tokens := dict_del internal_token (srv_tokens s),
           srv_token_indexes := dict_del internal_token (srv_token_indexes s),
           srv_token_options := dict_del internal_token (srv_token_options s)\<rparr>)"

definition drop_internal_tokens :: "pystr \<Rightarrow> server \<Rightarrow> server" where
  "drop_internal_tokens token s =
     (case dict_get (srv_internal_tokens s) token of
        None \<Rightarrow> s
      | Some its \<Rightarrow>
          (let s = fold drop_internal_token its s
           in s\<lparr>srv_internal_tokens := dict_del token (srv_internal_tokens s)\<rparr>))"

text \<open>What is left to do for a reverse token once its internal and connector tokens are gone.\<close>

definition drop_reverse_token :: "pystr \<Rightarrow> server \<Rightarrow> bool res \<times> server" where
  "drop_reverse_token token s =
     (let s = emit_if_loop (CacheCleanup token) s;
          s = close_token_clients token s
      in case dict_get (srv_tokens s) token of
           None \<Rightarrow> (Inl KeyError, s)
         | Some port \<Rightarrow>
             (let s = s\<lparr>srv_tokens := dict_del token (srv_tokens s),
                       srv_token_locks := srv_token_locks s - {token},
                       srv_token_indexes := dict_del token (srv_token_indexes s),
                       srv_token_options := dict_del token (srv_token_options s),
                       srv_pending_tokens := remove1 token (srv_pending_tokens s)\<rparr>;
                  s = (if has_key (srv_socks_tasks s) port
                       then s\<lparr>srv_actions := srv_actions s @ [CancelSocks port],
                              srv_socks_tasks := dict_del port (srv_socks_tasks s)\<rparr>
                       else s)
              in (Inr True, s\<lparr>srv_port_pool := pp_put port (srv_port_pool s)\<rparr>)))"

definition drop_forward_token :: "pystr \<Rightarrow> server \<Rightarrow> server" where
  "drop_forward_token token s =
     (let s = fold (\<lambda>(cid, w). emit_if_loop (CloseWs w 1000 token_removed)) (srv_forward_clients s) s
      in s\<lparr>srv_forward_clients := [], srv_forward_tokens := srv_forward_tokens s - {token}\<rparr>)"

text \<open>
  \<open>remove_token\<close> calls itself for the connector tokens of a reverse token, over a snapshot of the
  dictionary. The fuel bounds the depth of the calls; \<open>remove_token_total\<close> shows that two levels are
  all there are.
\<close>

fun remove_each ::
    "(pystr \<Rightarrow> server \<Rightarrow> bool res \<times> server) \<Rightarrow> pystr \<Rightarrow> (pystr \<times> pystr) list \<Rightarrow> server \<Rightarrow>
     unit res \<times> server" where
  "remove_each remove token [] s = (Inr (), s)"
| "remove_each remove token ((connector_token, rt) # r) s =
     (if rt = token then
        (case remove connector_token s of
           (Inl e, s) \<Rightarrow> (Inl e, s)
         | (Inr _, s) \<Rightarrow> remove_each remove token r s)
      else remove_each remove token r s)"

fun remove_token_fuel :: "nat \<Rightarrow> pystr \<Rightarrow> server \<Rightarrow> bool res \<times> server" where
  "remove_token_fuel 0 token s = (Inl OutOfFuel, s)"
| "remove_token_fuel (Suc n) token s =
     (if \<not> has_key (srv_tokens s) token \<and> token \<notin> srv_forward_tokens s \<and>
         \<not> has_key (srv_connector_tokens s) token
      then (Inr False, s)
      else if has_key (srv_connector_tokens s) token then (Inr True, drop_connector_token token s)
      else if has_key (srv_tokens s) token then
        (let s = drop_internal_tokens token s in
         case remove_each (remove_token_fuel n) token (srv_connector_tokens s) s of
           (Inl e, s) \<Rightarrow> (Inl e, s)
         | (Inr _, s) \<Rightarrow> drop_reverse_token token s)
      else if token \<in> srv_forward_tokens s then (Inr True, drop_forward_token token s)
      else (Inr False, s))"

definition remove_token :: "pystr \<Rightarrow> server \<Rightarrow> bool res \<times> server" where
  "remove_token = remove_token_fuel 2"

section \<open>Starting SOCKS servers and choosing clients\<close>

text \<open>
  \<open>_handle_pending_token\<close> as the event loop runs it, for a token that may have been removed in the
  meantime.
\<close>

definition handle_pending_token :: "pystr \<Rightarrow> server \<Rightarrow> unit res \<times> server" where
  "handle_pending_token token s =
     (if srv_wait_client s then (Inr (), s)
      else
        case dict_get (srv_tokens s) token of
          None \<Rightarrow> (Inr (), s)
        | Some socks_port \<Rightarrow>
            (if socks_port = 0 then (Inr (), s)
             else if token \<notin> srv_token_locks s then (Inl KeyError, s)
             else if has_key (srv_socks_tasks s) socks_port then (Inr (), s)
             else
               (Inr (),
                s\<lparr>srv_socks_tasks := dict_set socks_port token (srv_socks_tasks s),
                  srv_actions := srv_actions s @ [StartSocks token socks_port]\<rparr>)))"

definition get_next_websocket :: "pystr \<Rightarrow> server \<Rightarrow> ws option res \<times> server" where
  "get_next_websocket token s =
     (if token \<notin> srv_token_locks s then (Inl KeyError, s)
      else
        case dict_get (srv_token_clients s) token of
          None \<Rightarrow> (Inr None, s)
        | Some [] \<Rightarrow> (Inr None, s)
        | Some clients \<Rightarrow>
            (let current_index = (case dict_get (srv_token_indexes s) token of Some i \<Rightarrow> i | None \<Rightarrow> 0);
                 current_index = (current_index + 1) mod length clients
             in (Inr (Some (snd (clients ! current_index))),
                 s\<lparr>srv_token_indexes := dict_set token current_index (srv_token_indexes s)\<rparr>)))"

section \<open>What each building block changes\<close>

lemma dict_del_if: "(if has_key d k then dict_del k d else d) = dict_del k d"
  by (auto simp: has_key_iff intro!: delete_id [symmetric])

definition closing :: "bool \<Rightarrow> (client_id \<times> ws) list \<Rightarrow> action list" where
  "closing loop cs = (if loop then map (\<lambda>c. CloseWs (snd c) 1000 token_removed) cs else [])"

lemma emit_if_loop_eq:
  "emit_if_loop a s = s\<lparr>srv_actions := srv_actions s @ (if srv_loop s then [a] else [])\<rparr>"
  by (simp add: emit_if_loop_def)

lemma close_clients_eq:
  "close_clients cs s =
     s\<lparr>srv_actions := srv_actions s @ closing (srv_loop s) cs,
       srv_clients := fold (\<lambda>c. dict_del (fst c)) cs (srv_clients s)\<rparr>"
proof (induction cs arbitrary: s)
  case Nil
  then show ?case by (simp add: closing_def)
next
  case (Cons c cs)
  obtain cid w where c: "c = (cid, w)" by (cases c)
  have "close_clients (c # cs) s =
      close_clients cs (s\<lparr>srv_actions := srv_actions s @ (if srv_loop s then [CloseWs w 1000 token_removed] else []),
        srv_clients := dict_del cid (srv_clients s)\<rparr>)"
    by (auto simp: c emit_if_loop_eq Let_def has_key_iff delete_id [symmetric])
  then show ?case by (simp add: Cons closing_def c)
qed

lemma close_token_clients_eq:
  "close_token_clients t s =
     (case dict_get (srv_token_clients s) t of
        None \<Rightarrow> s
      | Some cs \<Rightarrow>
          s\<lparr>srv_actions := srv_actions s @ closing (srv_loop s) cs,
            srv_clients := fold (\<lambda>c. dict_del (fst c)) cs (srv_clients s),
            srv_token_clients := dict_del t (srv_token_clients s)\<rparr>)"
  by (simp add: close_token_clients_def close_clients_eq Let_def split: option.split)

lemma close_token_clients_simps [simp]:
  "srv_tokens (close_token_clients t s) = srv_tokens s"
  "srv_token_locks (close_token_clients t s) = srv_token_locks s"
  "srv_token_options (close_token_clients t s) = srv_token_options s"
  "srv_token_indexes (close_token_clients t s) = srv_token_indexes s"
  "srv_port_pool (close_token_clients t s) = srv_port_pool s"
  "srv_connector_tokens (close_token_clients t s) = srv_connector_tokens s"
  "srv_internal_tokens (close_token_clients t s) = srv_internal_tokens s"
  "srv_socks_tasks (close_token_clients t s) = srv_socks_tasks s"
  "srv_pending_tokens (close_token_clients t s) = srv_pending_tokens s"
  "srv_forward_tokens (close_token_clients t s) = srv_forward_tokens s"
  "srv_forward_clients (close_token_clients t s) = srv_forward_clients s"
  "srv_loop (close_token_clients t s) = srv_loop s"
  by (simp_all add: close_token_clients_eq split: option.split)

lemma close_token_clients_get [dict_simps]:
  "dict_get (srv_token_clients (close_token_clients t s)) t' =
     (if t' = t then None else dict_get (srv_token_clients s) t')"
  by (auto simp: close_token_clients_eq dict_simps split: option.split)

lemma emit_if_loop_simps [simp]:
  "srv_tokens (emit_if_loop a s) = srv_tokens s"
  "srv_token_locks (emit_if_loop a s) = srv_token_locks s"
  "srv_token_options (emit_if_loop a s) = srv_token_options s"
  "srv_token_indexes (emit_if_loop a s) = srv_token_indexes s"
  "srv_port_pool (emit_if_loop a s) = srv_port_pool s"
  "srv_connector_tokens (emit_if_loop a s) = srv_connector_tokens s"
  "srv_internal_tokens (emit_if_loop a s) = srv_internal_tokens s"
  "srv_socks_tasks (emit_if_loop a s) = srv_socks_tasks s"
  "srv_pending_tokens (emit_if_loop a s) = srv_pending_tokens s"
  "srv_forward_tokens (emit_if_loop a s) = srv_forward_tokens s"
  "srv_forward_clients (emit_if_loop a s) = srv_forward_clients s"
  "srv_token_clients (emit_if_loop a s) = srv_token_clients s"
  "srv_clients (emit_if_loop a s) = srv_clients s"
  "srv_loop (emit_if_loop a s) = srv_loop s"
  by (simp_all add: emit_if_loop_def)

lemma drop_connector_simps [simp]:
  "srv_tokens (drop_connector_token t s) = srv_tokens s"
  "srv_token_locks (drop_connector_token t s) = srv_token_locks s"
  "srv_token_options (drop_connector_token t s) = srv_token_options s"
  "srv_token_indexes (drop_connector_token t s) = srv_token_indexes s"
  "srv_port_pool (drop_connector_token t s) = srv_port_pool s"
  "srv_internal_tokens (drop_connector_token t s) = srv_internal_tokens s"
  "srv_socks_tasks (drop_connector_token t s) = srv_socks_tasks s"
  "srv_pending_tokens (drop_connector_token t s) = srv_pending_tokens s"
  "srv_forward_tokens (drop_connector_token t s) = srv_forward_tokens s"
  "srv_forward_clients (drop_connector_token t s) = srv_forward_clients s"
  "srv_connector_tokens (drop_connector_token t s) = dict_del t (srv_connector_tokens s)"
  "srv_loop (drop_connector_token t s) = srv_loop s"
  by (simp_all add: drop_connector_token_def Let_def)

lemma drop_connector_get [dict_simps]:
  "dict_get (srv_token_clients (drop_connector_token t s)) t' =
     (if t' = t then None else dict_get (srv_token_clients s) t')"
  by (simp add: drop_connector_token_def Let_def dict_simps)

lemma drop_internal_simps [simp]:
  "srv_token_locks (drop_internal_token t s) = srv_token_locks s"
  "srv_port_pool (drop_internal_token t s) = srv_port_pool s"
  "srv_connector_tokens (drop_internal_token t s) = srv_connector_tokens s"
  "srv_internal_tokens (drop_internal_token t s) = srv_internal_tokens s"
  "srv_socks_tasks (drop_internal_token t s) = srv_socks_tasks s"
  "srv_pending_tokens (drop_internal_token t s) = srv_pending_tokens s"
  "srv_forward_tokens (drop_internal_token t s) = srv_forward_tokens s"
  "srv_forward_clients (drop_internal_token t s) = srv_forward_clients s"
  "srv_tokens (drop_internal_token t s) = dict_del t (srv_tokens s)"
  "srv_token_options (drop_internal_token t s) = dict_del t (srv_token_options s)"
  "srv_token_indexes (drop_internal_token t s) = dict_del t (srv_token_indexes s)"
  "srv_loop (drop_internal_token t s) = srv_loop s"
  by (simp_all add: drop_internal_token_def Let_def)

lemma drop_internal_get [dict_simps]:
  "dict_get (srv_token_clients (drop_internal_token t s)) t' =
     (if t' = t then None else dict_get (srv_token_clients s) t')"
  by (simp add: drop_internal_token_def Let_def dict_simps)

lemma fold_drop_internal [simp]:
  "srv_token_locks (fold drop_internal_token ts s) = srv_token_locks s"
  "srv_port_pool (fold drop_internal_token ts s) = srv_port_pool s"
  "srv_connector_tokens (fold drop_internal_token ts s) = srv_connector_tokens s"
  "srv_internal_tokens (fold drop_internal_token ts s) = srv_internal_tokens s"
  "srv_socks_tasks (fold drop_internal_token ts s) = srv_socks_tasks s"
  "srv_pending_tokens (fold drop_internal_token ts s) = srv_pending_tokens s"
  "srv_forward_tokens (fold drop_internal_token ts s) = srv_forward_tokens s"
  "srv_forward_clients (fold drop_internal_token ts s) = srv_forward_clients s"
  "srv_loop (fold drop_internal_token ts s) = srv_loop s"
  by (induction ts arbitrary: s) auto

lemma fold_drop_internal_get:
  "dict_get (srv_tokens (fold drop_internal_token ts s)) t =
     (if t \<in> set ts then None else dict_get (srv_tokens s) t)"
  "dict_get (srv_token_options (fold drop_internal_token ts s)) t =
     (if t \<in> set ts then None else dict_get (srv_token_options s) t)"
  "dict_get (srv_token_clients (fold drop_internal_token ts s)) t =
     (if t \<in> set ts then None else dict_get (srv_token_clients s) t)"
  by (induction ts arbitrary: s) (auto simp: dict_simps)

text \<open>The internal tokens of a token.\<close>

definition internal_of :: "server \<Rightarrow> pystr \<Rightarrow> pystr set" where
  "internal_of s t = (case dict_get (srv_internal_tokens s) t of None \<Rightarrow> {} | Some ts \<Rightarrow> set ts)"

lemma drop_internal_tokens_simps [simp]:
  "srv_token_locks (drop_internal_tokens t s) = srv_token_locks s"
  "srv_port_pool (drop_internal_tokens t s) = srv_port_pool s"
  "srv_connector_tokens (drop_internal_tokens t s) = srv_connector_tokens s"
  "srv_socks_tasks (drop_internal_tokens t s) = srv_socks_tasks s"
  "srv_pending_tokens (drop_internal_tokens t s) = srv_pending_tokens s"
  "srv_forward_tokens (drop_internal_tokens t s) = srv_forward_tokens s"
  "srv_forward_clients (drop_internal_tokens t s) = srv_forward_clients s"
  "srv_loop (drop_internal_tokens t s) = srv_loop s"
  by (simp_all add: drop_internal_tokens_def Let_def split: option.split)

lemma drop_internal_tokens_get [dict_simps]:
  "dict_get (srv_tokens (drop_internal_tokens t s)) t' =
     (if t' \<in> internal_of s t then None else dict_get (srv_tokens s) t')"
  "dict_get (srv_token_options (drop_internal_tokens t s)) t' =
     (if t' \<in> internal_of s t then None else dict_get (srv_token_options s) t')"
  "dict_get (srv_token_clients (drop_internal_tokens t s)) t' =
     (if t' \<in> internal_of s t then None else dict_get (srv_token_clients s) t')"
  by (simp_all add: drop_internal_tokens_def internal_of_def Let_def fold_drop_internal_get split: option.split)

section \<open>The shape of \<open>remove_token\<close>\<close>

text \<open>The recursive calls are always for connector tokens that are still there.\<close>

lemma remove_connector_call:
  "has_key (srv_connector_tokens s) t \<Longrightarrow> remove_token_fuel (Suc n) t s = (Inr True, drop_connector_token t s)"
  by simp

definition drop_connectors :: "pystr \<Rightarrow> (pystr \<times> pystr) list \<Rightarrow> server \<Rightarrow> server" where
  "drop_connectors token cts = fold (\<lambda>c. if snd c = token then drop_connector_token (fst c) else id) cts"

lemma remove_each_connectors:
  assumes "distinct (map fst cts)" "\<forall>c\<in>set cts. has_key (srv_connector_tokens s) (fst c)"
  shows "remove_each (remove_token_fuel (Suc n)) token cts s = (Inr (), drop_connectors token cts s)"
  using assms
proof (induction cts arbitrary: s)
  case (Cons c cts)
  obtain ct rt where c: "c = (ct, rt)" by (cases c)
  show ?case
  proof (cases "rt = token")
    case True
    have "\<forall>c\<in>set cts. has_key (srv_connector_tokens (drop_connector_token ct s)) (fst c)"
      using Cons.prems c by (auto simp: dict_simps)
    with Cons c True show ?thesis
      by (simp add: drop_connectors_def del: remove_token_fuel.simps add: remove_connector_call)
  next
    case False
    with Cons c show ?thesis
      by (simp add: drop_connectors_def del: remove_token_fuel.simps)
  qed
qed (simp add: drop_connectors_def)

lemma remove_each_dict:
  "dict_ok (srv_connector_tokens s) \<Longrightarrow>
     remove_each (remove_token_fuel (Suc n)) token (srv_connector_tokens s) s =
       (Inr (), drop_connectors token (srv_connector_tokens s) s)"
  by (rule remove_each_connectors) (auto simp: dict_ok_def has_key_iff)

text \<open>\<open>remove_token\<close> without the recursion.\<close>

lemma remove_token_eq:
  assumes "dict_ok (srv_connector_tokens s)"
  shows "remove_token token s =
    (if has_key (srv_connector_tokens s) token then (Inr True, drop_connector_token token s)
     else if has_key (srv_tokens s) token then
       (let s' = drop_internal_tokens token s in
        drop_reverse_token token (drop_connectors token (srv_connector_tokens s') s'))
     else if token \<in> srv_forward_tokens s then (Inr True, drop_forward_token token s)
     else (Inr False, s))"
  using remove_each_dict [of "drop_internal_tokens token s" 0 token] assms
  unfolding remove_token_def numeral_2_eq_2
  by (subst remove_token_fuel.simps)
    (simp add: Let_def del: remove_token_fuel.simps)

lemma drop_connectors_simps [simp]:
  "srv_tokens (drop_connectors t cts s) = srv_tokens s"
  "srv_token_locks (drop_connectors t cts s) = srv_token_locks s"
  "srv_token_options (drop_connectors t cts s) = srv_token_options s"
  "srv_token_indexes (drop_connectors t cts s) = srv_token_indexes s"
  "srv_port_pool (drop_connectors t cts s) = srv_port_pool s"
  "srv_internal_tokens (drop_connectors t cts s) = srv_internal_tokens s"
  "srv_socks_tasks (drop_connectors t cts s) = srv_socks_tasks s"
  "srv_pending_tokens (drop_connectors t cts s) = srv_pending_tokens s"
  "srv_forward_tokens (drop_connectors t cts s) = srv_forward_tokens s"
  "srv_forward_clients (drop_connectors t cts s) = srv_forward_clients s"
  "srv_loop (drop_connectors t cts s) = srv_loop s"
  by (induction cts arbitrary: s) (auto simp: drop_connectors_def)

lemma drop_connectors_get:
  "dict_get (srv_connector_tokens (drop_connectors t cts s)) ct =
     (if (ct, t) \<in> set cts then None else dict_get (srv_connector_tokens s) ct)"
  "dict_get (srv_token_clients (drop_connectors t cts s)) ct =
     (if (ct, t) \<in> set cts then None else dict_get (srv_token_clients s) ct)"
  by (induction cts arbitrary: s) (auto simp: drop_connectors_def dict_simps)

lemma drop_connectors_dict_ok [simp]:
  "dict_ok (srv_connector_tokens s) \<Longrightarrow> dict_ok (srv_connector_tokens (drop_connectors t cts s))"
  by (induction cts arbitrary: s) (auto simp: drop_connectors_def)

section \<open>Invariant\<close>

text \<open>
  Port -1 marks a token without a SOCKS server. Every other assigned port is marked used in the pool
  and belongs to one token; every reverse token has its lock and its options, so that neither
  \<open>get_next_websocket\<close> nor the lookup of options fails for it.
\<close>

definition ports_ok :: "server \<Rightarrow> bool" where
  "ports_ok s \<longleftrightarrow>
     (\<forall>t p. dict_get (srv_tokens s) t = Some p \<longrightarrow> p \<noteq> - 1 \<longrightarrow> p \<in> pp_used (srv_port_pool s) \<and> p \<noteq> 0) \<and>
     (\<forall>t t' p. dict_get (srv_tokens s) t = Some p \<longrightarrow> dict_get (srv_tokens s) t' = Some p \<longrightarrow> p \<noteq> - 1 \<longrightarrow> t = t')"

definition tokens_equipped :: "server \<Rightarrow> bool" where
  "tokens_equipped s \<longleftrightarrow>
     (\<forall>t p. dict_get (srv_tokens s) t = Some p \<longrightarrow>
        t \<in> srv_token_locks s \<and> dict_get (srv_token_options s) t \<noteq> None)"

definition srv_inv :: "server \<Rightarrow> bool" where
  "srv_inv s \<longleftrightarrow> dict_ok (srv_connector_tokens s) \<and> ports_ok s \<and> tokens_equipped s"

lemma srv_inv_init [simp]: "srv_inv (srv_init ports w)"
  by (simp add: srv_inv_def srv_init_def ports_ok_def tokens_equipped_def)

lemma ports_okI:
  assumes "\<And>t p. dict_get (srv_tokens s) t = Some p \<Longrightarrow> p \<noteq> - 1 \<Longrightarrow> p \<in> pp_used (srv_port_pool s) \<and> p \<noteq> 0"
    and "\<And>t t' p. dict_get (srv_tokens s) t = Some p \<Longrightarrow> dict_get (srv_tokens s) t' = Some p \<Longrightarrow> p \<noteq> - 1 \<Longrightarrow> t = t'"
  shows "ports_ok s"
  using assms unfolding ports_ok_def by blast

lemma ports_okD:
  assumes "ports_ok s"
  shows "dict_get (srv_tokens s) t = Some p \<Longrightarrow> p \<noteq> - 1 \<Longrightarrow> p \<in> pp_used (srv_port_pool s)"
    "dict_get (srv_tokens s) t = Some p \<Longrightarrow> p \<noteq> - 1 \<Longrightarrow> p \<noteq> 0"
    "dict_get (srv_tokens s) t = Some p \<Longrightarrow> dict_get (srv_tokens s) t' = Some p \<Longrightarrow> p \<noteq> - 1 \<Longrightarrow> t = t'"
  using assms unfolding ports_ok_def by blast+

text \<open>What the invariant depends on.\<close>

lemma srv_inv_cong:
  assumes "srv_inv s" "srv_tokens s' = srv_tokens s" "pp_used (srv_port_pool s') = pp_used (srv_port_pool s)"
    "srv_token_locks s \<subseteq> srv_token_locks s'" "srv_token_options s' = srv_token_options s"
    "dict_ok (srv_connector_tokens s')"
  shows "srv_inv s'"
  using assms unfolding srv_inv_def ports_ok_def tokens_equipped_def by auto

text \<open>Fewer tokens.\<close>

lemma srv_inv_sub:
  assumes "srv_inv s" "dict_ok (srv_connector_tokens s')"
    and "\<And>t p. dict_get (srv_tokens s') t = Some p \<Longrightarrow> dict_get (srv_tokens s) t = Some p \<and>
      (p \<noteq> - 1 \<longrightarrow> p \<in> pp_used (srv_port_pool s')) \<and> t \<in> srv_token_locks s' \<and> dict_get (srv_token_options s') t \<noteq> None"
  shows "srv_inv s'"
proof -
  have "ports_ok s" using assms(1) by (simp add: srv_inv_def)
  from ports_okD [OF this] have "ports_ok s'"
    using assms(3) by (intro ports_okI) blast+
  with assms(2,3) show ?thesis by (auto simp: srv_inv_def tokens_equipped_def)
qed

section \<open>Every token operation keeps it\<close>

lemma srv_inv_add_connector:
  "srv_inv s \<Longrightarrow> srv_inv (snd (add_connector_token draws ct rt s))"
  by (rule srv_inv_cong [of s]) (auto simp: add_connector_token_def Let_def srv_inv_def)

lemma srv_inv_add_forward: "srv_inv s \<Longrightarrow> srv_inv (snd (add_forward_token draws t s))"
  by (rule srv_inv_cong [of s]) (auto simp: add_forward_token_def Let_def srv_inv_def)

text \<open>A new token with a port that was free, or with the marker -1.\<close>

lemma srv_inv_new_token:
  assumes "srv_inv s" "dict_get (srv_tokens s) t = None"
    and "srv_tokens s' = dict_set t p (srv_tokens s)" "srv_token_locks s' = insert t (srv_token_locks s)"
    and "srv_token_options s' = dict_set t opts (srv_token_options s)"
    and "srv_connector_tokens s' = srv_connector_tokens s"
    and "pp_used (srv_port_pool s) \<subseteq> pp_used (srv_port_pool s')"
    and "p \<noteq> - 1 \<Longrightarrow> p \<notin> pp_used (srv_port_pool s) \<and> p \<in> pp_used (srv_port_pool s') \<and> p \<noteq> 0"
  shows "srv_inv s'"
proof -
  have ok: "ports_ok s" using assms(1) by (simp add: srv_inv_def)
  have fresh: "dict_get (srv_tokens s) t' \<noteq> Some p" if "p \<noteq> - 1" for t'
    using ports_okD(1) [OF ok, of t' p] assms(8) that by blast
  have "ports_ok s'"
  proof (rule ports_okI)
    fix u q assume "dict_get (srv_tokens s') u = Some q" "q \<noteq> - 1"
    with assms(3,7,8) ports_okD(1,2) [OF ok, of u q]
    show "q \<in> pp_used (srv_port_pool s') \<and> q \<noteq> 0"
      by (auto simp: dict_simps split: if_splits)
  next
    fix u v q assume "dict_get (srv_tokens s') u = Some q" "dict_get (srv_tokens s') v = Some q" "q \<noteq> - 1"
    with assms(3) fresh ports_okD(3) [OF ok, of u q v] show "u = v"
      by (auto simp: dict_simps split: if_splits)
  qed
  with assms(1,3-6) show ?thesis
    by (auto simp: srv_inv_def tokens_equipped_def dict_simps)
qed

lemma register_reverse_simps [simp]:
  "srv_tokens (register_reverse_token t p o' s) = dict_set t p (srv_tokens s)"
  "srv_token_locks (register_reverse_token t p o' s) = insert t (srv_token_locks s)"
  "srv_token_options (register_reverse_token t p o' s) = dict_set t o' (srv_token_options s)"
  "srv_connector_tokens (register_reverse_token t p o' s) = srv_connector_tokens s"
  "srv_port_pool (register_reverse_token t p o' s) = srv_port_pool s"
  by (simp_all add: register_reverse_token_def Let_def)

lemma add_reverse_cases:
  assumes "add_reverse_token draws draw token port u pw allow s = (r, s')"
  defines "t \<equiv> (case token of None \<Rightarrow> random_token draws | Some t \<Rightarrow> t)"
  obtains (known) p where "dict_get (srv_tokens s) t = Some p" "r = Some (t, p)" "s' = s"
  | (none) pool where "dict_get (srv_tokens s) t = None" "\<not> allow" "r = None"
      "s' = s\<lparr>srv_port_pool := pool\<rparr>" "pp_used (srv_port_pool s) \<subseteq> pp_used pool"
  | (new) p where "dict_get (srv_tokens s) t = None" "r = Some (t, p)"
      "srv_tokens s' = dict_set t p (srv_tokens s)" "srv_token_locks s' = insert t (srv_token_locks s)"
      "srv_token_options s' = dict_set t \<lparr>opt_username = u, opt_password = pw, opt_allow_manage_connector = allow\<rparr>
         (srv_token_options s)"
      "srv_connector_tokens s' = srv_connector_tokens s"
      "if allow then p = - 1 \<and> srv_port_pool s' = srv_port_pool s
       else pp_get draw port (srv_port_pool s) = (Some p, srv_port_pool s') \<and> p \<noteq> 0"
proof -
  let ?o = "\<lparr>opt_username = u, opt_password = pw, opt_allow_manage_connector = allow\<rparr>"
  have eq: "(r, s') = (case dict_get (srv_tokens s) t of
      Some p \<Rightarrow> (Some (t, p), s)
    | None \<Rightarrow>
        (if allow then (Some (t, - 1), register_reverse_token t (- 1) ?o s)
         else
           (case pp_get draw port (srv_port_pool s) of
              (got, pool) \<Rightarrow>
                (case got of
                   None \<Rightarrow> (None, s\<lparr>srv_port_pool := pool\<rparr>)
                 | Some p \<Rightarrow>
                     (if p = 0 then (None, s\<lparr>srv_port_pool := pool\<rparr>)
                      else (Some (t, p), register_reverse_token t p ?o (s\<lparr>srv_port_pool := pool\<rparr>)))))))"
    unfolding assms(1) [symmetric] add_reverse_token_def t_def Let_def by simp
  show thesis
  proof (cases "dict_get (srv_tokens s) t")
    case (Some p)
    with eq show thesis by (intro known) auto
  next
    case None
    show thesis
    proof (cases allow)
      case True
      with None eq show thesis
        by (intro new [of "- 1"]) auto
    next
      case False
      obtain got pool where g: "pp_get draw port (srv_port_pool s) = (got, pool)" by fastforce
      have sub: "pp_used (srv_port_pool s) \<subseteq> pp_used pool"
        using g ports.get_some [of draw port "srv_port_pool s"] ports.get_none [of draw port "srv_port_pool s"]
        by (cases got) auto
      show thesis
      proof (cases "got = None \<or> got = Some 0")
        case True
        with None False g sub eq show thesis
          by (intro none [of pool]) auto
      next
        case no: False
        then obtain p where "got = Some p" "p \<noteq> 0" by auto
        with None False g eq show thesis
          by (intro new [of p]) auto
      qed
    qed
  qed
qed

lemma srv_inv_add_reverse:
  assumes "srv_inv s"
  shows "srv_inv (snd (add_reverse_token draws draw token port u pw allow s))"
proof -
  obtain r s' where a: "add_reverse_token draws draw token port u pw allow s = (r, s')" by fastforce
  from a show ?thesis
  proof (cases rule: add_reverse_cases)
    case known
    with assms a show ?thesis by simp
  next
    case (none pool)
    have "srv_inv s'"
      by (rule srv_inv_sub [OF assms])
        (use none assms in \<open>auto simp: srv_inv_def tokens_equipped_def dest: ports_okD(1)\<close>)
    with a show ?thesis by simp
  next
    case (new p)
    have "srv_inv s'"
    proof (rule srv_inv_new_token [OF assms new(1) new(3-6)])
      show "pp_used (srv_port_pool s) \<subseteq> pp_used (srv_port_pool s')"
        using new(7) ports.get_some [of draw port "srv_port_pool s" p "srv_port_pool s'"]
        by (auto split: if_splits)
      show "p \<noteq> - 1 \<Longrightarrow> p \<notin> pp_used (srv_port_pool s) \<and> p \<in> pp_used (srv_port_pool s') \<and> p \<noteq> 0"
        using new(7) ports.get_some [of draw port "srv_port_pool s" p "srv_port_pool s'"]
        by (auto split: if_splits)
    qed
    with a show ?thesis by simp
  qed
qed

lemma srv_inv_drop_connector: "srv_inv s \<Longrightarrow> srv_inv (drop_connector_token t s)"
  by (rule srv_inv_cong [of s]) (auto simp: srv_inv_def)

lemma srv_inv_drop_connectors: "srv_inv s \<Longrightarrow> srv_inv (drop_connectors t cts s)"
  by (rule srv_inv_cong [of s]) (auto simp: srv_inv_def)

lemma srv_inv_drop_internal: "srv_inv s \<Longrightarrow> srv_inv (drop_internal_tokens t s)"
  by (rule srv_inv_sub [of s])
    (auto simp: srv_inv_def tokens_equipped_def dict_simps dest: ports_okD(1) split: if_splits)

lemma drop_forward_simps [simp]:
  "srv_tokens (drop_forward_token t s) = srv_tokens s"
  "srv_token_locks (drop_forward_token t s) = srv_token_locks s"
  "srv_token_options (drop_forward_token t s) = srv_token_options s"
  "srv_port_pool (drop_forward_token t s) = srv_port_pool s"
  "srv_connector_tokens (drop_forward_token t s) = srv_connector_tokens s"
  "srv_forward_clients (drop_forward_token t s) = []"
  "srv_forward_tokens (drop_forward_token t s) = srv_forward_tokens s - {t}"
  "srv_actions (drop_forward_token t s) = srv_actions s @ closing (srv_loop s) (srv_forward_clients s)"
proof -
  have f: "fold (\<lambda>(cid, w). emit_if_loop (CloseWs w 1000 token_removed)) cs s =
      s\<lparr>srv_actions := srv_actions s @ closing (srv_loop s) cs\<rparr>" for cs s
    by (induction cs arbitrary: s) (auto simp: closing_def emit_if_loop_eq)
  show "srv_tokens (drop_forward_token t s) = srv_tokens s"
    "srv_token_locks (drop_forward_token t s) = srv_token_locks s"
    "srv_token_options (drop_forward_token t s) = srv_token_options s"
    "srv_port_pool (drop_forward_token t s) = srv_port_pool s"
    "srv_connector_tokens (drop_forward_token t s) = srv_connector_tokens s"
    "srv_forward_clients (drop_forward_token t s) = []"
    "srv_forward_tokens (drop_forward_token t s) = srv_forward_tokens s - {t}"
    "srv_actions (drop_forward_token t s) = srv_actions s @ closing (srv_loop s) (srv_forward_clients s)"
    by (simp_all add: drop_forward_token_def f Let_def)
qed

lemma drop_reverse_effect:
  assumes "dict_get (srv_tokens s) t = Some p"
  shows "\<exists>s'. drop_reverse_token t s = (Inr True, s') \<and>
    srv_tokens s' = dict_del t (srv_tokens s) \<and> srv_token_locks s' = srv_token_locks s - {t} \<and>
    srv_token_options s' = dict_del t (srv_token_options s) \<and>
    srv_token_indexes s' = dict_del t (srv_token_indexes s) \<and>
    srv_connector_tokens s' = srv_connector_tokens s \<and>
    srv_port_pool s' = pp_put p (srv_port_pool s) \<and>
    dict_get (srv_socks_tasks s') = (dict_get (srv_socks_tasks s))(p := None) \<and>
    srv_forward_tokens s' = srv_forward_tokens s \<and>
    dict_get (srv_token_clients s') = (dict_get (srv_token_clients s))(t := None)"
  using assms
  by (auto simp: drop_reverse_token_def Let_def dict_simps fun_eq_iff has_key_def)

lemma srv_inv_drop_reverse:
  assumes "srv_inv s" shows "srv_inv (snd (drop_reverse_token t s))"
proof (cases "dict_get (srv_tokens s) t")
  case None
  then have "snd (drop_reverse_token t s) = close_token_clients t (emit_if_loop (CacheCleanup t) s)"
    by (simp add: drop_reverse_token_def Let_def)
  then show ?thesis
    by (simp only:, intro srv_inv_cong [OF assms]) (use assms in \<open>auto simp: srv_inv_def\<close>)
next
  case (Some p)
  from drop_reverse_effect [OF this] obtain s' where s': "drop_reverse_token t s = (Inr True, s')"
    "srv_tokens s' = dict_del t (srv_tokens s)" "srv_token_locks s' = srv_token_locks s - {t}"
    "srv_token_options s' = dict_del t (srv_token_options s)" "srv_connector_tokens s' = srv_connector_tokens s"
    "srv_port_pool s' = pp_put p (srv_port_pool s)" by blast
  have ok: "ports_ok s" using assms by (simp add: srv_inv_def)
  have "srv_inv s'"
  proof (rule srv_inv_sub [OF assms])
    fix u q assume "dict_get (srv_tokens s') u = Some q"
    with s' have u: "dict_get (srv_tokens s) u = Some q" "u \<noteq> t" by (auto simp: dict_simps split: if_splits)
    with assms s' have "u \<in> srv_token_locks s'" "dict_get (srv_token_options s') u \<noteq> None"
      by (auto simp: srv_inv_def tokens_equipped_def dict_simps)
    moreover have "q \<noteq> - 1 \<longrightarrow> q \<in> pp_used (srv_port_pool s')"
      using u s'(6) ports_okD(1,3) [OF ok, of u q] Some by auto
    ultimately show "dict_get (srv_tokens s) u = Some q \<and> (q \<noteq> - 1 \<longrightarrow> q \<in> pp_used (srv_port_pool s')) \<and>
        u \<in> srv_token_locks s' \<and> dict_get (srv_token_options s') u \<noteq> None"
      using u by blast
  qed (use assms s' in \<open>simp add: srv_inv_def\<close>)
  with s' show ?thesis by simp
qed

lemma srv_inv_remove_token:
  assumes "srv_inv s" shows "srv_inv (snd (remove_token t s))"
proof -
  have "dict_ok (srv_connector_tokens s)" using assms by (simp add: srv_inv_def)
  moreover have "srv_inv (drop_forward_token t s)"
    by (rule srv_inv_cong [OF assms]) (use assms in \<open>auto simp: srv_inv_def\<close>)
  ultimately show ?thesis
    using assms
    by (auto simp: remove_token_eq Let_def srv_inv_drop_connector srv_inv_drop_reverse srv_inv_drop_connectors
        srv_inv_drop_internal)
qed

lemma srv_inv_remove_connector: "srv_inv s \<Longrightarrow> srv_inv (snd (remove_connector_token t s))"
  by (simp add: remove_connector_token_def srv_inv_drop_connector)

section \<open>Removing a token\<close>

text \<open>
  C37. The outcome of \<open>remove_token\<close>, for every token: False if the token is unknown, True otherwise;
  the one exception is a token that is among its own internal tokens, whose port is looked up after
  its entry is gone. In particular two levels of recursion are enough.
\<close>

theorem remove_token_result:
  assumes "srv_inv s"
  shows "fst (remove_token token s) =
    (if has_key (srv_connector_tokens s) token then Inr True
     else if has_key (srv_tokens s) token then
       (if token \<in> internal_of s token then Inl KeyError else Inr True)
     else Inr (token \<in> srv_forward_tokens s))"
proof -
  have ok: "dict_ok (srv_connector_tokens s)" using assms by (simp add: srv_inv_def)
  show ?thesis
  proof (cases "has_key (srv_connector_tokens s) token \<or> \<not> has_key (srv_tokens s) token")
    case True
    with ok show ?thesis by (auto simp: remove_token_eq)
  next
    case False
    let ?s = "drop_internal_tokens token s"
    let ?d = "drop_connectors token (srv_connector_tokens ?s) ?s"
    have "fst (drop_reverse_token token ?d) = (if token \<in> internal_of s token then Inl KeyError else Inr True)"
    proof (cases "dict_get (srv_tokens ?d) token")
      case None
      with False have "token \<in> internal_of s token"
        by (auto simp: dict_simps has_key_def split: if_splits)
      with None show ?thesis by (simp add: drop_reverse_token_def Let_def)
    next
      case (Some p)
      then have "token \<notin> internal_of s token" by (auto simp: dict_simps split: if_splits)
      with drop_reverse_effect [OF Some] show ?thesis by auto
    qed
    with False ok show ?thesis by (simp add: remove_token_eq Let_def)
  qed
qed

lemma closing_in: "loop \<Longrightarrow> (cid, w) \<in> set cs \<Longrightarrow> CloseWs w 1000 token_removed \<in> set (closing loop cs)"
  by (force simp: closing_def)

lemma drop_reverse_actions:
  assumes "dict_get (srv_tokens s) t = Some p" "drop_reverse_token t s = (r, s')"
  shows "srv_loop s \<Longrightarrow> dict_get (srv_token_clients s) t = Some cs \<Longrightarrow> (cid, w) \<in> set cs \<Longrightarrow>
      CloseWs w 1000 token_removed \<in> set (srv_actions s')"
    and "has_key (srv_socks_tasks s) p \<Longrightarrow> CancelSocks p \<in> set (srv_actions s')"
  using assms closing_in [of "srv_loop s" cid w cs]
  by (auto simp: drop_reverse_token_def Let_def close_token_clients_eq emit_if_loop_def
      split: option.splits if_splits)

lemma remove_reverse_facts:
  assumes "srv_inv s" "dict_get (srv_tokens s) t = Some p"
    and "\<not> has_key (srv_connector_tokens s) t" "t \<notin> internal_of s t"
    and "remove_token t s = (r, s')"
  shows "r = Inr True"
    and "dict_get (srv_tokens s') t = None \<and> t \<notin> srv_token_locks s' \<and>
      dict_get (srv_token_options s') t = None \<and> dict_get (srv_token_indexes s') t = None \<and>
      dict_get (srv_token_clients s') t = None"
    and "dict_get (srv_connector_tokens s') c \<noteq> Some t"
    and "p \<notin> pp_used (srv_port_pool s') \<and> dict_get (srv_socks_tasks s') p = None \<and>
      (has_key (srv_socks_tasks s) p \<longrightarrow> CancelSocks p \<in> set (srv_actions s'))"
    and "srv_loop s \<Longrightarrow> dict_get (srv_token_clients s) t = Some cs \<Longrightarrow> (cid, w) \<in> set cs \<Longrightarrow>
      CloseWs w 1000 token_removed \<in> set (srv_actions s')"
    and "u \<noteq> t \<Longrightarrow> u \<notin> internal_of s t \<Longrightarrow> dict_get (srv_tokens s') u = dict_get (srv_tokens s) u"
    and "v \<noteq> t \<Longrightarrow> dict_get (srv_connector_tokens s) c = Some v \<Longrightarrow> dict_get (srv_connector_tokens s') c = Some v"
proof -
  have ok: "dict_ok (srv_connector_tokens s)" using assms(1) by (simp add: srv_inv_def)
  let ?i = "drop_internal_tokens t s"
  let ?d = "drop_connectors t (srv_connector_tokens ?i) ?i"
  have tok: "dict_get (srv_tokens ?d) t = Some p" using assms(2,4) by (simp add: dict_simps)
  have eq: "drop_reverse_token t ?d = (r, s')"
    using assms(2,3,5) ok by (simp add: remove_token_eq Let_def has_key_def)
  from drop_reverse_effect [OF tok] eq have s': "r = Inr True" "srv_tokens s' = dict_del t (srv_tokens ?d)"
    "srv_token_locks s' = srv_token_locks ?d - {t}" "srv_token_options s' = dict_del t (srv_token_options ?d)"
    "srv_token_indexes s' = dict_del t (srv_token_indexes ?d)"
    "srv_connector_tokens s' = srv_connector_tokens ?d" "srv_port_pool s' = pp_put p (srv_port_pool ?d)"
    "dict_get (srv_socks_tasks s') = (dict_get (srv_socks_tasks ?d))(p := None)"
    "dict_get (srv_token_clients s') = (dict_get (srv_token_clients ?d))(t := None)" by auto
  note acts = drop_reverse_actions [OF tok eq]
  have con: "dict_get (srv_connector_tokens ?d) c =
      (if dict_get (srv_connector_tokens s) c = Some t then None else dict_get (srv_connector_tokens s) c)" for c
    using ok by (simp add: drop_connectors_get dict_in_iff)
  show "r = Inr True" by (fact s'(1))
  show "dict_get (srv_tokens s') t = None \<and> t \<notin> srv_token_locks s' \<and>
      dict_get (srv_token_options s') t = None \<and> dict_get (srv_token_indexes s') t = None \<and>
      dict_get (srv_token_clients s') t = None"
    using s' by (simp add: dict_simps)
  show "dict_get (srv_connector_tokens s') c \<noteq> Some t" using s'(6) con by auto
  show "p \<notin> pp_used (srv_port_pool s') \<and> dict_get (srv_socks_tasks s') p = None \<and>
      (has_key (srv_socks_tasks s) p \<longrightarrow> CancelSocks p \<in> set (srv_actions s'))"
    using s' acts(2) by simp
  show "u \<noteq> t \<Longrightarrow> u \<notin> internal_of s t \<Longrightarrow> dict_get (srv_tokens s') u = dict_get (srv_tokens s) u"
    using s'(2) by (simp add: dict_simps)
  show "v \<noteq> t \<Longrightarrow> dict_get (srv_connector_tokens s) c = Some v \<Longrightarrow> dict_get (srv_connector_tokens s') c = Some v"
    using s'(6) con by simp
  assume a: "srv_loop s" "dict_get (srv_token_clients s) t = Some cs" "(cid, w) \<in> set cs"
  have "(t, t) \<notin> set (srv_connector_tokens s)"
    using ok assms(3) by (simp add: dict_in_iff has_key_def)
  with a(2) assms(4) have "dict_get (srv_token_clients ?d) t = Some cs"
    by (simp add: drop_connectors_get dict_simps)
  with acts(1) a show "CloseWs w 1000 token_removed \<in> set (srv_actions s')" by simp
qed


text \<open>A server that is running, with one reverse token \<open>a\<close> on port 1080 and a connector \<open>c\<close> to it.\<close>

definition one_token_server :: server where
  "one_token_server =
     (let s = (srv_init [1080, 1081] False)\<lparr>srv_loop := True\<rparr>;
          s = snd (add_reverse_token (\<lambda>_. 0) 0 (Some (lit ''a'')) (Some 1080) None None False s);
          s = snd (add_connector_token (\<lambda>_. 0) (Some (lit ''c'')) (Some (lit ''a'')) s)
      in s)"

lemma one_token_server_inv: "srv_inv one_token_server"
proof -
  have "srv_inv ((srv_init [1080, 1081] False)\<lparr>srv_loop := True\<rparr>)"
    by (rule srv_inv_cong [OF srv_inv_init]) (auto simp: srv_init_def)
  then show ?thesis
    by (simp add: one_token_server_def Let_def srv_inv_add_reverse srv_inv_add_connector)
qed

lemma one_token_server_eqs:
  "srv_tokens one_token_server = [(lit ''a'', 1080)]"
  "srv_connector_tokens one_token_server = [(lit ''c'', lit ''a'')]"
  "srv_loop one_token_server" "internal_of one_token_server t = {}"
  "srv_forward_tokens one_token_server = {}"
  by (simp_all add: one_token_server_def Let_def add_reverse_token_def add_connector_token_def srv_init_def
      register_reverse_token_def emit_if_loop_def pp_init_def has_key_def internal_of_def)


lemma remove_token_result_witness:
  "srv_inv one_token_server \<and> fst (remove_token (lit ''a'') one_token_server) = Inr True \<and>
   fst (remove_token (lit ''c'') one_token_server) = Inr True \<and>
   fst (remove_token (lit ''x'') one_token_server) = Inr False"
  using remove_token_result [OF one_token_server_inv, of "lit ''a''"] one_token_server_inv
    remove_token_result [OF one_token_server_inv, of "lit ''c''"]
    remove_token_result [OF one_token_server_inv, of "lit ''x''"]
  by (auto simp: one_token_server_eqs has_key_def)

section \<open>Round robin\<close>

text \<open>Successive requests for a connection.\<close>

fun next_websockets :: "nat \<Rightarrow> pystr \<Rightarrow> server \<Rightarrow> ws option res list \<times> server" where
  "next_websockets 0 token s = ([], s)"
| "next_websockets (Suc n) token s =
     (case get_next_websocket token s of
        (r, s) \<Rightarrow> (case next_websockets n token s of (rs, s) \<Rightarrow> (r # rs, s)))"

definition robin_index :: "server \<Rightarrow> pystr \<Rightarrow> nat" where
  "robin_index s token = (case dict_get (srv_token_indexes s) token of Some i \<Rightarrow> i | None \<Rightarrow> 0)"

lemma get_next_eq:
  assumes "token \<in> srv_token_locks s" "dict_get (srv_token_clients s) token = Some cs" "cs \<noteq> []"
  shows "get_next_websocket token s =
    (Inr (Some (snd (cs ! (Suc (robin_index s token) mod length cs)))),
     s\<lparr>srv_token_indexes :=
       dict_set token (Suc (robin_index s token) mod length cs) (srv_token_indexes s)\<rparr>)"
  using assms by (auto simp: get_next_websocket_def robin_index_def Let_def split: list.split option.split)

lemma next_websockets_eq:
  assumes "token \<in> srv_token_locks s" "dict_get (srv_token_clients s) token = Some cs" "cs \<noteq> []"
  shows "fst (next_websockets n token s) =
    map (\<lambda>k. Inr (Some (snd (cs ! ((Suc (robin_index s token) + k) mod length cs))))) [0..<n]"
  using assms
proof (induction n arbitrary: s)
  case (Suc n)
  let ?i = "Suc (robin_index s token) mod length cs"
  let ?s = "s\<lparr>srv_token_indexes := dict_set token ?i (srv_token_indexes s)\<rparr>"
  have i: "robin_index ?s token = ?i" by (simp add: robin_index_def dict_simps)
  have "fst (next_websockets n token ?s) =
      map (\<lambda>k. Inr (Some (snd (cs ! ((Suc ?i + k) mod length cs))))) [0..<n]"
    using Suc.IH [of ?s] Suc.prems unfolding i by simp
  also have "\<dots> = map (\<lambda>k. Inr (Some (snd (cs ! ((Suc (robin_index s token) + Suc k) mod length cs))))) [0..<n]"
    using mod_add_cong [OF mod_Suc_eq refl] by simp
  finally show ?case
    using get_next_eq [OF Suc.prems] by (simp add: split_def map_upt_Suc del: upt_Suc)
qed simp

text \<open>
  C30. The load balancing of \<open>_get_next_websocket\<close> is fair: with \<open>n\<close> clients connected, \<open>n\<close> successive
  requests get the \<open>n\<close> connections once each, in the order in which they connected, starting with
  the one after the current index. A first request therefore goes to the second client.
\<close>

theorem round_robin_fair:
  assumes "token \<in> srv_token_locks s" "dict_get (srv_token_clients s) token = Some cs" "cs \<noteq> []"
  shows "fst (next_websockets (length cs) token s) =
    map (\<lambda>c. Inr (Some (snd c))) (rotate (Suc (robin_index s token)) cs)"
  using assms by (intro nth_equalityI) (simp_all add: next_websockets_eq nth_rotate del: rotate_Suc)

definition three_clients :: server where
  "three_clients = (srv_init [] False)\<lparr>srv_token_locks := {lit ''a''},
     srv_token_clients := [(lit ''a'', [(1, 10), (2, 20), (3, 30)])]\<rparr>"

lemma round_robin_fair_witness:
  "fst (next_websockets 3 (lit ''a'') three_clients) = [Inr (Some 20), Inr (Some 30), Inr (Some 10)]"
  using round_robin_fair [of "lit ''a''" three_clients "[(1, 10), (2, 20), (3, 30)]"]
  by (simp add: three_clients_def robin_index_def srv_init_def numeral_3_eq_3 rotate_def)

section \<open>What a removal reaches and what it leaves behind\<close>

text \<open>
  Removing a forward token closes and forgets the clients of every forward token, not only its
  own: after it no forward client is known any more, although the other forward tokens stay valid.
\<close>

theorem forward_removal_drops_all_clients:
  assumes "srv_inv s" "srv_loop s" "t \<in> srv_forward_tokens s"
    and "\<not> has_key (srv_tokens s) t" "\<not> has_key (srv_connector_tokens s) t"
  shows "\<exists>s'. remove_token t s = (Inr True, s') \<and> srv_forward_tokens s' = srv_forward_tokens s - {t} \<and>
    srv_forward_clients s' = [] \<and>
    (\<forall>cid w. (cid, w) \<in> set (srv_forward_clients s) \<longrightarrow>
       CloseWs w 1000 token_removed \<in> set (srv_actions s'))"
proof -
  have "remove_token t s = (Inr True, drop_forward_token t s)"
    using assms by (simp add: remove_token_eq srv_inv_def)
  with assms(2) show ?thesis by (force simp: closing_def)
qed

definition two_forward_tokens :: server where
  "two_forward_tokens = (srv_init [] False)\<lparr>srv_loop := True, srv_forward_tokens := {lit ''f'', lit ''g''},
     srv_forward_clients := [(1, 10), (2, 20)]\<rparr>"

lemma forward_removal_drops_all_clients_witness:
  "\<exists>s'. remove_token (lit ''f'') two_forward_tokens = (Inr True, s') \<and>
     lit ''g'' \<in> srv_forward_tokens s' \<and> srv_forward_clients s' = [] \<and>
     CloseWs 20 1000 token_removed \<in> set (srv_actions s')"
  using forward_removal_drops_all_clients [of two_forward_tokens "lit ''f''"]
  by (auto simp: two_forward_tokens_def srv_init_def srv_inv_def ports_ok_def tokens_equipped_def)

text \<open>
  Removing a token whose clients manage connectors removes their internal tokens, but neither the
  connector tokens that lead to these nor their locks: the connector token still exists, a connector
  is still accepted with it, and each of its requests is answered as if no client were connected.
\<close>

theorem internal_connectors_dangle:
  assumes "srv_inv s" "has_key (srv_tokens s) t" "\<not> has_key (srv_connector_tokens s) t" "t \<notin> internal_of s t"
    and "i \<in> internal_of s t" "i \<in> srv_token_locks s" "dict_get (srv_connector_tokens s) c = Some i"
  shows "\<exists>s'. remove_token t s = (Inr True, s') \<and> dict_get (srv_tokens s') i = None \<and>
    dict_get (srv_connector_tokens s') c = Some i \<and> fst (get_next_websocket i s') = Inr None"
proof -
  obtain r s' where rm: "remove_token t s = (r, s')" by fastforce
  from assms(2) obtain p where p: "dict_get (srv_tokens s) t = Some p" by (auto simp: has_key_def)
  note f = remove_reverse_facts [OF assms(1) p assms(3,4) rm]
  have it: "i \<noteq> t" using assms(4,5) by auto
  have ok: "dict_ok (srv_connector_tokens s)" using assms(1) by (simp add: srv_inv_def)
  let ?i = "drop_internal_tokens t s"
  let ?d = "drop_connectors t (srv_connector_tokens ?i) ?i"
  have "dict_get (srv_tokens ?d) t = Some p" using p assms(4) by (simp add: dict_simps)
  from drop_reverse_effect [OF this] rm assms(2,3) ok
  have s': "srv_tokens s' = dict_del t (srv_tokens ?d)" "srv_token_locks s' = srv_token_locks ?d - {t}"
    "dict_get (srv_token_clients s') = (dict_get (srv_token_clients ?d))(t := None)"
    by (auto simp: remove_token_eq Let_def)
  have "dict_get (srv_tokens s') i = None" using s'(1) assms(5) by (simp add: dict_simps)
  moreover have "dict_get (srv_token_clients s') i = None"
    using s'(3) assms(5) it by (simp add: drop_connectors_get dict_simps)
  moreover have "i \<in> srv_token_locks s'" using s'(2) assms(6) it by simp
  moreover have "dict_get (srv_connector_tokens s') c = Some i" using f(7) [OF it] assms(7) by simp
  ultimately show ?thesis using rm f(1) by (simp add: get_next_websocket_def)
qed

definition managed_server :: server where
  "managed_server = (srv_init [] False)\<lparr>srv_token_locks := {lit ''a'', lit ''i''},
     srv_tokens := [(lit ''a'', - 1), (lit ''i'', - 1)],
     srv_connector_tokens := [(lit ''c'', lit ''i'')],
     srv_internal_tokens := [(lit ''a'', [lit ''i''])],
     srv_token_options :=
       [(lit ''a'', \<lparr>opt_username = None, opt_password = None, opt_allow_manage_connector = True\<rparr>),
        (lit ''i'', \<lparr>opt_username = None, opt_password = None, opt_allow_manage_connector = True\<rparr>)]\<rparr>"

lemma managed_server_inv: "srv_inv managed_server"
  by (auto simp: managed_server_def srv_init_def srv_inv_def ports_ok_def tokens_equipped_def dict_ok_def
      split: if_splits)

lemma internal_connectors_dangle_witness:
  "\<exists>s'. remove_token (lit ''a'') managed_server = (Inr True, s') \<and>
     dict_get (srv_tokens s') (lit ''i'') = None \<and>
     dict_get (srv_connector_tokens s') (lit ''c'') = Some (lit ''i'') \<and>
     fst (get_next_websocket (lit ''i'') s') = Inr None"
  by (rule internal_connectors_dangle [OF managed_server_inv])
    (simp_all add: managed_server_def internal_of_def has_key_def srv_init_def)

end
