(* ===== verification/Url.thy ===== *)
theory Url
  imports PyText Uuid
begin

text \<open>
  The parts of Python's \<^verbatim>\<open>urllib.parse\<close> (3.11) that client and server use: \<^verbatim>\<open>urlparse\<close>, \<^verbatim>\<open>urlunparse\<close>,
  \<^verbatim>\<open>parse_qs\<close> with percent-decoding, and \<^verbatim>\<open>urlencode\<close>; and \<^verbatim>\<open>UUID(text)\<close> of the module \<^verbatim>\<open>uuid\<close>.

  The checks of a host that is not ASCII against the Unicode tables and of one in brackets against the
  syntax of addresses (\<^verbatim>\<open>_checknetloc\<close>, \<^verbatim>\<open>_check_bracketed_host\<close>) are the parameter \<open>host_ok\<close>.
\<close>

section \<open>Characters\<close>

definition is_alpha :: "nat \<Rightarrow> bool" where
  "is_alpha c \<longleftrightarrow> 65 \<le> c \<and> c \<le> 90 \<or> 97 \<le> c \<and> c \<le> 122"

definition lower :: "pystr \<Rightarrow> pystr" where
  "lower = map (\<lambda>c. if 65 \<le> c \<and> c \<le> 90 then c + 32 else c)"

definition scheme_char :: "nat \<Rightarrow> bool" where
  "scheme_char c \<longleftrightarrow> is_alpha c \<or> is_digit c \<or> c \<in> {43, 45, 46}"

text \<open>\<^verbatim>\<open>_ALWAYS_SAFE\<close>: letters, digits, underscore, full stop, hyphen and tilde.\<close>

definition url_safe :: "nat \<Rightarrow> bool" where
  "url_safe c \<longleftrightarrow> is_alpha c \<or> is_digit c \<or> c \<in> {95, 46, 45, 126}"

section \<open>Taking URLs apart\<close>

record url =
  u_scheme :: pystr
  u_netloc :: pystr
  u_path :: pystr
  u_params :: pystr
  u_query :: pystr
  u_fragment :: pystr

text \<open>Split at the first occurrence of a character; the second part is \<open>None\<close> without one.\<close>

definition cut :: "nat \<Rightarrow> pystr \<Rightarrow> pystr \<times> pystr option" where
  "cut c s = (case split_first [c] s of None \<Rightarrow> (s, None) | Some (a, b) \<Rightarrow> (a, Some b))"

definition or_empty :: "pystr option \<Rightarrow> pystr" where
  "or_empty t = (case t of None \<Rightarrow> [] | Some t \<Rightarrow> t)"

definition clean_url :: "pystr \<Rightarrow> pystr" where
  "clean_url s = filter (\<lambda>c. c \<noteq> 9 \<and> c \<noteq> 13 \<and> c \<noteq> 10) (dropWhile (\<lambda>c. c \<le> 32) s)"

definition split_scheme :: "pystr \<Rightarrow> pystr \<times> pystr" where
  "split_scheme s =
     (case cut 58 s of
        (a, Some b) \<Rightarrow>
          if a \<noteq> [] \<and> is_alpha (hd a) \<and> list_all scheme_char a then (lower a, b) else ([], s)
      | (a, None) \<Rightarrow> ([], s))"

definition split_netloc :: "pystr \<Rightarrow> pystr \<times> pystr" where
  "split_netloc s =
     (if take 2 s = [47, 47]
      then (takeWhile (\<lambda>c. c \<notin> {47, 63, 35}) (drop 2 s), dropWhile (\<lambda>c. c \<notin> {47, 63, 35}) (drop 2 s))
      else ([], s))"

text \<open>\<^verbatim>\<open>_splitparams\<close>: the parameters of the last path segment.\<close>

definition split_params :: "pystr \<Rightarrow> pystr \<times> pystr" where
  "split_params s =
     (let last = rev (takeWhile (\<lambda>c. c \<noteq> 47) (rev s));
          front = take (length s - length last) s
      in case cut 59 last of
           (a, None) \<Rightarrow> (s, [])
         | (a, Some b) \<Rightarrow> (front @ a, b))"

definition uses_params :: "pystr set" where
  "uses_params = lit ` {'''', ''ftp'', ''hdl'', ''prospero'', ''http'', ''https'', ''shttp'', ''rtsp'',
     ''rtsps'', ''rtspu'', ''sip'', ''sips'', ''mms'', ''sftp'', ''tel''}"

definition uses_netloc :: "pystr set" where
  "uses_netloc = lit ` {'''', ''ftp'', ''http'', ''gopher'', ''nntp'', ''telnet'', ''imap'', ''wais'', ''file'',
     ''mms'', ''https'', ''shttp'', ''snews'', ''prospero'', ''rtsp'', ''rtsps'', ''rtspu'', ''rsync'',
     ''svn'', ''svn+ssh'', ''sftp'', ''nfs'', ''git'', ''git+ssh'', ''ws'', ''wss''}"

text \<open>Hosts to which neither check applies.\<close>

definition unchecked_host :: "pystr \<Rightarrow> bool" where
  "unchecked_host netloc \<longleftrightarrow> ascii netloc \<and> 91 \<notin> set netloc"

definition urlparse :: "(pystr \<Rightarrow> bool) \<Rightarrow> pystr \<Rightarrow> url res" where
  "urlparse host_ok s =
     (case split_scheme (clean_url s) of
        (scheme, rest) \<Rightarrow>
          (case split_netloc rest of
             (netloc, rest) \<Rightarrow>
               if (91 \<in> set netloc) \<noteq> (93 \<in> set netloc) then value_error ''Invalid IPv6 URL''
               else if \<not> unchecked_host netloc \<and> \<not> host_ok netloc then value_error ''invalid host''
               else
                 (case cut 35 rest of
                    (rest, fragment) \<Rightarrow>
                      (case cut 63 rest of
                         (path, query) \<Rightarrow>
                           (case (if scheme \<in> uses_params then split_params path else (path, [])) of
                              (path, params) \<Rightarrow>
                                Inr \<lparr>u_scheme = scheme, u_netloc = netloc, u_path = path, u_params = params,
                                  u_query = or_empty query, u_fragment = or_empty fragment\<rparr>)))))"

definition urlunparse :: "url \<Rightarrow> pystr" where
  "urlunparse u =
     (let s = (if u_params u \<noteq> [] then u_path u @ [59] @ u_params u else u_path u);
          s = (if u_netloc u \<noteq> [] \<or> (u_scheme u \<noteq> [] \<and> u_scheme u \<in> uses_netloc) \<or> take 2 s = [47, 47]
               then [47, 47] @ u_netloc u @ (if s \<noteq> [] \<and> take 1 s \<noteq> [47] then 47 # s else s) else s);
          s = (if u_scheme u \<noteq> [] then u_scheme u @ [58] @ s else s);
          s = (if u_query u \<noteq> [] then s @ [63] @ u_query u else s)
      in if u_fragment u \<noteq> [] then s @ [35] @ u_fragment u else s)"

section \<open>Queries\<close>

text \<open>
  UTF-8 decoding with \<^verbatim>\<open>errors="replace"\<close>: the replacement character stands for a maximal part of a
  valid sequence. \<open>bad_length\<close> is the length of that part where no sequence can be decoded.
\<close>

definition cont :: "nat \<Rightarrow> bytes \<Rightarrow> bool" where
  "cont i bs \<longleftrightarrow> i < length bs \<and> 0x80 \<le> unat (bs ! i) \<and> unat (bs ! i) \<le> 0xBF"

definition second_ok :: "nat \<Rightarrow> bytes \<Rightarrow> bool" where
  "second_ok b bs \<longleftrightarrow> cont 1 bs \<and>
     (b = 0xE0 \<longrightarrow> 0xA0 \<le> unat (bs ! 1)) \<and> (b = 0xED \<longrightarrow> unat (bs ! 1) < 0xA0) \<and>
     (b = 0xF0 \<longrightarrow> 0x90 \<le> unat (bs ! 1)) \<and> (b = 0xF4 \<longrightarrow> unat (bs ! 1) < 0x90)"

definition bad_length :: "bytes \<Rightarrow> nat" where
  "bad_length bs =
     (let b = unat (hd bs) in
      if 0xE0 \<le> b \<and> b \<le> 0xF4 \<and> second_ok b bs then (if 0xF0 \<le> b \<and> cont 2 bs then 3 else 2) else 1)"

function utf8_decode_replace :: "bytes \<Rightarrow> pystr" where
  "utf8_decode_replace bs =
     (if bs = [] then []
      else case dec_cp bs of
        None \<Rightarrow> 0xFFFD # utf8_decode_replace (drop (bad_length bs) bs)
      | Some (c, r) \<Rightarrow> c # utf8_decode_replace r)"
  by pat_completeness auto
termination
  by (relation "measure length") (auto intro: dec_cp_shorter simp: bad_length_def Let_def)

declare utf8_decode_replace.simps [simp del]

fun unquote_to_bytes :: "pystr \<Rightarrow> bytes" where
  "unquote_to_bytes (p # a # b # r) =
     (if p = 37 then
        (case (hex_val a, hex_val b) of
           (Some x, Some y) \<Rightarrow> byte_of (16 * x + y) # unquote_to_bytes r
         | _ \<Rightarrow> byte_of p # unquote_to_bytes (a # b # r))
      else byte_of p # unquote_to_bytes (a # b # r))"
| "unquote_to_bytes (p # r) = byte_of p # unquote_to_bytes r"
| "unquote_to_bytes [] = []"

text \<open>Percent escapes are decoded within each run of ASCII characters.\<close>

function unquote :: "pystr \<Rightarrow> pystr" where
  "unquote s =
     (if s = [] then []
      else
        (let r = dropWhile (\<lambda>c. c < 128) s in
         utf8_decode_replace (unquote_to_bytes (takeWhile (\<lambda>c. c < 128) s)) @
         takeWhile (\<lambda>c. \<not> c < 128) r @ unquote (dropWhile (\<lambda>c. \<not> c < 128) r)))"
  by pat_completeness auto
termination
proof (relation "measure length")
  fix s r :: pystr
  assume s: "s \<noteq> []" "r = dropWhile (\<lambda>c. c < 128) s"
  let ?d = "dropWhile (\<lambda>c. \<not> c < 128) r"
  from s(1) obtain c cs where c: "s = c # cs" by (cases s) auto
  have "length ?d < length s"
  proof (cases "c < 128")
    case True
    with c s(2) have "length r \<le> length cs" by (simp add: length_dropWhile_le)
    moreover have "length ?d \<le> length r" by (rule length_dropWhile_le)
    ultimately show ?thesis using c by simp
  next
    case False
    with c s(2) have "?d = dropWhile (\<lambda>c. \<not> c < 128) cs" by simp
    with c show ?thesis using length_dropWhile_le [of "\<lambda>c. \<not> c < 128" cs] by simp
  qed
  then show "(?d, s) \<in> measure length" by simp
qed simp

declare unquote.simps [simp del]

definition unquote_plus :: "pystr \<Rightarrow> pystr" where
  "unquote_plus s = unquote (map (\<lambda>c. if c = 43 then 32 else c) s)"

definition parse_qsl :: "pystr \<Rightarrow> (pystr \<times> pystr) list" where
  "parse_qsl s =
     concat (map (\<lambda>field.
       (case cut 61 field of
          (name, value) \<Rightarrow>
            if or_empty value \<noteq> [] then [(unquote_plus name, unquote_plus (or_empty value))] else []))
       (split_all [38] s))"

fun group_fields :: "(pystr \<times> pystr) list \<Rightarrow> (pystr, pystr list) dict \<Rightarrow> (pystr, pystr list) dict" where
  "group_fields [] d = d"
| "group_fields ((name, value) # r) d =
     group_fields r (dict_set name ((case dict_get d name of None \<Rightarrow> [] | Some vs \<Rightarrow> vs) @ [value]) d)"

definition parse_qs :: "pystr \<Rightarrow> (pystr, pystr list) dict" where
  "parse_qs s = group_fields (parse_qsl s) []"

text \<open>\<^verbatim>\<open>quote_plus\<close> with no further safe characters.\<close>

definition hex_upper :: "nat \<Rightarrow> nat" where
  "hex_upper d = (if d < 10 then 48 + d else 55 + d)"

definition quote_byte :: "byte \<Rightarrow> pystr" where
  "quote_byte b =
     (let n = unat b in
      if url_safe n then [n] else if n = 32 then [43] else [37, hex_upper (n div 16), hex_upper (n mod 16)])"

definition quote_plus :: "pystr \<Rightarrow> pystr res" where
  "quote_plus s = rbind (utf8_encode s) (\<lambda>bs. Inr (concat (map quote_byte bs)))"

fun urlencode :: "(pystr \<times> pystr) list \<Rightarrow> pystr res" where
  "urlencode [] = Inr []"
| "urlencode [(name, value)] =
     rbind (quote_plus name) (\<lambda>n. rbind (quote_plus value) (\<lambda>v. Inr (n @ [61] @ v)))"
| "urlencode ((name, value) # r) =
     rbind (quote_plus name) (\<lambda>n. rbind (quote_plus value) (\<lambda>v. rbind (urlencode r) (\<lambda>q.
       Inr (n @ [61] @ v @ [38] @ q))))"

section \<open>UUID texts\<close>

text \<open>
  \<^verbatim>\<open>UUID(text)\<close>: the prefixes \<^verbatim>\<open>urn:\<close> and \<^verbatim>\<open>uuid:\<close>, braces at the ends and hyphens are dropped, and the 32
  characters that remain are read by \<^verbatim>\<open>int(hex, 16)\<close>, which takes ASCII digits here.
\<close>

fun hex_digits :: "bool \<Rightarrow> pystr \<Rightarrow> nat list option" where
  "hex_digits after_digit [] = (if after_digit then Some [] else None)"
| "hex_digits after_digit (c # cs) =
     (case hex_val c of
        Some d \<Rightarrow> (case hex_digits True cs of None \<Rightarrow> None | Some ds \<Rightarrow> Some (d # ds))
      | None \<Rightarrow> if c = 95 \<and> after_digit \<and> cs \<noteq> [] then hex_digits False cs else None)"

definition int_base16 :: "pystr \<Rightarrow> int res" where
  "int_base16 s =
     (let t = strip s;
          neg = (t \<noteq> [] \<and> hd t = 45);
          u = (if t \<noteq> [] \<and> (hd t = 45 \<or> hd t = 43) then tl t else t);
          v = (if take 2 u = [48, 120] \<or> take 2 u = [48, 88]
               then (if take 1 (drop 2 u) = [95] then drop 3 u else drop 2 u) else u) in
      case hex_digits False v of
        None \<Rightarrow> value_error ''invalid literal for int() with base 16''
      | Some ds \<Rightarrow> Inr ((if neg then - 1 else 1) * int (of_digits 16 ds)))"

definition str_replace :: "pystr \<Rightarrow> pystr \<Rightarrow> pystr \<Rightarrow> pystr" where
  "str_replace old new s = intersperse_str new (split_all old s)"

definition strip_braces :: "pystr \<Rightarrow> pystr" where
  "strip_braces s =
     rev (dropWhile (\<lambda>c. c \<in> {123, 125}) (rev (dropWhile (\<lambda>c. c \<in> {123, 125}) s)))"

definition py_uuid :: "pystr \<Rightarrow> uuid res" where
  "py_uuid s =
     (let h = filter (\<lambda>c. c \<noteq> 45)
            (strip_braces (str_replace (lit ''uuid:'') [] (str_replace (lit ''urn:'') [] s))) in
      if length h \<noteq> 32 then value_error ''badly formed hexadecimal UUID string''
      else rbind (int_base16 h) (\<lambda>n.
        if 0 \<le> n \<and> n < 2 ^ 128 then Inr (word_of_nat (nat n))
        else value_error ''int is out of range (need a 128-bit value)''))"


section \<open>Texts that need no quoting\<close>

lemma url_safe_ascii: "url_safe c \<Longrightarrow> c < 128"
  by (auto simp: url_safe_def is_alpha_def is_digit_def)

lemma cut_found: "c \<notin> set a \<Longrightarrow> cut c (a @ c # b) = (a, Some b)"
proof -
  assume "c \<notin> set a"
  then have "takeWhile (\<lambda>d. d \<noteq> c) (a @ c # b) = a" "dropWhile (\<lambda>d. d \<noteq> c) (a @ c # b) = c # b"
    by (induction a) auto
  then show ?thesis by (simp add: cut_def split_first_char)
qed

lemma cut_none: "c \<notin> set s \<Longrightarrow> cut c s = (s, None)"
  by (simp add: cut_def split_first_char)

lemma split_max_found: "x \<notin> set a \<Longrightarrow> split_max (Suc n) [x] (a @ x # b) = a # split_max n [x] b"
  using cut_found [of x a b] by (auto simp: cut_def split: option.splits)

lemma split_max_none: "x \<notin> set s \<Longrightarrow> split_max n [x] s = [s]"
  by (cases n) (simp_all add: split_first_char)

lemma decode_replace_ascii:
  "\<forall>c\<in>set s. c < 128 \<Longrightarrow> utf8_decode_replace (map byte_of s) = s"
proof (induction s)
  case (Cons c s)
  then have "dec_cp (map byte_of (c # s)) = Some (c, map byte_of s)" by simp
  with Cons show ?case by (subst utf8_decode_replace.simps) simp
qed (simp add: utf8_decode_replace.simps)

lemma unquote_to_bytes_plain: "37 \<notin> set s \<Longrightarrow> unquote_to_bytes s = map byte_of s"
  by (induction s rule: unquote_to_bytes.induct) auto

lemma unquote_safe:
  assumes "\<forall>c\<in>set s. url_safe c"
  shows "unquote_plus s = s"
proof -
  have a: "\<forall>c\<in>set s. c < 128" using assms url_safe_ascii by blast
  then have t: "takeWhile (\<lambda>c. c < 128) s = s" "dropWhile (\<lambda>c. c < 128) s = []"
    by (simp_all add: takeWhile_eq_all_conv)
  have n: "37 \<notin> set s" "43 \<notin> set s"
    using assms by (auto simp: url_safe_def is_alpha_def is_digit_def)
  have "map (\<lambda>c. if c = 43 then 32 else c) s = s"
    using n(2) by (intro map_idI) auto
  moreover have "unquote s = s"
    using n(1) decode_replace_ascii [OF a]
    by (subst unquote.simps) (simp add: t Let_def unquote_to_bytes_plain unquote.simps [of "[]"])
  ultimately show ?thesis by (simp add: unquote_plus_def)
qed

lemma quote_safe:
  assumes "\<forall>c\<in>set s. url_safe c"
  shows "quote_plus s = Inr s"
proof -
  have a: "\<forall>c\<in>set s. c < 128" using assms url_safe_ascii by blast
  have "concat (map quote_byte (map byte_of s)) = s" using assms a
    by (induction s) (auto simp: quote_byte_def)
  with a show ?thesis by (simp add: quote_plus_def utf8_encode_ascii ascii_def)
qed

text \<open>A query whose names and values need no quoting is read back field by field.\<close>

definition plain_field :: "pystr \<times> pystr \<Rightarrow> bool" where
  "plain_field f \<longleftrightarrow> (\<forall>c\<in>set (fst f). url_safe c) \<and> (\<forall>c\<in>set (snd f). url_safe c) \<and> snd f \<noteq> []"

fun query_text :: "(pystr \<times> pystr) list \<Rightarrow> pystr" where
  "query_text [] = []"
| "query_text [(n, v)] = n @ [61] @ v"
| "query_text ((n, v) # r) = n @ [61] @ v @ [38] @ query_text r"

lemma urlencode_plain: "list_all plain_field fs \<Longrightarrow> urlencode fs = Inr (query_text fs)"
  by (induction fs rule: query_text.induct) (auto simp: plain_field_def quote_safe)

lemma safe_no_sep: "\<forall>c\<in>set s. url_safe c \<Longrightarrow> 38 \<notin> set s \<and> 61 \<notin> set s \<and> 35 \<notin> set s"
  by (auto simp: url_safe_def is_alpha_def is_digit_def)

definition field_text :: "pystr \<times> pystr \<Rightarrow> pystr" where
  "field_text f = fst f @ [61] @ snd f"

lemma field_no_sep: "plain_field f \<Longrightarrow> 38 \<notin> set (field_text f)"
  using safe_no_sep [of "fst f"] safe_no_sep [of "snd f"] by (simp add: plain_field_def field_text_def)

lemma query_text_split:
  "list_all plain_field fs \<Longrightarrow> fs \<noteq> [] \<Longrightarrow> length fs \<le> Suc n \<Longrightarrow>
     split_max n [38] (query_text fs) = map field_text fs"
proof (induction fs arbitrary: n rule: query_text.induct)
  case (2 k v)
  then have "38 \<notin> set (field_text (k, v))" by (intro field_no_sep) simp
  from split_max_none [OF this] show ?case by (simp add: field_text_def)
next
  case (3 k v f r)
  then have "38 \<notin> set (field_text (k, v))" by (intro field_no_sep) simp
  moreover from 3(4) obtain m where m: "n = Suc m" "length (f # r) \<le> Suc m" by (cases n) auto
  ultimately have "split_max n [38] (field_text (k, v) @ 38 # query_text (f # r)) =
      field_text (k, v) # split_max m [38] (query_text (f # r))"
    by (blast intro: split_max_found)
  moreover have "split_max m [38] (query_text (f # r)) = map field_text (f # r)"
    using 3 m by auto
  ultimately show ?case using m(1) by (simp add: field_text_def)
qed simp

lemma query_text_length: "length fs \<le> Suc (length (query_text fs))"
  by (induction fs rule: query_text.induct) auto

lemma parse_qsl_plain:
  assumes "list_all plain_field fs" "fs \<noteq> []"
  shows "parse_qsl (query_text fs) = fs"
proof -
  have one: "(case cut 61 (field_text f) of (name, value) \<Rightarrow>
      if or_empty value \<noteq> [] then [(unquote_plus name, unquote_plus (or_empty value))] else []) = [f]"
    if "plain_field f" for f
    using that safe_no_sep [of "fst f"] cut_found [of 61 "fst f" "snd f"]
    by (simp add: plain_field_def field_text_def or_empty_def unquote_safe)
  have "split_all [38] (query_text fs) = map field_text fs"
    unfolding split_all_def by (rule query_text_split [OF assms query_text_length])
  then have "parse_qsl (query_text fs) = concat (map (\<lambda>f. case cut 61 (field_text f) of (name, value) \<Rightarrow>
      if or_empty value \<noteq> [] then [(unquote_plus name, unquote_plus (or_empty value))] else []) fs)"
    by (simp add: parse_qsl_def comp_def)
  also have "\<dots> = concat (map (\<lambda>f. [f]) fs)"
    using assms(1) one by (intro arg_cong [of _ _ concat] map_cong) (auto simp: list_all_iff)
  finally show ?thesis by simp
qed

section \<open>Reading back a UUID\<close>

lemma split_first_absent: "c \<in> set sep \<Longrightarrow> c \<notin> set s \<Longrightarrow> sep \<noteq> [] \<Longrightarrow> split_first sep s = None"
proof (induction s)
  case (Cons d s)
  then have "take (length sep) (d # s) \<noteq> sep" by (metis in_set_takeD)
  with Cons show ?case by simp
qed simp

lemma str_replace_absent: "c \<in> set sep \<Longrightarrow> c \<notin> set s \<Longrightarrow> str_replace sep new s = s"
  using split_first_absent [of c sep s]
  by (cases "length s"; cases "sep = []") (auto simp: str_replace_def split_all_def)

definition lower_hex :: "nat \<Rightarrow> bool" where
  "lower_hex c \<longleftrightarrow> 48 \<le> c \<and> c \<le> 57 \<or> 97 \<le> c \<and> c \<le> 102"

lemma lower_hex_char: "d < 16 \<Longrightarrow> lower_hex (hex_char d)"
  by (auto simp: lower_hex_def hex_char_def)

lemma lower_hex_safe: "lower_hex c \<Longrightarrow> url_safe c"
  by (auto simp: lower_hex_def url_safe_def is_alpha_def is_digit_def)

lemma uuid_hex_lower: "c \<in> set (uuid_hex u) \<Longrightarrow> lower_hex c"
  by (auto simp: uuid_hex_def lower_hex_char dest: set_to_digits [rotated])

lemma uuid_str_chars: "c \<in> set (uuid_str u) \<Longrightarrow> lower_hex c \<or> c = 45"
  by (auto simp: uuid_str_def Let_def slice_def dest!: in_set_takeD in_set_dropD intro: uuid_hex_lower)

lemma uuid_str_safe: "\<forall>c\<in>set (uuid_str u). url_safe c"
  using uuid_str_chars lower_hex_safe by (auto simp: url_safe_def)

lemma hex_digits_chars: "\<forall>d\<in>set ds. d < 16 \<Longrightarrow> hex_digits b (map hex_char ds) = (if b \<or> ds \<noteq> [] then Some ds else None)"
  by (induction ds arbitrary: b) auto

lemma lower_hex_not_space: "lower_hex c \<Longrightarrow> \<not> is_space c"
  unfolding lower_hex_def is_space_def by linarith

lemma int_base16_hex:
  assumes "\<forall>d\<in>set ds. d < 16" "ds \<noteq> []"
  shows "int_base16 (map hex_char ds) = Inr (int (of_digits 16 ds))"
proof -
  let ?s = "map hex_char ds"
  have hex: "\<forall>c\<in>set ?s. lower_hex c" using assms(1) by (auto simp: lower_hex_char)
  then have "strip ?s = ?s" by (intro strip_digits) (auto dest: lower_hex_not_space)
  moreover have "hd ?s \<noteq> 45 \<and> hd ?s \<noteq> 43"
    using hex assms(2) by (cases ds) (auto simp: lower_hex_def)
  moreover have "take 2 ?s \<noteq> [48, 120] \<and> take 2 ?s \<noteq> [48, 88]"
  proof -
    have "120 \<notin> set ?s" "88 \<notin> set ?s"
      using hex by (fastforce simp: lower_hex_def)+
    then have "120 \<notin> set (take 2 ?s)" "88 \<notin> set (take 2 ?s)"
      by (blast dest: in_set_takeD)+
    then show ?thesis by (metis list.set_intros(1,2))
  qed
  ultimately show ?thesis
    using hex_digits_chars [OF assms(1), of False] assms(2) by (simp add: int_base16_def Let_def)
qed

theorem py_uuid_str [simp]: "py_uuid (uuid_str u) = Inr u"
proof -
  have colon: "58 \<notin> set (uuid_str u)" using uuid_str_chars by (fastforce simp: lower_hex_def)
  have brace: "c \<noteq> 123 \<and> c \<noteq> 125" if "c \<in> set (uuid_str u)" for c
    using uuid_str_chars [OF that] by (auto simp: lower_hex_def)
  have dw: "dropWhile (\<lambda>c. c \<in> {123, 125}) s = s" if "\<forall>c\<in>set s. c \<noteq> 123 \<and> c \<noteq> (125 :: nat)" for s
    using that by (cases s) auto
  have "dropWhile (\<lambda>c. c \<in> {123, 125}) (uuid_str u) = uuid_str u"
    "dropWhile (\<lambda>c. c \<in> {123, 125}) (rev (uuid_str u)) = rev (uuid_str u)"
    using brace by (intro dw; simp)+
  then have "strip_braces (uuid_str u) = uuid_str u"
    by (simp only: strip_braces_def rev_rev_ident)
  moreover have "str_replace (lit ''urn:'') [] (uuid_str u) = uuid_str u"
    "str_replace (lit ''uuid:'') [] (uuid_str u) = uuid_str u"
    using colon by (auto intro!: str_replace_absent [of 58])
  moreover have "int_base16 (uuid_hex u) = Inr (int (unat u))"
  proof -
    have "to_digits 16 32 (unat u) \<noteq> []" by (metis length_0_conv length_to_digits zero_neq_numeral)
    then show ?thesis
      using unat_uuid_less [of u] unfolding uuid_hex_def
      by (subst int_base16_hex) (auto simp: set_to_digits of_digits_to_digits)
  qed
  moreover have "uint u < 2 ^ 128" using uint_lt2p [of u] by simp
  ultimately show ?thesis by (simp add: py_uuid_def filter_uuid_str)
qed

section \<open>The target of a request\<close>

lemma urlparse_socket:
  assumes "\<forall>c\<in>set q. url_safe c \<or> c \<in> {38, 61}"
  shows "urlparse host_ok (lit ''/socket?'' @ q) =
    Inr \<lparr>u_scheme = [], u_netloc = [], u_path = lit ''/socket'', u_params = [], u_query = q, u_fragment = []\<rparr>"
proof -
  let ?s = "lit ''/socket?'' @ q"
  have q: "c \<noteq> 58 \<and> c \<noteq> 35 \<and> 32 < c" if "c \<in> set q" for c
    using assms that by (auto simp: url_safe_def is_alpha_def is_digit_def)
  have "clean_url ?s = ?s"
    using q by (force simp: clean_url_def filter_id_conv)
  moreover have "cut 58 ?s = (?s, None)" "cut 35 ?s = (?s, None)"
    using q [of 58] q [of 35] by (auto intro!: cut_none)
  moreover have "cut 63 ?s = (lit ''/socket'', Some q)"
    using cut_found [of 63 "lit ''/socket''" q] by simp
  moreover have "split_params (lit ''/socket'') = (lit ''/socket'', [])"
    by (simp add: split_params_def cut_none)
  moreover have "split_netloc ?s = ([], ?s)" by (simp add: split_netloc_def)
  ultimately show ?thesis
    by (simp add: urlparse_def split_scheme_def unchecked_host_def uses_params_def or_empty_def del: lit_Cons)
qed

end
