(* ===== verification/Sessions.thy ===== *)
theory Sessions
  imports Tokens Url Conn Codec
begin

text \<open>
  A connection to the server, from its HTTP request to its clean-up (\<open>_process_request\<close>,
  \<open>_handle_websocket\<close>, \<open>_cleanup_connection\<close> and the \<open>_broadcast_partners\<close> methods of class
  \<open>WSSocksServer\<close> in \<^verbatim>\<open>pywssocks/server.py\<close>).

  The handler suspends where it waits for the SOCKS server of a new client and while it serves the
  client. The definitions are the stretches between these points: \<open>authenticate\<close> and \<open>admit\<close>, then
  \<open>confirm_client\<close>, then the dispatcher, then \<open>cleanup_connection\<close>; \<open>handle_websocket\<close> composes them, with what
  happens meanwhile as an argument. Parameters: \<open>up w\<close>, whether a send on connection \<open>w\<close> succeeds;
  \<open>sha\<close>, the hexadecimal SHA-256 digest; the order in which a set is iterated; the UUIDs drawn.
\<close>

section \<open>The HTTP request\<close>

datatype http_answer = Handshake pystr | Respond int pystr

definition process_request :: "(pystr \<Rightarrow> bool) \<Rightarrow> pystr \<Rightarrow> pystr \<Rightarrow> http_answer res" where
  "process_request host_ok version path =
     rbind (urlparse host_ok path) (\<lambda>u.
       if u_path u = lit ''/socket'' then Inr (Handshake path)
       else if u_path u = lit ''/'' then
         Inr (Respond 200 (lit ''Pywssocks '' @ version @
           lit '' is running but API is not enabled. Please check the documentation.'' @ [10]))
       else Inr (Respond 404 (lit ''404 Not Found'' @ [10])))"

section \<open>Authentication\<close>

datatype verdict = Reject pystr | Accept pystr bool uuid

definition all_tokens :: "server \<Rightarrow> pystr set" where
  "all_tokens s = dict_keys (srv_tokens s) \<union> srv_forward_tokens s \<union> dict_keys (srv_connector_tokens s)"

fun resolve_token :: "(bytes \<Rightarrow> pystr) \<Rightarrow> pystr \<Rightarrow> pystr list \<Rightarrow> pystr option res" where
  "resolve_token sha raw_token [] = Inr None"
| "resolve_token sha raw_token (t # ts) =
     (if raw_token = t then Inr (Some t)
      else rbind (utf8_encode t) (\<lambda>b.
        if raw_token = sha b then Inr (Some t) else resolve_token sha raw_token ts))"

definition query_auth ::
    "(bytes \<Rightarrow> pystr) \<Rightarrow> pystr list \<Rightarrow> uuid \<Rightarrow> (pystr, pystr list) dict \<Rightarrow> pystr \<Rightarrow> verdict res" where
  "query_auth sha order drawn qs raw_token =
     (let reverse = (case dict_get qs (lit ''reverse'') of
            None \<Rightarrow> False | Some vs \<Rightarrow> lower (hd vs) = lit ''true'');
          inst = (case dict_get qs (lit ''instance'') of
            None \<Rightarrow> drawn
          | Some vs \<Rightarrow> (case py_uuid (hd vs) of Inr u \<Rightarrow> u | Inl _ \<Rightarrow> drawn)) in
      rbind (resolve_token sha raw_token order) (\<lambda>resolved.
        if truthy resolved then Inr (Accept (the resolved) reverse inst)
        else Inr (Reject (lit ''Invalid token''))))"

definition message_auth :: "(bytes \<Rightarrow> bytes res) \<Rightarrow> frame \<Rightarrow> verdict res" where
  "message_auth gunzip auth_data =
     (case auth_data of
        EndOfStream \<Rightarrow> Inl ConnectionClosed
      | TextFrame \<Rightarrow> Inr (Reject (lit ''Invalid message format''))
      | Binary bs \<Rightarrow>
          (case parse_message gunzip bs of
             Inr (AuthMessage token reverse inst) \<Rightarrow> Inr (Accept token reverse inst)
           | _ \<Rightarrow> Inr (Reject (lit ''Invalid auth message''))))"

definition authenticate ::
    "(pystr \<Rightarrow> bool) \<Rightarrow> (bytes \<Rightarrow> pystr) \<Rightarrow> (bytes \<Rightarrow> bytes res) \<Rightarrow> pystr list \<Rightarrow> uuid \<Rightarrow> pystr \<Rightarrow> frame \<Rightarrow>
     verdict res" where
  "authenticate host_ok sha gunzip order drawn req_path auth_data =
     rbind (if req_path = [] then Inr [] else rbind (urlparse host_ok req_path) (\<lambda>u. Inr (parse_qs (u_query u))))
       (\<lambda>qs. case dict_get qs (lit ''token'') of
          Some vs \<Rightarrow> query_auth sha order drawn qs (hd vs)
        | None \<Rightarrow> message_auth gunzip auth_data)"

section \<open>Sending and broadcasts\<close>

definition srv_emit :: "action \<Rightarrow> server \<Rightarrow> server" where
  "srv_emit a s = s\<lparr>srv_actions := srv_actions s @ [a]\<rparr>"

definition srv_send :: "(bytes \<Rightarrow> bytes) \<Rightarrow> (ws \<Rightarrow> bool) \<Rightarrow> ws \<Rightarrow> message \<Rightarrow> (server, unit) io" where
  "srv_send gz up w msg s =
     (case pack_message gz msg of
        Inl e \<Rightarrow> (Inl e, s)
      | Inr bs \<Rightarrow> if up w then (Inr (), srv_emit (SendWs w bs) s) else (Inl ConnectionClosed, s))"

definition clients_of :: "server \<Rightarrow> pystr \<Rightarrow> (client_id \<times> ws) list" where
  "clients_of s token = (case dict_get (srv_token_clients s) token of None \<Rightarrow> [] | Some cs \<Rightarrow> cs)"

definition count_clients :: "pystr list \<Rightarrow> server \<Rightarrow> nat" where
  "count_clients tokens s = sum_list (map (\<lambda>t. length (clients_of s t)) tokens)"

definition partners :: "nat \<Rightarrow> message" where
  "partners n = PartnersMessage (JInt (int n))"

text \<open>A failed send in a broadcast is logged and the next connection is tried.\<close>

fun broadcast :: "(bytes \<Rightarrow> bytes) \<Rightarrow> (ws \<Rightarrow> bool) \<Rightarrow> message \<Rightarrow> ws list \<Rightarrow> server \<Rightarrow> server" where
  "broadcast gz up msg [] s = s"
| "broadcast gz up msg (w # ws) s = broadcast gz up msg ws (snd (srv_send gz up w msg s))"

definition broadcast_partners_to_connectors :: "(bytes \<Rightarrow> bytes) \<Rightarrow> (ws \<Rightarrow> bool) \<Rightarrow> server \<Rightarrow> server" where
  "broadcast_partners_to_connectors gz up s =
     (let reverse_count = count_clients (map fst (srv_tokens s)) s in
      broadcast gz up (partners reverse_count)
        (concat (map (\<lambda>c. map snd (clients_of s (fst c))) (srv_connector_tokens s))) s)"

definition broadcast_partners_to_reverse_clients ::
    "(bytes \<Rightarrow> bytes) \<Rightarrow> (ws \<Rightarrow> bool) \<Rightarrow> pystr \<Rightarrow> server \<Rightarrow> server" where
  "broadcast_partners_to_reverse_clients gz up reverse_token s =
     (let connector_count =
            count_clients (map fst (filter (\<lambda>c. snd c = reverse_token) (srv_connector_tokens s))) s in
      broadcast gz up (partners connector_count) (map snd (clients_of s reverse_token)) s)"

section \<open>Admission\<close>

text \<open>The local variables of the handler once the client has an id.\<close>

datatype role = ReverseRole | ForwardRole | ConnectorRole pystr

record handler =
  hd_ws :: ws
  hd_client :: client_id
  hd_token :: pystr
  hd_key :: pystr
  hd_role :: role

definition add_client :: "pystr \<Rightarrow> client_id \<Rightarrow> ws \<Rightarrow> server \<Rightarrow> server" where
  "add_client token cid w s =
     s\<lparr>srv_token_clients := dict_set token (clients_of s token @ [(cid, w)]) (srv_token_clients s)\<rparr>"

text \<open>A token whose clients manage connectors gets an internal token for each of its connections.\<close>

definition register_internal ::
    "pystr \<Rightarrow> token_options \<Rightarrow> uuid \<Rightarrow> client_id \<Rightarrow> ws \<Rightarrow> server \<Rightarrow> server" where
  "register_internal token opts inst cid w s =
     (let internal_token = uuid_str inst;
          its = (case dict_get (srv_internal_tokens s) token of None \<Rightarrow> [] | Some its \<Rightarrow> its);
          s = s\<lparr>srv_internal_tokens := dict_set token (its @ [internal_token]) (srv_internal_tokens s)\<rparr>;
          s = s\<lparr>srv_token_indexes := dict_set internal_token 0 (srv_token_indexes s)\<rparr>;
          s = s\<lparr>srv_token_options := dict_set internal_token opts (srv_token_options s)\<rparr>;
          s = s\<lparr>srv_tokens := dict_set internal_token (- 1) (srv_tokens s)\<rparr>;
          s = s\<lparr>srv_token_locks := insert internal_token (srv_token_locks s)\<rparr>
      in add_client internal_token cid w s)"

definition ensure_socks_server :: "pystr \<Rightarrow> int \<Rightarrow> server \<Rightarrow> server" where
  "ensure_socks_server token socks_port s =
     (if \<not> has_key (srv_socks_tasks s) socks_port \<and> socks_port > 0
      then srv_emit (StartSocks token socks_port)
        (s\<lparr>srv_socks_tasks := dict_set socks_port token (srv_socks_tasks s)\<rparr>)
      else s)"

definition admit_reverse :: "client_id \<Rightarrow> ws \<Rightarrow> pystr \<Rightarrow> uuid \<Rightarrow> int \<Rightarrow> server \<Rightarrow> handler \<times> server" where
  "admit_reverse cid w token inst socks_port s =
     (let h = \<lparr>hd_ws = w, hd_client = cid, hd_token = token, hd_key = token, hd_role = ReverseRole\<rparr> in
      case dict_get (srv_token_options s) token of
        Some opts \<Rightarrow>
          (if opt_allow_manage_connector opts
           then (h\<lparr>hd_key := uuid_str inst\<rparr>,
             ensure_socks_server token socks_port (register_internal token opts inst cid w s))
           else (h, ensure_socks_server token socks_port (add_client token cid w s)))
      | None \<Rightarrow> (h, ensure_socks_server token socks_port (add_client token cid w s)))"

definition admit :: "client_id \<Rightarrow> ws \<Rightarrow> pystr \<Rightarrow> bool \<Rightarrow> uuid \<Rightarrow> server \<Rightarrow> handler option res \<times> server" where
  "admit cid w token reverse inst s =
     (if reverse \<and> has_key (srv_tokens s) token then
        (if token \<notin> srv_token_locks s then (Inl KeyError, s)
         else
           (case admit_reverse cid w token inst (the (dict_get (srv_tokens s) token)) s of
              (h, s) \<Rightarrow> (Inr (Some h), s)))
      else if \<not> reverse \<and> token \<in> srv_forward_tokens s then
        (Inr (Some \<lparr>hd_ws = w, hd_client = cid, hd_token = token, hd_key = token, hd_role = ForwardRole\<rparr>),
         s\<lparr>srv_forward_clients := dict_set cid w (srv_forward_clients s)\<rparr>)
      else if \<not> reverse \<and> has_key (srv_connector_tokens s) token then
        (let reverse_token = the (dict_get (srv_connector_tokens s) token);
             s = add_client token cid w s
         in (Inr (Some \<lparr>hd_ws = w, hd_client = cid, hd_token = token, hd_key = token,
               hd_role = ConnectorRole reverse_token\<rparr>),
             s\<lparr>srv_clients := dict_set cid w (srv_clients s)\<rparr>))
      else (Inr None, s))"

definition refuse_client :: "(bytes \<Rightarrow> bytes) \<Rightarrow> (ws \<Rightarrow> bool) \<Rightarrow> ws \<Rightarrow> (server, unit) io" where
  "refuse_client gz up w =
     io_bind (srv_send gz up w (AuthResponseMessage False (Some (lit ''Invalid token'')))) (\<lambda>_.
       io_modify (srv_emit (CloseWs w 1008 (lit ''Invalid token''))))"

text \<open>What an admitted client is told.\<close>

definition confirm_client :: "(bytes \<Rightarrow> bytes) \<Rightarrow> (ws \<Rightarrow> bool) \<Rightarrow> handler \<Rightarrow> (server, unit) io" where
  "confirm_client gz up h =
     (let w = hd_ws h; accepted = srv_send gz up w (AuthResponseMessage True None) in
      case hd_role h of
        ReverseRole \<Rightarrow>
          io_bind (io_modify (\<lambda>s. s\<lparr>srv_clients := dict_set (hd_client h) w (srv_clients s)\<rparr>)) (\<lambda>_.
          io_bind accepted (\<lambda>_. io_modify (broadcast_partners_to_connectors gz up)))
      | ForwardRole \<Rightarrow> accepted
      | ConnectorRole reverse_token \<Rightarrow>
          io_bind accepted (\<lambda>_.
          io_bind (io_modify (broadcast_partners_to_reverse_clients gz up reverse_token)) (\<lambda>_.
            (\<lambda>s. srv_send gz up w (partners (count_clients (map fst (srv_tokens s)) s)) s))))"

section \<open>Clean-up\<close>

definition forget_client :: "client_id \<Rightarrow> pystr \<Rightarrow> server \<Rightarrow> server" where
  "forget_client cid token s =
     (let s = (case dict_get (srv_token_clients s) token of
            None \<Rightarrow> s
          | Some cs \<Rightarrow>
              (let cs = filter (\<lambda>c. fst c \<noteq> cid) cs in
               if cs = []
               then s\<lparr>srv_token_clients := dict_del token (srv_token_clients s),
                      srv_token_indexes := dict_del token (srv_token_indexes s)\<rparr>
               else s\<lparr>srv_token_clients := dict_set token cs (srv_token_clients s)\<rparr>))
      in s\<lparr>srv_clients := dict_del cid (srv_clients s)\<rparr>)"

definition cleanup_connection ::
    "(bytes \<Rightarrow> bytes) \<Rightarrow> (ws \<Rightarrow> bool) \<Rightarrow> client_id option \<Rightarrow> pystr option \<Rightarrow> server \<Rightarrow> server" where
  "cleanup_connection gz up cid token s =
     (if cid = None \<or> \<not> truthy token then s
      else
        (let is_reverse_token = has_key (srv_tokens s) (the token);
             reverse_token_for_connector = dict_get (srv_connector_tokens s) (the token);
             s = forget_client (the cid) (the token) s
         in if is_reverse_token then broadcast_partners_to_connectors gz up s
            else if truthy reverse_token_for_connector
            then broadcast_partners_to_reverse_clients gz up (the reverse_token_for_connector) s
            else s))"

section \<open>The whole handler\<close>

text \<open>
  \<open>meanwhile\<close> is what other tasks do while the handler waits for the SOCKS server, \<open>serve\<close> what
  happens, here and elsewhere, until the connection ends.
\<close>

definition run_session ::
    "(bytes \<Rightarrow> bytes) \<Rightarrow> (ws \<Rightarrow> bool) \<Rightarrow> (server \<Rightarrow> server) \<Rightarrow> (handler \<Rightarrow> server \<Rightarrow> server) \<Rightarrow> handler \<Rightarrow>
     server \<Rightarrow> server" where
  "run_session gz up meanwhile serve h s =
     (case confirm_client gz up h (meanwhile s) of
        (Inl e, s) \<Rightarrow> cleanup_connection gz up (Some (hd_client h)) (Some (hd_key h)) s
      | (Inr _, s) \<Rightarrow> cleanup_connection gz up (Some (hd_client h)) (Some (hd_key h)) (serve h s))"

definition handle_websocket ::
    "(bytes \<Rightarrow> bytes) \<Rightarrow> (ws \<Rightarrow> bool) \<Rightarrow> (server \<Rightarrow> server) \<Rightarrow> (handler \<Rightarrow> server \<Rightarrow> server) \<Rightarrow>
     client_id \<Rightarrow> ws \<Rightarrow> verdict res \<Rightarrow> server \<Rightarrow> server" where
  "handle_websocket gz up meanwhile serve cid w auth s =
     (case auth of
        Inl e \<Rightarrow> s
      | Inr (Reject reason) \<Rightarrow> srv_emit (CloseWs w 1008 reason) s
      | Inr (Accept token reverse inst) \<Rightarrow>
          (case admit cid w token reverse inst s of
             (Inl e, s) \<Rightarrow> cleanup_connection gz up (Some cid) (Some token) s
           | (Inr None, s) \<Rightarrow> snd (refuse_client gz up w s)
           | (Inr (Some h), s) \<Rightarrow> run_session gz up meanwhile serve h s))"

section \<open>What sending changes\<close>

text \<open>Sends, broadcasts and closes only append to the actions.\<close>

definition only_actions :: "server \<Rightarrow> server \<Rightarrow> bool" where
  "only_actions s s' \<longleftrightarrow> (\<exists>xs. s' = s\<lparr>srv_actions := srv_actions s @ xs\<rparr>)"

lemma only_actions_refl [simp]: "only_actions s s"
  unfolding only_actions_def by (rule exI [of _ "[]"]) simp

lemma only_actions_trans [trans]: "only_actions s s' \<Longrightarrow> only_actions s' s'' \<Longrightarrow> only_actions s s''"
  unfolding only_actions_def by fastforce

lemma only_actions_emit [simp]: "only_actions s (srv_emit a s)"
  by (auto simp: only_actions_def srv_emit_def)

lemma only_actions_send [simp]: "only_actions s (snd (srv_send gz up w msg s))"
  by (auto simp: srv_send_def split: sum.split)

lemma only_actions_broadcast [simp]: "only_actions s (broadcast gz up msg ws s)"
proof (induction ws arbitrary: s)
  case (Cons w ws)
  have "only_actions s (snd (srv_send gz up w msg s))" by simp
  also have "only_actions \<dots> (broadcast gz up msg ws (snd (srv_send gz up w msg s)))" by (rule Cons)
  finally show ?case by simp
qed simp

lemma only_actions_partners [simp]:
  "only_actions s (broadcast_partners_to_connectors gz up s)"
  "only_actions s (broadcast_partners_to_reverse_clients gz up t s)"
  by (simp_all add: broadcast_partners_to_connectors_def broadcast_partners_to_reverse_clients_def Let_def)

lemma only_actions_refuse [simp]: "only_actions s (snd (refuse_client gz up w s))"
proof -
  obtain r s1 where r: "srv_send gz up w (AuthResponseMessage False (Some (lit ''Invalid token''))) s = (r, s1)"
    by fastforce
  then have "only_actions s s1" by (metis only_actions_send snd_conv)
  then have "only_actions s (srv_emit a s1)" for a by (rule only_actions_trans) simp
  with r \<open>only_actions s s1\<close> show ?thesis
    by (cases r) (simp_all add: refuse_client_def io_bind_def del: lit_Cons)
qed

lemma only_actionsD:
  assumes "only_actions s s'"
  shows "srv_tokens s' = srv_tokens s" "srv_token_locks s' = srv_token_locks s"
    "srv_token_options s' = srv_token_options s" "srv_token_indexes s' = srv_token_indexes s"
    "srv_port_pool s' = srv_port_pool s" "srv_connector_tokens s' = srv_connector_tokens s"
    "srv_internal_tokens s' = srv_internal_tokens s" "srv_socks_tasks s' = srv_socks_tasks s"
    "srv_forward_tokens s' = srv_forward_tokens s" "srv_forward_clients s' = srv_forward_clients s"
    "srv_token_clients s' = srv_token_clients s" "srv_clients s' = srv_clients s"
    "srv_conn_cache s' = srv_conn_cache s" "message_queues s' = message_queues s"
    "clients_of s' = clients_of s"
    "\<exists>xs. srv_actions s' = srv_actions s @ xs"
  using assms by (auto simp: only_actions_def clients_of_def fun_eq_iff)

lemma srv_inv_only: "srv_inv s \<Longrightarrow> only_actions s s' \<Longrightarrow> srv_inv s'"
  by (rule srv_inv_cong [of s]) (auto dest: only_actionsD simp: srv_inv_def)

section \<open>Fewer clients\<close>

definition fewer_clients :: "server \<Rightarrow> server \<Rightarrow> bool" where
  "fewer_clients s s' \<longleftrightarrow>
     (\<forall>t c. c \<in> set (clients_of s' t) \<longrightarrow> c \<in> set (clients_of s t)) \<and>
     (\<forall>cid w. dict_get (srv_clients s') cid = Some w \<longrightarrow> dict_get (srv_clients s) cid = Some w)"

lemma fewer_refl [simp]: "fewer_clients s s"
  by (simp add: fewer_clients_def)

lemma fewer_trans [trans]: "fewer_clients s s' \<Longrightarrow> fewer_clients s' s'' \<Longrightarrow> fewer_clients s s''"
  by (auto simp: fewer_clients_def)

lemma fewer_same:
  "srv_token_clients s' = srv_token_clients s \<Longrightarrow> srv_clients s' = srv_clients s \<Longrightarrow> fewer_clients s s'"
  by (simp add: fewer_clients_def clients_of_def)

lemma fewer_upd:
  "fewer_clients s s1 \<Longrightarrow> srv_token_clients s2 = srv_token_clients s1 \<Longrightarrow> srv_clients s2 = srv_clients s1 \<Longrightarrow>
     fewer_clients s s2"
  by (simp add: fewer_clients_def clients_of_def)

lemma fewer_only: "only_actions s s' \<Longrightarrow> fewer_clients s s'"
  by (rule fewer_same) (auto dest: only_actionsD)

lemma fold_del_get:
  "dict_get (fold (\<lambda>c. dict_del (fst c)) cs d) k = (if k \<in> fst ` set cs then None else dict_get d k)"
  by (induction cs arbitrary: d) (auto simp: dict_simps)

lemma fewer_close: "fewer_clients s (close_token_clients t s)"
  by (auto simp: fewer_clients_def clients_of_def close_token_clients_eq fold_del_get dict_simps
      split: option.splits if_splits)

lemma fewer_emit_if: "fewer_clients s (emit_if_loop a s)"
  by (rule fewer_same) (simp_all add: emit_if_loop_def)

lemma fewer_close_emit: "fewer_clients s (close_token_clients t (emit_if_loop a s))"
  by (rule fewer_trans [OF fewer_emit_if fewer_close])

lemma fewer_drop_connector: "fewer_clients s (drop_connector_token t s)"
  by (rule fewer_upd [OF fewer_close_emit [of s t "CacheCleanup t"]])
    (simp_all add: drop_connector_token_def Let_def)

lemma fewer_drop_connectors: "fewer_clients s (drop_connectors t cts s)"
proof (induction cts arbitrary: s)
  case (Cons c cts)
  then show ?case
    using fewer_trans [OF fewer_drop_connector] by (auto simp: drop_connectors_def)
qed (simp add: drop_connectors_def)

lemma fewer_drop_internal: "fewer_clients s (drop_internal_token t s)"
  by (rule fewer_upd [OF fewer_close [of s t]]) (simp_all add: drop_internal_token_def Let_def)

lemma fewer_drop_internals: "fewer_clients s (drop_internal_tokens t s)"
proof -
  have f: "fewer_clients s (fold drop_internal_token ts s)" for ts s
    by (induction ts arbitrary: s) (auto intro: fewer_trans [OF fewer_drop_internal])
  show ?thesis
  proof (cases "dict_get (srv_internal_tokens s) t")
    case (Some its)
    then show ?thesis
      by (intro fewer_upd [OF f [of s its]]) (simp_all add: drop_internal_tokens_def Let_def)
  qed (simp add: drop_internal_tokens_def)
qed

lemma fewer_drop_reverse: "fewer_clients s (snd (drop_reverse_token t s))"
  by (rule fewer_upd [OF fewer_close_emit [of s t "CacheCleanup t"]])
    (simp_all add: drop_reverse_token_def Let_def split: option.split)

lemma fewer_drop_forward: "fewer_clients s (drop_forward_token t s)"
proof (rule fewer_same)
  have f: "srv_token_clients (fold (\<lambda>(cid, w). emit_if_loop (CloseWs w 1000 token_removed)) cs s) = srv_token_clients s \<and>
      srv_clients (fold (\<lambda>(cid, w). emit_if_loop (CloseWs w 1000 token_removed)) cs s) = srv_clients s" for cs s
    by (induction cs arbitrary: s) auto
  show "srv_token_clients (drop_forward_token t s) = srv_token_clients s"
    "srv_clients (drop_forward_token t s) = srv_clients s"
    by (simp_all add: drop_forward_token_def Let_def f)
qed

lemma fewer_remove:
  assumes "srv_inv s" shows "fewer_clients s (snd (remove_token t s))"
proof -
  have "dict_ok (srv_connector_tokens s)" using assms by (simp add: srv_inv_def)
  then show ?thesis
    by (auto simp: remove_token_eq Let_def fewer_drop_connector fewer_drop_forward
        intro: fewer_trans [OF fewer_drop_internals fewer_trans [OF fewer_drop_connectors fewer_drop_reverse]])
qed

lemma fewer_add:
  "fewer_clients s (snd (add_connector_token draws ct rt s))"
  "fewer_clients s (snd (add_forward_token draws t s))"
  "fewer_clients s (snd (remove_connector_token t' s))"
  by (auto simp: add_connector_token_def add_forward_token_def remove_connector_token_def Let_def
      fewer_drop_connector intro: fewer_same)

lemma fewer_add_reverse: "fewer_clients s (snd (add_reverse_token draws draw t p u pw allow s))"
  by (rule fewer_same)
    (auto simp: add_reverse_token_def register_reverse_token_def emit_if_loop_def Let_def
      split: option.splits prod.splits)

lemma fewer_next: "fewer_clients s (snd (get_next_websocket t s))"
  by (rule fewer_same) (auto simp: get_next_websocket_def Let_def split: option.splits list.splits)

lemma fewer_pending: "fewer_clients s (snd (handle_pending_token t s))"
  by (rule fewer_same) (auto simp: handle_pending_token_def split: option.splits)

lemma srv_inv_next: "srv_inv s \<Longrightarrow> srv_inv (snd (get_next_websocket t s))"
  by (rule srv_inv_cong [of s])
    (auto simp: get_next_websocket_def Let_def srv_inv_def split: option.splits list.splits)

lemma srv_inv_pending: "srv_inv s \<Longrightarrow> srv_inv (snd (handle_pending_token t s))"
  by (rule srv_inv_cong [of s]) (auto simp: handle_pending_token_def srv_inv_def split: option.splits)

section \<open>What admission and clean-up do\<close>

lemma clients_of_set [simp]:
  "clients_of (s\<lparr>srv_clients := x\<rparr>) = clients_of s" "clients_of (srv_emit a s) = clients_of s"
  "clients_of (s\<lparr>srv_forward_clients := y\<rparr>) = clients_of s"
  by (simp_all add: clients_of_def srv_emit_def fun_eq_iff)

lemma clients_of_add [simp]:
  "clients_of (add_client token cid w s) t =
     (if t = token then clients_of s token @ [(cid, w)] else clients_of s t)"
  by (auto simp: add_client_def clients_of_def dict_simps)

lemma clients_of_ensure [simp]: "clients_of (ensure_socks_server token p s) = clients_of s"
  by (simp add: ensure_socks_server_def clients_of_def fun_eq_iff srv_emit_def)

lemma clients_of_internal [simp]:
  "clients_of (register_internal token opts inst cid w s) t =
     (if t = uuid_str inst then clients_of s t @ [(cid, w)] else clients_of s t)"
  by (auto simp: register_internal_def Let_def add_client_def clients_of_def dict_simps)

lemma srv_clients_admission [simp]:
  "srv_clients (add_client token cid w s) = srv_clients s"
  "srv_clients (ensure_socks_server token p s) = srv_clients s"
  "srv_clients (register_internal token opts inst cid w s) = srv_clients s"
  by (simp_all add: add_client_def ensure_socks_server_def register_internal_def srv_emit_def Let_def)

text \<open>The cases of a successful admission.\<close>

lemma admit_cases:
  assumes "admit cid w token reverse inst s = (Inr (Some h), s')"
  obtains (reverse) "reverse" "has_key (srv_tokens s) token" "hd_role h = ReverseRole"
      "hd_ws h = w" "hd_client h = cid" "hd_token h = token"
      "\<And>t. clients_of s' t = (if t = hd_key h then clients_of s t @ [(cid, w)] else clients_of s t)"
      "srv_clients s' = srv_clients s"
  | (forward) "\<not> reverse" "token \<in> srv_forward_tokens s" "hd_role h = ForwardRole"
      "hd_ws h = w" "hd_client h = cid" "hd_token h = token" "hd_key h = token"
      "s' = s\<lparr>srv_forward_clients := dict_set cid w (srv_forward_clients s)\<rparr>"
  | (connector) rt where "\<not> reverse" "dict_get (srv_connector_tokens s) token = Some rt"
      "token \<notin> srv_forward_tokens s" "hd_role h = ConnectorRole rt"
      "hd_ws h = w" "hd_client h = cid" "hd_token h = token" "hd_key h = token"
      "s' = (add_client token cid w s)\<lparr>srv_clients := dict_set cid w (srv_clients s)\<rparr>"
proof -
  consider (r) "reverse \<and> has_key (srv_tokens s) token"
    | (f) "\<not> reverse" "token \<in> srv_forward_tokens s"
    | (c) "\<not> reverse" "token \<notin> srv_forward_tokens s" "has_key (srv_connector_tokens s) token"
    using assms by (auto simp: admit_def split: if_splits)
  then show thesis
  proof cases
    case r
    with assms have "admit_reverse cid w token inst (the (dict_get (srv_tokens s) token)) s = (h, s')"
      by (auto simp: admit_def split: if_splits prod.splits)
    then have "hd_role h = ReverseRole \<and> hd_ws h = w \<and> hd_client h = cid \<and> hd_token h = token \<and>
        srv_clients s' = srv_clients s \<and>
        (\<forall>t. clients_of s' t = (if t = hd_key h then clients_of s t @ [(cid, w)] else clients_of s t))"
      by (auto simp: admit_reverse_def Let_def split: option.splits if_splits)
    with r show thesis by (intro reverse) auto
  next
    case f
    with assms show thesis by (intro forward) (auto simp: admit_def)
  next
    case c
    with assms show thesis
      by (intro connector [of "the (dict_get (srv_connector_tokens s) token)"])
        (auto simp: admit_def Let_def has_key_def)
  qed
qed

lemma srv_inv_ensure: "srv_inv s \<Longrightarrow> srv_inv (ensure_socks_server token p s)"
  by (rule srv_inv_cong [of s]) (auto simp: ensure_socks_server_def srv_emit_def srv_inv_def)

lemma srv_inv_add_client: "srv_inv s \<Longrightarrow> srv_inv (add_client token cid w s)"
  by (rule srv_inv_cong [of s]) (auto simp: add_client_def srv_inv_def)

lemma srv_inv_internal:
  assumes "srv_inv s" shows "srv_inv (register_internal token opts inst cid w s)"
proof -
  let ?s = "register_internal token opts inst cid w s"
  have fields: "srv_tokens ?s = dict_set (uuid_str inst) (- 1) (srv_tokens s)"
    "srv_port_pool ?s = srv_port_pool s" "srv_connector_tokens ?s = srv_connector_tokens s"
    "srv_token_locks ?s = insert (uuid_str inst) (srv_token_locks s)"
    "srv_token_options ?s = dict_set (uuid_str inst) opts (srv_token_options s)"
    by (simp_all add: register_internal_def add_client_def Let_def)
  have ok: "ports_ok s" using assms by (simp add: srv_inv_def)
  have "ports_ok ?s"
    by (rule ports_okI) (use fields ports_okD [OF ok] in \<open>auto simp: dict_simps split: if_splits\<close>)
  with assms fields show ?thesis
    by (auto simp: srv_inv_def tokens_equipped_def dict_simps)
qed

lemma srv_inv_admit:
  assumes "srv_inv s" shows "srv_inv (snd (admit cid w token reverse inst s))"
proof -
  have "srv_inv (snd (admit_reverse cid w token inst p s))" for p
    using assms by (auto simp: admit_reverse_def Let_def srv_inv_ensure srv_inv_add_client srv_inv_internal
        split: option.split)
  moreover have "srv_inv (s\<lparr>srv_forward_clients := x\<rparr>)" for x
    by (rule srv_inv_cong [OF assms]) (use assms in \<open>auto simp: srv_inv_def\<close>)
  moreover have "srv_inv ((add_client token cid w s)\<lparr>srv_clients := x\<rparr>)" for x
    by (rule srv_inv_cong [OF srv_inv_add_client [OF assms]]) (use assms in \<open>auto simp: srv_inv_def add_client_def\<close>)
  ultimately show ?thesis using assms by (auto simp: admit_def Let_def split_def)
qed

text \<open>With the invariant, admission never fails: every reverse token has its lock.\<close>

lemma admit_total: "srv_inv s \<Longrightarrow> fst (admit cid w token reverse inst s) \<noteq> Inl e"
  by (auto simp: admit_def Let_def srv_inv_def tokens_equipped_def has_key_def split: prod.split)

lemma srv_inv_forget: "srv_inv s \<Longrightarrow> srv_inv (forget_client cid t s)"
  by (rule srv_inv_cong [of s]) (auto simp: forget_client_def Let_def srv_inv_def split: option.split)

lemma forget_clients_of:
  "clients_of (forget_client cid t s) t' =
     (if t' = t then filter (\<lambda>c. fst c \<noteq> cid) (clients_of s t) else clients_of s t')"
  by (auto simp: forget_client_def clients_of_def Let_def dict_simps split: option.splits)

lemma forget_clients: "srv_clients (forget_client cid t s) = dict_del cid (srv_clients s)"
  by (simp add: forget_client_def Let_def split: option.split)

lemma cleanup_only:
  "t \<noteq> [] \<Longrightarrow> only_actions (forget_client cid t s) (cleanup_connection gz up (Some cid) (Some t) s)"
  by (simp add: cleanup_connection_def Let_def)

lemma srv_inv_cleanup: "srv_inv s \<Longrightarrow> srv_inv (cleanup_connection gz up (Some cid) (Some t) s)"
  using srv_inv_only [OF srv_inv_forget cleanup_only]
  by (cases "t = []") (auto simp: cleanup_connection_def)

lemma cleanup_clients_of:
  "clients_of (cleanup_connection gz up (Some cid) (Some t) s) t' =
     (if t' = t \<and> t \<noteq> [] then filter (\<lambda>c. fst c \<noteq> cid) (clients_of s t) else clients_of s t')"
proof (cases "t = []")
  case False
  from only_actionsD(15) [OF cleanup_only [OF this]] False show ?thesis by (simp add: forget_clients_of)
qed (simp add: cleanup_connection_def)

lemma cleanup_clients:
  "srv_clients (cleanup_connection gz up (Some cid) (Some t) s) =
     (if t = [] then srv_clients s else dict_del cid (srv_clients s))"
proof (cases "t = []")
  case False
  from only_actionsD(12) [OF cleanup_only [OF this]] False show ?thesis by (simp add: forget_clients)
qed (simp add: cleanup_connection_def)

text \<open>What is told to an admitted client changes the tables only by \<open>srv_clients\<close>.\<close>

lemma confirm_effect:
  assumes "confirm_client gz up h s = (r, s')"
  shows "only_actions (if hd_role h = ReverseRole
     then s\<lparr>srv_clients := dict_set (hd_client h) (hd_ws h) (srv_clients s)\<rparr> else s) s'"
proof -
  let ?t = "if hd_role h = ReverseRole
     then s\<lparr>srv_clients := dict_set (hd_client h) (hd_ws h) (srv_clients s)\<rparr> else s"
  obtain r1 s1 where s1: "srv_send gz up (hd_ws h) (AuthResponseMessage True None) ?t = (r1, s1)" by fastforce
  then have o: "only_actions ?t s1" by (metis only_actions_send snd_conv)
  show ?thesis
  proof (cases "hd_role h")
    case ReverseRole
    have "only_actions ?t (broadcast_partners_to_connectors gz up s1)"
      by (rule only_actions_trans [OF o]) simp
    with assms s1 o ReverseRole show ?thesis
      by (cases r1) (auto simp: confirm_client_def io_bind_def Let_def)
  next
    case ForwardRole
    with assms s1 o show ?thesis by (simp add: confirm_client_def)
  next
    case (ConnectorRole rt)
    let ?b = "broadcast_partners_to_reverse_clients gz up rt s1"
    have "only_actions s (snd (srv_send gz up w msg ?b))" for w msg
      using only_actions_trans [OF only_actions_trans [OF o] only_actions_send] ConnectorRole by simp
    with assms s1 o ConnectorRole show ?thesis
      by (cases r1) (auto simp: confirm_client_def io_bind_def Let_def, (metis snd_conv)+)
  qed
qed

lemma srv_inv_confirm:
  assumes "srv_inv s" "confirm_client gz up h s = (r, s')" shows "srv_inv s'"
proof -
  have "srv_inv (s\<lparr>srv_clients := x\<rparr>)" for x
    by (rule srv_inv_cong [OF assms(1)]) (use assms(1) in \<open>auto simp: srv_inv_def\<close>)
  with srv_inv_only [OF _ confirm_effect [OF assms(2)]] assms(1) show ?thesis by (auto split: if_splits)
qed

section \<open>Authentication by query and by message\<close>

text \<open>
  What the query of a client can be told apart by: every token can be encoded, and neither another
  token nor the digest of another token is the token \<open>t\<close> or its digest \<open>d\<close>.
\<close>

definition unambiguous_token :: "(bytes \<Rightarrow> pystr) \<Rightarrow> pystr list \<Rightarrow> pystr \<Rightarrow> pystr \<Rightarrow> bool" where
  "unambiguous_token sha order t d \<longleftrightarrow>
     t \<in> set order \<and> t \<noteq> [] \<and> (\<exists>b. utf8_encode t = Inr b \<and> sha b = d) \<and>
     (\<forall>u\<in>set order. u \<noteq> t \<longrightarrow> u \<noteq> d \<and> (\<exists>b. utf8_encode u = Inr b \<and> sha b \<noteq> d \<and> sha b \<noteq> t))"

lemma resolve_unambiguous:
  assumes "unambiguous_token sha order t d" "raw = t \<or> raw = d"
  shows "resolve_token sha raw order = Inr (Some t)"
proof -
  from assms(1) obtain tb where tb: "utf8_encode t = Inr tb" "sha tb = d"
    by (auto simp: unambiguous_token_def)
  have o: "\<forall>u\<in>set order. u \<noteq> t \<longrightarrow> u \<noteq> d \<and> (\<exists>b. utf8_encode u = Inr b \<and> sha b \<noteq> d \<and> sha b \<noteq> t)"
    and m: "t \<in> set order"
    using assms(1) by (auto simp: unambiguous_token_def)
  show ?thesis using o m
  proof (induction order)
    case (Cons u us)
    show ?case
    proof (cases "u = t")
      case True
      with tb assms(2) show ?thesis by auto
    next
      case False
      with Cons.prems(1) obtain b where "u \<noteq> d" "utf8_encode u = Inr b" "sha b \<noteq> d" "sha b \<noteq> t" by auto
      with False assms(2) have "resolve_token sha raw (u # us) = resolve_token sha raw us" by auto
      with Cons False show ?thesis by simp
    qed
  qed simp
qed

lemma query_auth_known:
  assumes "unambiguous_token sha order t d" "raw = t \<or> raw = d"
    and "dict_get qs (lit ''reverse'') = Some [if reverse then lit ''true'' else lit ''false'']"
    and "dict_get qs (lit ''instance'') = Some [uuid_str inst]"
  shows "query_auth sha order drawn qs raw = Inr (Accept t reverse inst)"
proof -
  have "t \<noteq> []" using assms(1) by (simp add: unambiguous_token_def)
  with resolve_unambiguous [OF assms(1,2)] assms(3,4) show ?thesis
    by (simp add: query_auth_def lower_def)
qed

text \<open>
  C19. The two ways to authenticate agree: a query that names a token in the clear or by its SHA-256
  digest, with the flag and the instance, gives the same verdict as the \<open>AuthMessage\<close> with the token,
  the flag and the instance, in whatever order the server's tokens are tried. (The token is ASCII and
  no token or digest collides with it.)
\<close>

theorem query_auth_equals_message_auth:
  assumes "unambiguous_token sha order t d" "raw = t \<or> raw = d" "ascii t"
    and "pack_message gz (AuthMessage t reverse inst) = Inr bs"
    and "dict_get qs (lit ''reverse'') = Some [if reverse then lit ''true'' else lit ''false'']"
    and "dict_get qs (lit ''instance'') = Some [uuid_str inst]"
  shows "query_auth sha order drawn qs raw = message_auth gunzip (Binary bs)"
proof -
  have "parse_message gunzip bs = Inr (AuthMessage t reverse inst)"
    using auth_roundtrip_ascii [of t reverse inst bs gunzip] assms(3,4) by simp
  with query_auth_known [OF assms(1,2,5,6)] show ?thesis by (simp add: message_auth_def)
qed

definition sample_digest :: "bytes \<Rightarrow> pystr" where
  "sample_digest b = replicate 64 (if b = [byte_of 97] then 98 else 99)"

lemma sample_unambiguous:
  "unambiguous_token sample_digest [lit ''b'', lit ''a''] (lit ''a'') (replicate 64 98)"
proof -
  have e: "utf8_encode [97] = Inr [byte_of 97]" "utf8_encode [98] = Inr [byte_of 98]"
    using utf8_encode_ascii [of "[97]"] utf8_encode_ascii [of "[98]"] by simp_all
  have "replicate 64 x \<noteq> [y]" for x y :: nat
    by (auto dest: arg_cong [of _ _ length])
  then show ?thesis
    using e by (auto simp: unambiguous_token_def sample_digest_def byte_of_eq_iff replicate_eq_replicate dest: sym)
qed

lemma query_auth_equals_message_auth_witness:
  "\<exists>bs. pack_message id (AuthMessage (lit ''a'') True 7) = Inr bs \<and>
     query_auth sample_digest [lit ''b'', lit ''a''] 0
       [(lit ''reverse'', [lit ''true'']), (lit ''instance'', [uuid_str 7])] (replicate 64 98) =
     message_auth Inr (Binary bs)"
proof -
  obtain bs where bs: "pack_message id (AuthMessage (lit ''a'') True 7) = Inr bs"
    using pack_message_ok_iff [of "AuthMessage (lit ''a'') True 7" id]
    by (auto simp: text_fits_def valid_char_def is_surrogate_def)
  from query_auth_equals_message_auth [OF sample_unambiguous, of "replicate 64 98" id True 7 bs
      "[(lit ''reverse'', [lit ''true'']), (lit ''instance'', [uuid_str 7])]" 0 Inr] bs
  show ?thesis by auto
qed

section \<open>Who is admitted\<close>

definition admissible :: "server \<Rightarrow> pystr \<Rightarrow> bool \<Rightarrow> bool" where
  "admissible s t reverse \<longleftrightarrow>
     (if reverse then has_key (srv_tokens s) t
      else t \<in> srv_forward_tokens s \<or> has_key (srv_connector_tokens s) t)"

lemma admit_iff: "srv_inv s \<Longrightarrow> fst (admit cid w t reverse inst s) = Inr None \<longleftrightarrow> \<not> admissible s t reverse"
  by (auto simp: admit_def admissible_def Let_def srv_inv_def tokens_equipped_def has_key_def split: prod.split)

lemma admit_none: "admit cid w t reverse inst s = (Inr None, s') \<Longrightarrow> s' = s"
  by (auto simp: admit_def Let_def split: if_splits prod.splits)



end
