(* ===== verification/Dispatch.thy ===== *)
theory Dispatch
  imports Sessions
begin

text \<open>
  What the server does with the messages of an admitted client (\<open>_connector_message_dispatcher\<close>,
  \<open>_message_dispatcher\<close> and \<open>_disconnect_channel\<close> of class \<open>WSSocksServer\<close> in \<^verbatim>\<open>pywssocks/server.py\<close>). One round of a
  dispatcher loop takes what \<^verbatim>\<open>recv\<close> delivers within 60 seconds, and says whether the loop goes on.

  A round has no point of suspension that matters to another task but its sends, which are modelled
  as either accepted or failing at once.
\<close>

section \<open>One round of the loop\<close>

datatype incoming = Received frame | Silence

text \<open>The frame around the two dispatchers: which outcomes let the loop go on.\<close>

definition loop_round ::
    "(bytes \<Rightarrow> bytes res) \<Rightarrow> (ws \<Rightarrow> bool) \<Rightarrow> ws \<Rightarrow> (message \<Rightarrow> (server, unit) io) \<Rightarrow> incoming \<Rightarrow> server \<Rightarrow>
     bool \<times> server" where
  "loop_round gunzip up w dispatch inc s =
     (case inc of
        Silence \<Rightarrow> (up w, s)
      | Received EndOfStream \<Rightarrow> (False, s)
      | Received TextFrame \<Rightarrow> (True, s)
      | Received (Binary bs) \<Rightarrow>
          (case parse_message gunzip bs of
             Inl e \<Rightarrow> (True, s)
           | Inr msg \<Rightarrow>
               (case dispatch msg s of
                  (Inl e, s) \<Rightarrow> (False, s)
                | (Inr _, s) \<Rightarrow> (True, s))))"

section \<open>Messages of a connector\<close>

definition on_cache :: "(connector_cache \<Rightarrow> connector_cache) \<Rightarrow> server \<Rightarrow> server" where
  "on_cache f s = s\<lparr>srv_conn_cache := f (srv_conn_cache s)\<rparr>"

definition no_clients :: pystr where
  "no_clients = lit ''no available reverse clients''"

fun connector_dispatch ::
    "(bytes \<Rightarrow> bytes) \<Rightarrow> (ws \<Rightarrow> bool) \<Rightarrow> ws \<Rightarrow> pystr \<Rightarrow> message \<Rightarrow> (server, unit) io" where
  "connector_dispatch gz up w reverse_token (ConnectMessage protocol channel_id address port) s =
     (case get_next_websocket reverse_token s of
        (Inl e, s) \<Rightarrow> (Inl e, s)
      | (Inr None, s) \<Rightarrow> srv_send gz up w (ConnectResponseMessage False channel_id (Some no_clients)) s
      | (Inr (Some reverse_ws), s) \<Rightarrow>
          srv_send gz up reverse_ws (ConnectMessage protocol channel_id address port)
            (on_cache (cc_add_channel channel_id w reverse_ws reverse_token) s))"
| "connector_dispatch gz up w reverse_token (DataMessage protocol channel_id data compression a p ta tp) s =
     (case cc_get_client channel_id (srv_conn_cache s) of
        Some target_ws \<Rightarrow>
          srv_send gz up target_ws (DataMessage protocol channel_id data compression a p ta tp) s
      | None \<Rightarrow> (Inr (), s))"
| "connector_dispatch gz up w reverse_token (DisconnectMessage channel_id error) s =
     (case (case cc_get_client channel_id (srv_conn_cache s) of
              Some target_ws \<Rightarrow> srv_send gz up target_ws (DisconnectMessage channel_id error) s
            | None \<Rightarrow> (Inr (), s)) of
        (Inl e, s) \<Rightarrow> (Inl e, s)
      | (Inr _, s) \<Rightarrow> (Inr (), on_cache (cc_remove_channel channel_id) s))"
| "connector_dispatch gz up w reverse_token _ s = (Inr (), s)"

section \<open>Connector management\<close>

fun find_client_token ::
    "client_id \<Rightarrow> (pystr \<times> (client_id \<times> ws) list) list \<Rightarrow> pystr option \<Rightarrow> pystr option" where
  "find_client_token cid [] client_token = client_token"
| "find_client_token cid ((token, clients) # r) client_token =
     (let client_token = (if cid \<in> fst ` set clients then Some token else client_token) in
      if truthy client_token then client_token else find_client_token cid r client_token)"

definition client_token :: "client_id \<Rightarrow> server \<Rightarrow> pystr option" where
  "client_token cid s = find_client_token cid (srv_token_clients s) None"

definition has_permission :: "client_id \<Rightarrow> server \<Rightarrow> bool" where
  "has_permission cid s =
     (truthy (client_token cid s) \<and>
      (case dict_get (srv_token_options s) (the (client_token cid s)) of
         None \<Rightarrow> False | Some opts \<Rightarrow> opt_allow_manage_connector opts))"

definition manage_connector ::
    "(nat \<Rightarrow> nat) \<Rightarrow> client_id \<Rightarrow> uuid \<Rightarrow> pystr \<Rightarrow> pystr \<Rightarrow> server \<Rightarrow> message res \<times> server" where
  "manage_connector draws cid channel_id connector_token operation s =
     (let failed = (\<lambda>error. Inr (ConnectorResponseMessage False channel_id (Some error) None)) in
      if \<not> has_permission cid s then (failed (lit ''Unauthorized connector management attempt''), s)
      else if operation = lit ''add'' then
        (case add_connector_token draws (Some connector_token) (client_token cid s) s of
           (new_token, s) \<Rightarrow>
             if truthy new_token then (Inr (ConnectorResponseMessage True channel_id None new_token), s)
             else (failed (lit ''Failed to add connector token''), s))
      else if operation = lit ''remove'' then
        (case remove_token connector_token s of
           (Inl e, s) \<Rightarrow> (Inl e, s)
         | (Inr removed, s) \<Rightarrow>
             if removed then (Inr (ConnectorResponseMessage True channel_id None None), s)
             else (failed (lit ''Failed to remove connector token''), s))
      else (failed (lit ''Unknown connector operation: '' @ operation), s))"

section \<open>Messages of a reverse or forward client\<close>

definition to_connector :: "(bytes \<Rightarrow> bytes) \<Rightarrow> (ws \<Rightarrow> bool) \<Rightarrow> uuid \<Rightarrow> message \<Rightarrow> (server, unit) io" where
  "to_connector gz up channel_id msg s =
     (case cc_get_connector channel_id (srv_conn_cache s) of
        Some target_ws \<Rightarrow> srv_send gz up target_ws msg s
      | None \<Rightarrow> (Inr (), s))"

text \<open>The queue of the channel if it exists, otherwise the connector of the channel.\<close>

definition deliver :: "(bytes \<Rightarrow> bytes) \<Rightarrow> (ws \<Rightarrow> bool) \<Rightarrow> uuid \<Rightarrow> message \<Rightarrow> (server, unit) io" where
  "deliver gz up channel_id msg s =
     (if has_key (message_queues s) (uuid_str channel_id)
      then (Inr (), put_message (uuid_str channel_id) msg s)
      else to_connector gz up channel_id msg s)"

fun client_dispatch ::
    "(bytes \<Rightarrow> bytes) \<Rightarrow> (ws \<Rightarrow> bool) \<Rightarrow> (nat \<Rightarrow> nat) \<Rightarrow> client_id \<Rightarrow> ws \<Rightarrow> message \<Rightarrow> (server, unit) io" where
  "client_dispatch gz up draws cid w (DataMessage protocol channel_id data compression a p ta tp) s =
     deliver gz up channel_id (DataMessage protocol channel_id data compression a p ta tp) s"
| "client_dispatch gz up draws cid w (ConnectResponseMessage success channel_id error) s =
     deliver gz up channel_id (ConnectResponseMessage success channel_id error) s"
| "client_dispatch gz up draws cid w (ConnectMessage protocol channel_id address port) s =
     (Inr (),
      if has_key (srv_forward_clients s) cid
      then srv_emit (StartNetwork w (ConnectMessage protocol channel_id address port))
        (open_queue (uuid_str channel_id) s)
      else s)"
| "client_dispatch gz up draws cid w (DisconnectMessage channel_id error) s =
     (Inr (), disconnect_channel (uuid_str channel_id) default_delay s)"
| "client_dispatch gz up draws cid w (ConnectorMessage channel_id connector_token operation) s =
     (case manage_connector draws cid channel_id connector_token operation s of
        (Inl e, s) \<Rightarrow> (Inl e, s)
      | (Inr response, s) \<Rightarrow> srv_send gz up w response s)"
| "client_dispatch gz up draws cid w _ s = (Inr (), s)"

section \<open>The dispatcher of a handler\<close>

text \<open>
  Which dispatcher serves the client is decided by the connector tokens at that time, not by how the
  client was admitted. A round that ends the loop of a client cancels the connect handlers started
  for it.
\<close>

definition serve_round ::
    "(bytes \<Rightarrow> bytes) \<Rightarrow> (bytes \<Rightarrow> bytes res) \<Rightarrow> (ws \<Rightarrow> bool) \<Rightarrow> (nat \<Rightarrow> nat) \<Rightarrow> pystr option \<Rightarrow> handler \<Rightarrow>
     incoming \<Rightarrow> server \<Rightarrow> bool \<times> server" where
  "serve_round gz gunzip up draws connector_of h inc s =
     (case connector_of of
        Some reverse_token \<Rightarrow>
          loop_round gunzip up (hd_ws h) (connector_dispatch gz up (hd_ws h) reverse_token) inc s
      | None \<Rightarrow>
          (case loop_round gunzip up (hd_ws h) (client_dispatch gz up draws (hd_client h) (hd_ws h)) inc s of
             (goes_on, s) \<Rightarrow> (goes_on, if goes_on then s else srv_emit (CancelNetwork (hd_ws h)) s)))"

definition choose_dispatcher :: "handler \<Rightarrow> server \<Rightarrow> pystr option" where
  "choose_dispatcher h s = dict_get (srv_connector_tokens s) (hd_token h)"

text \<open>\<open>_disconnect_channel\<close>, which no dispatcher calls.\<close>

definition srv_disconnect_channel ::
    "(bytes \<Rightarrow> bytes) \<Rightarrow> (ws \<Rightarrow> bool) \<Rightarrow> uuid \<Rightarrow> message \<Rightarrow> (server, unit) io" where
  "srv_disconnect_channel gz up channel_id msg =
     io_bind (to_connector gz up channel_id msg) (\<lambda>_.
     io_bind (io_modify (on_cache (cc_remove_channel channel_id))) (\<lambda>_.
       io_modify (disconnect_channel (uuid_str channel_id) default_delay)))"

section \<open>SOCKS requests on a token's port\<close>

text \<open>
  \<open>_handle_socks_request\<close>: up to 10 seconds for a first client, then a client by round robin.
  \<open>looks\<close> is what the handler sees at its successive looks, a tenth of a second apart: the
  milliseconds since it began waiting and the server. The result is the connection to use and the
  credentials, or \<open>None\<close> where the request is refused with reply code 3.
\<close>

fun wait_for_client :: "pystr \<Rightarrow> (nat \<times> server) list \<Rightarrow> bool" where
  "wait_for_client token [] = False"
| "wait_for_client token ((ms, s) # looks) =
     (if 10000 \<le> ms then False
      else if clients_of s token \<noteq> [] then True
      else wait_for_client token looks)"

definition route_socks_request ::
    "pystr \<Rightarrow> (nat \<times> server) list \<Rightarrow> server \<Rightarrow> server \<Rightarrow>
     (ws \<times> pystr option \<times> pystr option) option res \<times> server" where
  "route_socks_request token looks at_start s =
     (if \<not> has_key (srv_token_clients at_start) token \<and> \<not> wait_for_client token looks
      then (Inr None, s)
      else
        (case get_next_websocket token s of
           (Inl e, s) \<Rightarrow> (Inl e, s)
         | (Inr None, s) \<Rightarrow> (if has_key (srv_tokens s) token then Inr None else Inl KeyError, s)
         | (Inr (Some w), s) \<Rightarrow>
             (case dict_get (srv_token_options s) token of
                None \<Rightarrow> (Inr (Some (w, None, None)), s)
              | Some opts \<Rightarrow> (Inr (Some (w, opt_username opts, opt_password opts)), s))))"

section \<open>What a round changes\<close>

lemma same_more:
  fixes s s' :: server
  assumes "relay.more s' = relay.more s"
  shows "srv_tokens s' = srv_tokens s" "srv_token_locks s' = srv_token_locks s"
    "srv_token_options s' = srv_token_options s" "srv_port_pool s' = srv_port_pool s"
    "srv_connector_tokens s' = srv_connector_tokens s" "srv_forward_tokens s' = srv_forward_tokens s"
    "srv_internal_tokens s' = srv_internal_tokens s"
    "srv_token_clients s' = srv_token_clients s" "srv_clients s' = srv_clients s"
    "srv_forward_clients s' = srv_forward_clients s" "srv_conn_cache s' = srv_conn_cache s"
    "srv_socks_tasks s' = srv_socks_tasks s" "srv_actions s' = srv_actions s"
  using assms by (cases s; cases s'; simp)+

text \<open>
  \<open>tables s\<close>: everything about tokens and who holds them. The steps of a dispatcher that manage no
  connector leave it as it is.
\<close>

definition tables ::
    "server \<Rightarrow> (pystr, int) dict \<times> pystr set \<times> (pystr, token_options) dict \<times> port_pool \<times> (pystr, pystr) dict \<times>
      pystr set \<times> (pystr, pystr list) dict \<times> (pystr, (client_id \<times> ws) list) dict \<times> (client_id, ws) dict \<times>
      (client_id, ws) dict" where
  "tables s = (srv_tokens s, srv_token_locks s, srv_token_options s, srv_port_pool s, srv_connector_tokens s,
     srv_forward_tokens s, srv_internal_tokens s, srv_token_clients s, srv_clients s, srv_forward_clients s)"

lemma tables_more:
  assumes "relay.more s' = relay.more s" shows "tables s' = tables s"
  by (simp only: tables_def same_more [OF assms])

lemma tables_only: "only_actions s s' \<Longrightarrow> tables s' = tables s"
  by (auto simp: only_actions_def tables_def)

lemma tables_send [simp]: "tables (snd (srv_send gz up w msg s)) = tables s"
  by (rule tables_only) simp

lemma tables_emit [simp]: "tables (srv_emit a s) = tables s"
  by (rule tables_only) simp

lemma tables_cache [simp]: "tables (on_cache f s) = tables s"
  by (simp add: tables_def on_cache_def)

lemma tables_queue [simp]: "tables (open_queue ch s) = tables s" "tables (put_message ch msg s) = tables s"
  by (rule tables_more, simp add: open_queue_def, rule tables_more, simp add: put_message_def split: option.split)

lemma tables_disconnect [simp]: "tables (disconnect_channel ch d s) = tables s"
  by (rule tables_more) simp

lemma tables_next [simp]: "tables (snd (get_next_websocket t s)) = tables s"
  by (auto simp: tables_def get_next_websocket_def Let_def split: option.splits list.splits)

lemma tables_deliver [simp]: "tables (snd (deliver gz up ch msg s)) = tables s"
  by (simp add: deliver_def to_connector_def split: option.split)

lemma tables_connector: "tables (snd (connector_dispatch gz up w rt msg s)) = tables s"
proof (cases msg)
  case (ConnectMessage p ch a port)
  obtain r s1 where n: "get_next_websocket rt s = (r, s1)" by fastforce
  then have "tables s1 = tables s" by (metis snd_conv tables_next)
  with ConnectMessage n show ?thesis by (cases r) (auto split: option.split)
next
  case (DisconnectMessage ch e)
  have "tables (snd (case m of (Inl e, s) \<Rightarrow> (Inl e, s) | (Inr u, s) \<Rightarrow> (Inr (), on_cache f s))) = tables (snd m)"
    for m :: "unit res \<times> server" and f
    by (cases m; cases "fst m"; simp)
  with DisconnectMessage show ?thesis by (simp split: option.split)
qed (auto split: option.split)

lemma srv_inv_tables: "srv_inv s \<Longrightarrow> tables s' = tables s \<Longrightarrow> srv_inv s'"
  by (rule srv_inv_cong [of s]) (simp_all add: tables_def srv_inv_def)

lemma fewer_tables: "tables s' = tables s \<Longrightarrow> fewer_clients s s'"
  by (rule fewer_same) (simp_all add: tables_def)

text \<open>Connector management, which needs the permission.\<close>

lemma manage_denied:
  "\<not> has_permission cid s \<Longrightarrow> manage_connector draws cid ch ct op s =
     (Inr (ConnectorResponseMessage False ch (Some (lit ''Unauthorized connector management attempt'')) None), s)"
  by (simp add: manage_connector_def Let_def)

lemma manage_keeps:
  assumes "srv_inv s" "manage_connector draws cid ch ct op s = (r, s')"
  shows "srv_inv s' \<and> fewer_clients s s'"
proof -
  have "s' = s \<or> s' = snd (add_connector_token draws (Some ct) (client_token cid s) s) \<or> s' = snd (remove_token ct s)"
    using assms(2)
    by (auto simp: manage_connector_def Let_def split: if_splits prod.splits sum.splits)
  with assms(1) show ?thesis
    by (auto simp: srv_inv_add_connector srv_inv_remove_token fewer_add fewer_remove)
qed

lemma client_keeps:
  assumes "srv_inv s"
  shows "srv_inv (snd (client_dispatch gz up draws cid w msg s)) \<and>
    fewer_clients s (snd (client_dispatch gz up draws cid w msg s))"
proof (cases "\<exists>ch ct op. msg = ConnectorMessage ch ct op")
  case True
  then obtain ch ct op where msg: "msg = ConnectorMessage ch ct op" by blast
  obtain r s1 where m: "manage_connector draws cid ch ct op s = (r, s1)" by fastforce
  from manage_keeps [OF assms m] have k: "srv_inv s1" "fewer_clients s s1" by auto
  have send: "tables (snd (srv_send gz up w x s1)) = tables s1" for x by simp
  from k m msg show ?thesis
    using srv_inv_tables [OF k(1) send] fewer_trans [OF k(2) fewer_tables [OF send]]
    by (cases r) simp_all
next
  case False
  then have "tables (snd (client_dispatch gz up draws cid w msg s)) = tables s"
    by (cases msg) auto
  with assms show ?thesis by (auto intro: srv_inv_tables fewer_tables)
qed

lemma round_keeps:
  assumes "srv_inv s" "\<forall>msg. srv_inv (snd (dispatch msg s)) \<and> fewer_clients s (snd (dispatch msg s))"
  shows "srv_inv (snd (loop_round gunzip up w dispatch inc s)) \<and>
    fewer_clients s (snd (loop_round gunzip up w dispatch inc s))"
proof (cases "\<exists>bs msg. inc = Received (Binary bs) \<and> parse_message gunzip bs = Inr msg")
  case True
  then obtain bs msg where i: "inc = Received (Binary bs)" "parse_message gunzip bs = Inr msg" by blast
  obtain r s1 where d: "dispatch msg s = (r, s1)" by fastforce
  with assms(2) [rule_format, of msg] i show ?thesis
    by (cases r) (simp_all add: loop_round_def)
next
  case False
  then have "snd (loop_round gunzip up w dispatch inc s) = s"
    by (auto simp: loop_round_def split: incoming.split frame.split sum.split)
  with assms(1) show ?thesis by simp
qed

lemma serve_keeps:
  assumes "srv_inv s"
  shows "srv_inv (snd (serve_round gz gunzip up draws c h inc s)) \<and>
    fewer_clients s (snd (serve_round gz gunzip up draws c h inc s))"
proof (cases c)
  case None
  let ?d = "client_dispatch gz up draws (hd_client h) (hd_ws h)"
  obtain g s1 where r: "loop_round gunzip up (hd_ws h) ?d inc s = (g, s1)" by fastforce
  have "\<forall>msg. srv_inv (snd (?d msg s)) \<and> fewer_clients s (snd (?d msg s))"
    using client_keeps [OF assms] by blast
  then have "srv_inv (snd (loop_round gunzip up (hd_ws h) ?d inc s)) \<and>
      fewer_clients s (snd (loop_round gunzip up (hd_ws h) ?d inc s))"
    by (rule round_keeps [OF assms])
  with r
  have k: "srv_inv s1" "fewer_clients s s1" by auto
  have e: "tables (srv_emit a s1) = tables s1" for a by simp
  from None r k srv_inv_tables [OF k(1) e] fewer_trans [OF k(2) fewer_tables [OF e]] show ?thesis
    by (simp add: serve_round_def)
next
  case (Some rt)
  have "srv_inv (snd (connector_dispatch gz up (hd_ws h) rt msg s)) \<and>
      fewer_clients s (snd (connector_dispatch gz up (hd_ws h) rt msg s))" for msg
    using assms tables_connector by (blast intro: srv_inv_tables fewer_tables)
  then have "\<forall>msg. srv_inv (snd (connector_dispatch gz up (hd_ws h) rt msg s)) \<and>
      fewer_clients s (snd (connector_dispatch gz up (hd_ws h) rt msg s))" by blast
  then have "srv_inv (snd (loop_round gunzip up (hd_ws h) (connector_dispatch gz up (hd_ws h) rt) inc s)) \<and>
      fewer_clients s (snd (loop_round gunzip up (hd_ws h) (connector_dispatch gz up (hd_ws h) rt) inc s))"
    by (rule round_keeps [OF assms])
  with Some show ?thesis by (simp add: serve_round_def)
qed

section \<open>Permission\<close>



text \<open>
  With the permission, every token is in reach: a client may name any token in a request to remove
  a connector, and the server removes it, whatever its kind and whoever it belongs to. For a reverse
  token of another client this closes that client's connections and frees its port.
\<close>

theorem manager_removes_any_token:
  assumes "srv_inv s" "srv_loop s" "has_permission cid s"
    and "dict_get (srv_tokens s) victim = Some p" "\<not> has_key (srv_connector_tokens s) victim"
    and "victim \<notin> internal_of s victim" "dict_get (srv_token_clients s) victim = Some vs"
    and "client_dispatch gz up draws cid w (ConnectorMessage ch victim (lit ''remove'')) s = (r, s')"
  shows "dict_get (srv_tokens s') victim = None \<and> p \<notin> pp_used (srv_port_pool s') \<and>
    (\<forall>(vc, vw)\<in>set vs. CloseWs vw 1000 token_removed \<in> set (srv_actions s'))"
proof -
  obtain rr s1 where rm: "remove_token victim s = (rr, s1)" by fastforce
  note f = remove_reverse_facts [OF assms(1,4,5,6) rm]
  let ?resp = "ConnectorResponseMessage True ch None None"
  have "manage_connector draws cid ch victim (lit ''remove'') s = (Inr ?resp, s1)"
    using assms(3) rm f(1) by (simp add: manage_connector_def Let_def)
  with assms(8) have s': "(r, s') = srv_send gz up w ?resp s1" by simp
  then have o: "only_actions s1 s'" by (metis only_actions_send snd_conv)
  have "CloseWs vw 1000 token_removed \<in> set (srv_actions s1)" if "(vc, vw) \<in> set vs" for vc vw
    using f(5) [OF assms(2,7) that] .
  moreover obtain xs where "srv_actions s' = srv_actions s1 @ xs" using only_actionsD(16) [OF o] by blast
  ultimately show ?thesis using f(2,4) only_actionsD(1,5) [OF o] by auto
qed

definition foreign_server :: server where
  "foreign_server = (srv_init [] False)\<lparr>srv_loop := True, srv_token_locks := {lit ''v'', lit ''i''},
     srv_port_pool := \<lparr>pp_pool = [], pp_used = {1080}\<rparr>,
     srv_tokens := [(lit ''v'', 1080), (lit ''i'', - 1)],
     srv_token_clients := [(lit ''v'', [(1, 10)]), (lit ''i'', [(2, 20)])],
     srv_token_options :=
       [(lit ''v'', \<lparr>opt_username = None, opt_password = None, opt_allow_manage_connector = False\<rparr>),
        (lit ''i'', \<lparr>opt_username = None, opt_password = None, opt_allow_manage_connector = True\<rparr>)]\<rparr>"

lemma manager_removes_any_token_witness:
  "\<exists>r s'. client_dispatch id (\<lambda>_. True) (\<lambda>_. 0) 2 20 (ConnectorMessage 9 (lit ''v'') (lit ''remove'')) foreign_server =
     (r, s') \<and>
   dict_get (srv_tokens s') (lit ''v'') = None \<and> CloseWs 10 1000 token_removed \<in> set (srv_actions s')"
proof -
  obtain r s' where d: "client_dispatch id (\<lambda>_. True) (\<lambda>_. 0) 2 20 (ConnectorMessage 9 (lit ''v'') (lit ''remove''))
    foreign_server = (r, s')" by fastforce
  have "srv_inv foreign_server"
    by (auto simp: foreign_server_def srv_init_def srv_inv_def ports_ok_def tokens_equipped_def
        split: if_splits)
  moreover have "has_permission 2 foreign_server"
    by (simp add: foreign_server_def has_permission_def client_token_def)
  ultimately have "dict_get (srv_tokens s') (lit ''v'') = None \<and> CloseWs 10 1000 token_removed \<in> set (srv_actions s')"
    using manager_removes_any_token [OF _ _ _ _ _ _ _ d, of 1080 "[(1, 10)]"]
    by (simp add: foreign_server_def internal_of_def srv_init_def)
  with d show ?thesis by blast
qed

section \<open>Channels of a connector\<close>

lemma send_up: "pack_message gz msg = Inr bs \<Longrightarrow> up w \<Longrightarrow> srv_send gz up w msg s = (Inr (), srv_emit (SendWs w bs) s)"
  by (simp add: srv_send_def)

lemma emit_cache [simp]: "srv_conn_cache (srv_emit a s) = srv_conn_cache s"
  "message_queues (srv_emit a s) = message_queues s"
  by (simp_all add: srv_emit_def)

lemma on_cache_simps [simp]: "srv_conn_cache (on_cache f s) = f (srv_conn_cache s)"
  "message_queues (on_cache f s) = message_queues s"
  by (simp_all add: on_cache_def)

lemma get_next_keeps:
  assumes "get_next_websocket rt s = (r, s1)"
  shows "srv_conn_cache s1 = srv_conn_cache s" "message_queues s1 = message_queues s"
    "srv_actions s1 = srv_actions s"
  using assms by (auto simp: get_next_websocket_def Let_def split: if_splits option.splits list.splits)

text \<open>
  C8. A channel a connector opens joins it to one reverse client. The connect message goes to the
  client chosen by round robin; from then on what the connector sends on the channel goes to that
  client, byte for byte as packed, and what the client answers goes to that connector; after the
  connector has disconnected the channel, nothing is passed on in either direction.
\<close>

theorem connector_channel_routing:
  assumes "get_next_websocket rt s = (Inr (Some cw), s0)" "up w" "up cw"
    and "pack_message gz (ConnectMessage p ch a port) = Inr cb"
    and "m = DataMessage dp ch d co da dpo dt dtp" "pack_message gz m = Inr mb"
    and "pack_message gz (DisconnectMessage ch err) = Inr eb"
    and "\<not> has_key (message_queues s) (uuid_str ch)"
  shows "\<exists>s1 s2. connector_dispatch gz up w rt (ConnectMessage p ch a port) s = (Inr (), s1) \<and>
    srv_actions s1 = srv_actions s @ [SendWs cw cb] \<and>
    connector_dispatch gz up w rt m s1 = (Inr (), srv_emit (SendWs cw mb) s1) \<and>
    client_dispatch gz up draws cid cw m s1 = (Inr (), srv_emit (SendWs w mb) s1) \<and>
    connector_dispatch gz up w rt (DisconnectMessage ch err) s1 = (Inr (), s2) \<and>
    srv_actions s2 = srv_actions s1 @ [SendWs cw eb] \<and>
    connector_dispatch gz up w rt m s2 = (Inr (), s2) \<and>
    client_dispatch gz up draws cid cw m s2 = (Inr (), s2)"
proof -
  note keeps = get_next_keeps [OF assms(1)]
  let ?s1 = "srv_emit (SendWs cw cb) (on_cache (cc_add_channel ch w cw rt) s0)"
  let ?s2 = "on_cache (cc_remove_channel ch) (srv_emit (SendWs cw eb) ?s1)"
  have c1: "cc_get_client ch (srv_conn_cache ?s1) = Some cw" "cc_get_connector ch (srv_conn_cache ?s1) = Some w"
    "cc_get_client ch (srv_conn_cache ?s2) = None" "cc_get_connector ch (srv_conn_cache ?s2) = None"
    by (simp_all add: dict_simps)
  have q: "\<not> has_key (message_queues ?s1) (uuid_str ch)" "\<not> has_key (message_queues ?s2) (uuid_str ch)"
    using assms(8) keeps by simp_all
  have "connector_dispatch gz up w rt (ConnectMessage p ch a port) s = (Inr (), ?s1)"
    using assms(1) send_up [where up = up, OF assms(4,3)] by simp
  moreover have "srv_actions ?s1 = srv_actions s @ [SendWs cw cb]"
    using keeps by (simp add: srv_emit_def on_cache_def)
  moreover have "connector_dispatch gz up w rt m ?s1 = (Inr (), srv_emit (SendWs cw mb) ?s1)"
    using c1 send_up [where up = up, OF assms(6,3)] assms(5) by simp
  moreover have "client_dispatch gz up draws cid cw m ?s1 = (Inr (), srv_emit (SendWs w mb) ?s1)"
    using c1 q send_up [where up = up, OF assms(6,2)] assms(5) by (simp add: deliver_def to_connector_def)
  moreover have "connector_dispatch gz up w rt (DisconnectMessage ch err) ?s1 = (Inr (), ?s2)"
    using c1 send_up [where up = up, OF assms(7,3)] by simp
  moreover have "srv_actions ?s2 = srv_actions ?s1 @ [SendWs cw eb]"
    by (simp add: srv_emit_def on_cache_def)
  moreover have "connector_dispatch gz up w rt m ?s2 = (Inr (), ?s2)"
    using c1 assms(5) by simp
  moreover have "client_dispatch gz up draws cid cw m ?s2 = (Inr (), ?s2)"
    using c1 q assms(5) by (simp add: deliver_def to_connector_def)
  ultimately show ?thesis by blast
qed

lemma connector_channel_routing_witness:
  "\<exists>cb mb s1. pack_message id (DataMessage (lit ''udp'') 5 [1, 2] 0 None None None None) = Inr mb \<and>
     connector_dispatch id (\<lambda>_. True) 40 (lit ''a'') (ConnectMessage (lit ''udp'') 5 None None) three_clients =
       (Inr (), s1) \<and>
     srv_actions s1 = [SendWs 20 cb] \<and>
     client_dispatch id (\<lambda>_. True) (\<lambda>_. 0) 2 20 (DataMessage (lit ''udp'') 5 [1, 2] 0 None None None None) s1 =
       (Inr (), srv_emit (SendWs 40 mb) s1)"
proof -
  let ?m = "DataMessage (lit ''udp'') 5 [1, 2] 0 None None None None"
  obtain cb where cb: "pack_message id (ConnectMessage (lit ''udp'') 5 None None) = Inr cb"
    using pack_message_ok_iff [of "ConnectMessage (lit ''udp'') 5 None None" id] by auto
  obtain mb where mb: "pack_message id ?m = Inr mb"
    using pack_message_ok_iff [of ?m id] by (auto simp: endpoint_fits_def DATA_COMPRESSION_GZIP_def)
  obtain eb where eb: "pack_message id (DisconnectMessage 5 None) = Inr eb"
    using pack_message_ok_iff [of "DisconnectMessage 5 None" id] by auto
  obtain s0 where n: "get_next_websocket (lit ''a'') three_clients = (Inr (Some 20), s0)"
    by (simp add: get_next_websocket_def three_clients_def srv_init_def Let_def)
  have "\<not> has_key (message_queues three_clients) (uuid_str 5)" "srv_actions three_clients = []"
    by (simp_all add: three_clients_def srv_init_def)
  with connector_channel_routing [OF n _ _ cb refl mb eb, of "\<lambda>_. True" 40 "\<lambda>_. 0" 2] mb show ?thesis
    by (auto simp del: pack_message.simps connector_dispatch.simps client_dispatch.simps lit_Cons)
qed

text \<open>
  A reverse client is cut off by a connector that has gone: its dispatcher treats a failed send to
  the connector of a channel like the end of its own connection, so the first data the client sends
  on such a channel ends its loop and cancels its connect handlers, although its own connection is up.
\<close>

theorem gone_connector_ends_client:
  assumes "cc_get_connector ch (srv_conn_cache s) = Some target_ws" "\<not> up target_ws"
    and "\<not> has_key (message_queues s) (uuid_str ch)"
    and "parse_message gunzip bs = Inr (DataMessage p ch d co a port ta tp)"
  shows "\<exists>s'. serve_round gz gunzip up draws None h (Received (Binary bs)) s = (False, s') \<and>
    CancelNetwork (hd_ws h) \<in> set (srv_actions s')"
proof -
  obtain e where "srv_send gz up target_ws (DataMessage p ch d co a port ta tp) s = (Inl e, s)"
    using assms(2)
    by (cases "pack_message gz (DataMessage p ch d co a port ta tp)")
      (auto simp: srv_send_def simp del: pack_message.simps)
  with assms(1,3,4) show ?thesis
    by (auto simp: serve_round_def loop_round_def deliver_def to_connector_def srv_emit_def)
qed

definition half_gone_server :: server where
  "half_gone_server = on_cache (cc_add_channel 5 40 20 (lit ''a'')) three_clients"

lemma gone_connector_ends_client_witness:
  "\<exists>bs s'. pack_message id (DataMessage (lit ''udp'') 5 [1, 2] 0 (Some []) (Some 0) (Some []) (Some 0)) = Inr bs \<and>
     serve_round id Inr (\<lambda>w. w \<noteq> 40) (\<lambda>_. 0) None
       \<lparr>hd_ws = 20, hd_client = 2, hd_token = lit ''a'', hd_key = lit ''a'', hd_role = ReverseRole\<rparr>
       (Received (Binary bs)) half_gone_server = (False, s')"
proof -
  let ?m = "DataMessage (lit ''udp'') 5 [1, 2] 0 (Some []) (Some 0) (Some []) (Some 0)"
  obtain bs where bs: "pack_message id ?m = Inr bs"
    using pack_message_ok_iff [of ?m id] by (auto simp: endpoint_fits_def port_fits_def DATA_COMPRESSION_GZIP_def)
  have "parse_message Inr bs = Inr (norm_message ?m)"
    by (rule parse_pack_message [OF _ _ bs]) simp_all
  then have p: "parse_message Inr bs = Inr ?m" by (simp add: addr_or_empty_def port_or_zero_def)
  have c: "cc_get_connector 5 (srv_conn_cache half_gone_server) = Some 40"
    "\<not> has_key (message_queues half_gone_server) (uuid_str 5)"
    by (simp_all add: half_gone_server_def dict_simps three_clients_def srv_init_def)
  obtain s' where "serve_round id Inr (\<lambda>w. w \<noteq> 40) (\<lambda>_. 0) None
       \<lparr>hd_ws = 20, hd_client = 2, hd_token = lit ''a'', hd_key = lit ''a'', hd_role = ReverseRole\<rparr>
       (Received (Binary bs)) half_gone_server = (False, s')"
    using gone_connector_ends_client [OF c(1) _ c(2) p, of "\<lambda>w. w \<noteq> 40"] by fastforce
  with bs show ?thesis by blast
qed

end
