(* ===== verification/System.thy ===== *)
theory System
  imports Dispatch
begin

text \<open>
  The running server: the operations of its interface, the connections at their points of suspension
  and the background tasks, interleaved in any order (class \<open>WSSocksServer\<close> of \<^verbatim>\<open>pywssocks/server.py\<close>, \<open>serve\<close>
  included). The steps are those of \<open>Tokens\<close>, \<open>Sessions\<close> and \<open>Dispatch\<close>; each is a stretch of code between
  two awaits. Proved of every reachable state: the invariant of the token tables, and that each
  registered client belongs to a connection that is still being handled.
\<close>

section \<open>The steps\<close>

text \<open>\<open>serve\<close> up to the point where it waits for connections.\<close>

fun handle_pending_tokens :: "pystr list \<Rightarrow> server \<Rightarrow> unit res \<times> server" where
  "handle_pending_tokens [] s = (Inr (), s)"
| "handle_pending_tokens (t # ts) s =
     (case handle_pending_token t s of
        (Inl e, s) \<Rightarrow> (Inl e, s)
      | (Inr _, s) \<Rightarrow> handle_pending_tokens ts s)"

definition start_server :: "server \<Rightarrow> unit res \<times> server" where
  "start_server s =
     (case handle_pending_tokens (srv_pending_tokens s) (s\<lparr>srv_loop := True\<rparr>) of
        (Inl e, s) \<Rightarrow> (Inl e, s)
      | (Inr _, s) \<Rightarrow> (Inr (), s\<lparr>srv_pending_tokens := []\<rparr>))"

datatype api =
    AddReverse "nat \<Rightarrow> nat" nat "pystr option" "int option" "pystr option" "pystr option" bool
  | AddForward "nat \<Rightarrow> nat" "pystr option"
  | AddConnector "nat \<Rightarrow> nat" "pystr option" "pystr option"
  | RemoveToken pystr
  | RemoveConnector pystr
  | RunPending pystr
  | RunCacheCleanup pystr
  | Start
  | NextClient pystr

fun api_step :: "api \<Rightarrow> server \<Rightarrow> server" where
  "api_step (AddReverse draws draw token port u p allow) s = snd (add_reverse_token draws draw token port u p allow s)"
| "api_step (AddForward draws token) s = snd (add_forward_token draws token s)"
| "api_step (AddConnector draws ct rt) s = snd (add_connector_token draws ct rt s)"
| "api_step (RemoveToken token) s = snd (remove_token token s)"
| "api_step (RemoveConnector ct) s = snd (remove_connector_token ct s)"
| "api_step (RunPending token) s = snd (handle_pending_token token s)"
| "api_step (RunCacheCleanup token) s = on_cache (cc_cleanup_token token) s"
| "api_step Start s = snd (start_server s)"
| "api_step (NextClient token) s = snd (get_next_websocket token s)"

text \<open>
  The connections: waiting for the SOCKS server before they are confirmed, being served by the
  dispatcher they were given, and over.
\<close>

record system =
  sy_server :: server
  sy_waiting :: "handler set"
  sy_serving :: "(handler \<times> pystr option) set"
  sy_past :: "handler set"

definition sy_live :: "system \<Rightarrow> handler set" where
  "sy_live \<sigma> = sy_waiting \<sigma> \<union> fst ` sy_serving \<sigma>"

definition sy_init :: "int list \<Rightarrow> bool \<Rightarrow> system" where
  "sy_init ports wait_client =
     \<lparr>sy_server = srv_init ports wait_client, sy_waiting = {}, sy_serving = {}, sy_past = {}\<rparr>"

abbreviation clean :: "(bytes \<Rightarrow> bytes) \<Rightarrow> (ws \<Rightarrow> bool) \<Rightarrow> handler \<Rightarrow> server \<Rightarrow> server" where
  "clean gz up h \<equiv> cleanup_connection gz up (Some (hd_client h)) (Some (hd_key h))"

inductive sy_step :: "system \<Rightarrow> system \<Rightarrow> bool" where
  call: "sy_step \<sigma> (\<sigma>\<lparr>sy_server := api_step a (sy_server \<sigma>)\<rparr>)"
| relaying: "relay.more s' = relay.more (sy_server \<sigma>) \<Longrightarrow> sy_step \<sigma> (\<sigma>\<lparr>sy_server := s'\<rparr>)"
| turn_away: "admit cid w token reverse inst (sy_server \<sigma>) = (Inr None, s) \<Longrightarrow>
    sy_step \<sigma> (\<sigma>\<lparr>sy_server := snd (refuse_client gz up w s)\<rparr>)"
| fail: "admit cid w token reverse inst (sy_server \<sigma>) = (Inl e, s) \<Longrightarrow>
    sy_step \<sigma> (\<sigma>\<lparr>sy_server := cleanup_connection gz up (Some cid) (Some token) s\<rparr>)"
| enter: "admit cid w token reverse inst (sy_server \<sigma>) = (Inr (Some h), s) \<Longrightarrow>
    \<forall>g\<in>sy_live \<sigma> \<union> sy_past \<sigma>. hd_client g \<noteq> cid \<Longrightarrow>
    sy_step \<sigma> (\<sigma>\<lparr>sy_server := s, sy_waiting := insert h (sy_waiting \<sigma>)\<rparr>)"
| confirm: "h \<in> sy_waiting \<sigma> \<Longrightarrow> confirm_client gz up h (sy_server \<sigma>) = (Inr (), s) \<Longrightarrow>
    sy_step \<sigma> (\<sigma>\<lparr>sy_server := s, sy_waiting := sy_waiting \<sigma> - {h},
      sy_serving := insert (h, choose_dispatcher h s) (sy_serving \<sigma>)\<rparr>)"
| confirm_fails: "h \<in> sy_waiting \<sigma> \<Longrightarrow> confirm_client gz up h (sy_server \<sigma>) = (Inl e, s) \<Longrightarrow>
    sy_step \<sigma> (\<sigma>\<lparr>sy_server := clean gz up h s, sy_waiting := sy_waiting \<sigma> - {h},
      sy_past := insert h (sy_past \<sigma>)\<rparr>)"
| abort: "h \<in> sy_waiting \<sigma> \<Longrightarrow>
    sy_step \<sigma> (\<sigma>\<lparr>sy_server := clean gz up h (sy_server \<sigma>), sy_waiting := sy_waiting \<sigma> - {h},
      sy_past := insert h (sy_past \<sigma>)\<rparr>)"
| round: "(h, c) \<in> sy_serving \<sigma> \<Longrightarrow>
    serve_round gz gunzip up draws c h inc (sy_server \<sigma>) = (True, s) \<Longrightarrow>
    sy_step \<sigma> (\<sigma>\<lparr>sy_server := s\<rparr>)"
| last_round: "(h, c) \<in> sy_serving \<sigma> \<Longrightarrow>
    serve_round gz gunzip up draws c h inc (sy_server \<sigma>) = (False, s) \<Longrightarrow>
    sy_step \<sigma> (\<sigma>\<lparr>sy_server := clean gz up h s, sy_serving := {g \<in> sy_serving \<sigma>. fst g \<noteq> h},
      sy_past := insert h (sy_past \<sigma>)\<rparr>)"
| leave: "(h, c) \<in> sy_serving \<sigma> \<Longrightarrow>
    sy_step \<sigma> (\<sigma>\<lparr>sy_server := clean gz up h (if c = None then srv_emit (CancelNetwork (hd_ws h)) (sy_server \<sigma>)
        else sy_server \<sigma>),
      sy_serving := {g \<in> sy_serving \<sigma>. fst g \<noteq> h}, sy_past := insert h (sy_past \<sigma>)\<rparr>)"

inductive reachable :: "int list \<Rightarrow> bool \<Rightarrow> system \<Rightarrow> bool" for ports wait_client where
  init [intro]: "reachable ports wait_client (sy_init ports wait_client)"
| step [intro]: "reachable ports wait_client \<sigma> \<Longrightarrow> sy_step \<sigma> \<sigma>' \<Longrightarrow> reachable ports wait_client \<sigma>'"

section \<open>The invariant\<close>

text \<open>
  \<open>owned \<sigma> t cid w\<close>: the client is that of a connection registered under the key \<open>t\<close>, and the connection
  is live; under the empty key it may be over, since the clean-up passes over an empty token.
\<close>

definition owned :: "system \<Rightarrow> pystr \<Rightarrow> client_id \<Rightarrow> ws \<Rightarrow> bool" where
  "owned \<sigma> t cid w \<longleftrightarrow>
     (\<exists>h\<in>sy_live \<sigma> \<union> sy_past \<sigma>. hd_client h = cid \<and> hd_ws h = w \<and> hd_key h = t \<and> (h \<in> sy_live \<sigma> \<or> t = []))"

definition clients_owned :: "system \<Rightarrow> bool" where
  "clients_owned \<sigma> \<longleftrightarrow>
     (\<forall>t cid w. (cid, w) \<in> set (clients_of (sy_server \<sigma>) t) \<longrightarrow> owned \<sigma> t cid w) \<and>
     (\<forall>cid w. dict_get (srv_clients (sy_server \<sigma>)) cid = Some w \<longrightarrow> (\<exists>t. owned \<sigma> t cid w))"

definition ids_unique :: "system \<Rightarrow> bool" where
  "ids_unique \<sigma> \<longleftrightarrow> inj_on hd_client (sy_live \<sigma> \<union> sy_past \<sigma>) \<and> sy_live \<sigma> \<inter> sy_past \<sigma> = {} \<and>
     sy_waiting \<sigma> \<inter> fst ` sy_serving \<sigma> = {}"

definition sy_inv :: "system \<Rightarrow> bool" where
  "sy_inv \<sigma> \<longleftrightarrow> srv_inv (sy_server \<sigma>) \<and> clients_owned \<sigma> \<and> ids_unique \<sigma>"

lemma owned_mono:
  "owned \<sigma> t cid w \<Longrightarrow> sy_live \<sigma>' = sy_live \<sigma> \<Longrightarrow> sy_past \<sigma>' = sy_past \<sigma> \<Longrightarrow> owned \<sigma>' t cid w"
  by (simp add: owned_def)

text \<open>A step of the server that registers no client.\<close>

lemma sy_inv_server:
  assumes "sy_inv \<sigma>" "srv_inv s" "fewer_clients (sy_server \<sigma>) s"
  shows "sy_inv (\<sigma>\<lparr>sy_server := s\<rparr>)"
  using assms
  by (auto simp: sy_inv_def clients_owned_def ids_unique_def fewer_clients_def owned_def sy_live_def)

text \<open>A connection ends: it moves to the past and is cleaned up.\<close>

lemma sy_inv_end:
  assumes inv: "srv_inv s" "clients_owned (\<sigma>\<lparr>sy_server := s\<rparr>)" "ids_unique \<sigma>"
    and h: "h \<in> sy_live \<sigma>" "sy_live \<sigma>' = sy_live \<sigma> - {h}" "sy_past \<sigma>' = insert h (sy_past \<sigma>)"
      "sy_server \<sigma>' = clean gz up h s" "sy_waiting \<sigma>' \<inter> fst ` sy_serving \<sigma>' = {}"
  shows "sy_inv \<sigma>'"
proof -
  have inj: "inj_on hd_client (sy_live \<sigma> \<union> sy_past \<sigma>)" "sy_live \<sigma> \<inter> sy_past \<sigma> = {}"
    using inv(3) by (auto simp: ids_unique_def)
  have live: "sy_live (\<sigma>\<lparr>sy_server := s\<rparr>) = sy_live \<sigma>" by (simp add: sy_live_def)
  have all: "sy_live \<sigma>' \<union> sy_past \<sigma>' = sy_live \<sigma> \<union> sy_past \<sigma>" using h by auto
  have keep: "owned \<sigma>' t cid w"
    if o: "owned (\<sigma>\<lparr>sy_server := s\<rparr>) t cid w" and c: "cid \<noteq> hd_client h \<or> hd_key h = []" for t cid w
  proof -
    from o obtain g where g: "g \<in> sy_live \<sigma> \<union> sy_past \<sigma>" "hd_client g = cid" "hd_ws g = w" "hd_key g = t"
      "g \<in> sy_live \<sigma> \<or> t = []" by (auto simp: owned_def live)
    have "g \<in> sy_live \<sigma>' \<or> t = []" using g c h(2) by auto
    with g all show ?thesis unfolding owned_def by blast
  qed
  have key: "t = hd_key h" if "owned (\<sigma>\<lparr>sy_server := s\<rparr>) t (hd_client h) w" for t w
  proof -
    from that obtain g where g: "g \<in> sy_live \<sigma> \<union> sy_past \<sigma>" "hd_client g = hd_client h" "hd_key g = t"
      by (auto simp: owned_def live)
    from inj_onD [OF inj(1) g(2,1)] h(1) g(3) show ?thesis by auto
  qed
  have "owned \<sigma>' t cid w" if "(cid, w) \<in> set (clients_of (sy_server \<sigma>') t)" for t cid w
  proof -
    from that h(4) have m: "(cid, w) \<in> set (clients_of s t)" "t = hd_key h \<and> hd_key h \<noteq> [] \<longrightarrow> cid \<noteq> hd_client h"
      by (auto simp: cleanup_clients_of split: if_splits)
    with inv(2) have o: "owned (\<sigma>\<lparr>sy_server := s\<rparr>) t cid w" by (auto simp: clients_owned_def)
    with m(2) key have "cid \<noteq> hd_client h \<or> hd_key h = []" by blast
    with keep o show ?thesis by blast
  qed
  moreover have "\<exists>t. owned \<sigma>' t cid w" if "dict_get (srv_clients (sy_server \<sigma>')) cid = Some w" for cid w
  proof -
    from that h(4) have m: "dict_get (srv_clients s) cid = Some w" "hd_key h \<noteq> [] \<longrightarrow> cid \<noteq> hd_client h"
      by (auto simp: cleanup_clients dict_simps split: if_splits)
    from m(1) inv(2) have "\<exists>t. owned (\<sigma>\<lparr>sy_server := s\<rparr>) t cid w"
      by (simp add: clients_owned_def)
    then obtain t where "owned (\<sigma>\<lparr>sy_server := s\<rparr>) t cid w" ..
    with m(2) keep show ?thesis by blast
  qed
  ultimately have "clients_owned \<sigma>'" by (simp add: clients_owned_def)
  moreover have "srv_inv (sy_server \<sigma>')" using h(4) srv_inv_cleanup [OF inv(1)] by simp
  moreover have "ids_unique \<sigma>'" using inj h all by (auto simp: ids_unique_def)
  ultimately show ?thesis by (simp add: sy_inv_def)
qed

text \<open>A new connection enters.\<close>

lemma sy_inv_enter:
  assumes "sy_inv \<sigma>" "admit cid w token reverse inst (sy_server \<sigma>) = (Inr (Some h), s)"
    and fresh: "\<forall>g\<in>sy_live \<sigma> \<union> sy_past \<sigma>. hd_client g \<noteq> cid"
  shows "sy_inv (\<sigma>\<lparr>sy_server := s, sy_waiting := insert h (sy_waiting \<sigma>)\<rparr>)"
proof -
  let ?\<sigma> = "\<sigma>\<lparr>sy_server := s, sy_waiting := insert h (sy_waiting \<sigma>)\<rparr>"
  have inv: "srv_inv (sy_server \<sigma>)" "clients_owned \<sigma>" "ids_unique \<sigma>" using assms(1) by (auto simp: sy_inv_def)
  have live: "sy_live ?\<sigma> = insert h (sy_live \<sigma>)" by (auto simp: sy_live_def)
  have h: "hd_client h = cid" "hd_ws h = w"
    using assms(2) by (auto elim: admit_cases)
  have old: "owned ?\<sigma> t c v" if "owned \<sigma> t c v" for t c v
    using that unfolding owned_def live by auto
  have new: "owned ?\<sigma> (hd_key h) cid w"
    unfolding owned_def live using h by auto
  have entries: "(c, v) \<in> set (clients_of (sy_server \<sigma>) t) \<or> (t, c, v) = (hd_key h, cid, w)"
    if "(c, v) \<in> set (clients_of s t)" for t c v
    using assms(2) that by (cases rule: admit_cases) (auto split: if_splits)
  have clients: "dict_get (srv_clients (sy_server \<sigma>)) c = Some v \<or> (c, v) = (cid, w)"
    if "dict_get (srv_clients s) c = Some v" for c v
    using assms(2) that by (cases rule: admit_cases) (auto simp: dict_simps split: if_splits)
  have "owned ?\<sigma> t c v" if "(c, v) \<in> set (clients_of s t)" for t c v
  proof (cases "(t, c, v) = (hd_key h, cid, w)")
    case False
    with entries [OF that] inv(2) have "owned \<sigma> t c v" unfolding clients_owned_def by blast
    then show ?thesis by (rule old)
  qed (use new in simp)
  moreover have "\<exists>t. owned ?\<sigma> t c v" if "dict_get (srv_clients s) c = Some v" for c v
  proof (cases "(c, v) = (cid, w)")
    case False
    with clients [OF that] inv(2) obtain t where "owned \<sigma> t c v" unfolding clients_owned_def by blast
    with old show ?thesis by blast
  qed (use new in blast)
  ultimately have "clients_owned ?\<sigma>" by (simp add: clients_owned_def)
  moreover have "srv_inv s" using srv_inv_admit [OF inv(1), of cid w token reverse inst] assms(2) by simp
  moreover have "ids_unique ?\<sigma>"
  proof -
    have "h \<notin> sy_live \<sigma> \<union> sy_past \<sigma>" using fresh h(1) by blast
    moreover have "h \<notin> fst ` sy_serving \<sigma>" using calculation by (auto simp: sy_live_def)
    ultimately show ?thesis using inv(3) fresh h(1) unfolding ids_unique_def live by auto
  qed
  ultimately show ?thesis by (simp add: sy_inv_def)
qed

lemma serving_end:
  assumes "(h, c) \<in> sy_serving \<sigma>" "ids_unique \<sigma>"
  shows "h \<in> sy_live \<sigma>" "h \<notin> sy_waiting \<sigma>"
    "fst ` {g \<in> sy_serving \<sigma>. fst g \<noteq> h} = fst ` sy_serving \<sigma> - {h}"
proof -
  have "h \<in> fst ` sy_serving \<sigma>" using assms(1) by (metis fst_conv imageI)
  then show "h \<in> sy_live \<sigma>" "h \<notin> sy_waiting \<sigma>"
    using assms(2) by (auto simp only: sy_live_def ids_unique_def)
qed auto

lemma sy_inv_leave:
  assumes "srv_inv s" "clients_owned (\<sigma>\<lparr>sy_server := s\<rparr>)" "ids_unique \<sigma>" "(h, c) \<in> sy_serving \<sigma>"
  shows "sy_inv (\<sigma>\<lparr>sy_server := clean gz up h s, sy_serving := {g \<in> sy_serving \<sigma>. fst g \<noteq> h},
    sy_past := insert h (sy_past \<sigma>)\<rparr>)"
proof (rule sy_inv_end [OF assms(1-3)])
  note e = serving_end [OF assms(4,3)]
  show "h \<in> sy_live \<sigma>" by (fact e(1))
  show "sy_live (\<sigma>\<lparr>sy_server := clean gz up h s, sy_serving := {g \<in> sy_serving \<sigma>. fst g \<noteq> h},
      sy_past := insert h (sy_past \<sigma>)\<rparr>) = sy_live \<sigma> - {h}"
    using e(2) by (simp add: sy_live_def e(3) Un_Diff)
  have "sy_waiting \<sigma> \<inter> fst ` sy_serving \<sigma> = {}" using assms(3) by (simp only: ids_unique_def)
  then show "sy_waiting (\<sigma>\<lparr>sy_server := clean gz up h s, sy_serving := {g \<in> sy_serving \<sigma>. fst g \<noteq> h},
      sy_past := insert h (sy_past \<sigma>)\<rparr>) \<inter>
      fst ` sy_serving (\<sigma>\<lparr>sy_server := clean gz up h s, sy_serving := {g \<in> sy_serving \<sigma>. fst g \<noteq> h},
      sy_past := insert h (sy_past \<sigma>)\<rparr>) = {}"
    by (simp add: e(3)) blast
qed simp_all

lemma clients_owned_upd:
  assumes "clients_owned \<sigma>" "h \<in> sy_live \<sigma>" "sy_live \<sigma>' = sy_live \<sigma>" "sy_past \<sigma>' = sy_past \<sigma>"
    and "clients_of (sy_server \<sigma>') = clients_of (sy_server \<sigma>)"
    and "srv_clients (sy_server \<sigma>') = srv_clients (sy_server \<sigma>) \<or>
      srv_clients (sy_server \<sigma>') = dict_set (hd_client h) (hd_ws h) (srv_clients (sy_server \<sigma>))"
  shows "clients_owned \<sigma>'"
proof -
  have o: "owned \<sigma>' t c v" if "owned \<sigma> t c v" for t c v using that assms(3,4) by (rule owned_mono)
  have "owned \<sigma>' (hd_key h) (hd_client h) (hd_ws h)" using assms(2,3) by (auto simp: owned_def)
  with o assms(1,5,6) show ?thesis
    unfolding clients_owned_def by (auto simp: dict_simps split: if_splits; blast)
qed

lemma confirm_clients:
  assumes "confirm_client gz up h s = (r, s')"
  shows "clients_of s' = clients_of s" "srv_clients s' = srv_clients s \<or>
    srv_clients s' = dict_set (hd_client h) (hd_ws h) (srv_clients s)"
  using only_actionsD(12,15) [OF confirm_effect [OF assms]] by (auto split: if_splits)

lemma pending_tokens_keep:
  "srv_inv s \<Longrightarrow> srv_inv (snd (handle_pending_tokens ts s)) \<and> fewer_clients s (snd (handle_pending_tokens ts s))"
proof (induction ts arbitrary: s)
  case (Cons t ts)
  obtain r s1 where p: "handle_pending_token t s = (r, s1)" by fastforce
  with srv_inv_pending [OF Cons.prems, of t] fewer_pending [of s t]
  have "srv_inv s1" "fewer_clients s s1" by auto
  with Cons.IH [of s1] p show ?case by (cases r) (auto intro: fewer_trans)
qed simp

lemma start_keeps:
  assumes "srv_inv s" shows "srv_inv (snd (start_server s)) \<and> fewer_clients s (snd (start_server s))"
proof -
  let ?s = "s\<lparr>srv_loop := True\<rparr>"
  have i: "srv_inv ?s" by (rule srv_inv_cong [OF assms]) (use assms in \<open>auto simp: srv_inv_def\<close>)
  obtain r s1 where p: "handle_pending_tokens (srv_pending_tokens s) ?s = (r, s1)" by fastforce
  with pending_tokens_keep [OF i, of "srv_pending_tokens s"] have k: "srv_inv s1" "fewer_clients ?s s1" by auto
  have "fewer_clients s s1" using k(2) by (simp add: fewer_clients_def clients_of_def)
  moreover have "srv_inv (s1\<lparr>srv_pending_tokens := []\<rparr>)"
    by (rule srv_inv_cong [OF k(1)]) (use k(1) in \<open>auto simp: srv_inv_def\<close>)
  ultimately show ?thesis using p k(1)
    by (cases r) (auto simp: start_server_def intro: fewer_upd)
qed

lemma api_keeps:
  assumes "srv_inv s" shows "srv_inv (api_step a s) \<and> fewer_clients s (api_step a s)"
proof (cases a)
  case (RunCacheCleanup t)
  have "tables (on_cache (cc_cleanup_token t) s) = tables s" by simp
  with assms RunCacheCleanup show ?thesis by (auto intro: srv_inv_tables fewer_tables)
qed (use assms start_keeps [OF assms] in \<open>simp_all add: srv_inv_add_reverse fewer_add_reverse srv_inv_add_forward
  srv_inv_add_connector srv_inv_remove_token srv_inv_remove_connector srv_inv_pending srv_inv_next
  fewer_add fewer_remove fewer_pending fewer_next\<close>)

theorem sy_inv_step: "sy_step \<sigma> \<sigma>' \<Longrightarrow> sy_inv \<sigma> \<Longrightarrow> sy_inv \<sigma>'"
proof (induction rule: sy_step.induct)
  case (call \<sigma> a)
  then show ?case using api_keeps by (intro sy_inv_server) (auto simp: sy_inv_def)
next
  case (relaying s' \<sigma>)
  have "tables s' = tables (sy_server \<sigma>)" by (rule tables_more [OF relaying(1)])
  with relaying(2) show ?case
    by (intro sy_inv_server) (auto simp: sy_inv_def intro: srv_inv_tables fewer_tables)
next
  case (turn_away cid w token reverse inst \<sigma> s gz up)
  from admit_none [OF turn_away(1)] have "only_actions (sy_server \<sigma>) (snd (refuse_client gz up w s))" by simp
  with turn_away(2) show ?case
    by (intro sy_inv_server) (auto simp: sy_inv_def intro: srv_inv_only fewer_only)
next
  case (fail cid w token reverse inst \<sigma> e s gz up)
  with admit_total [of "sy_server \<sigma>" cid w token reverse inst e] show ?case by (simp add: sy_inv_def)
next
  case (enter cid w token reverse inst \<sigma> h s)
  then show ?case by (intro sy_inv_enter)
next
  case (confirm h \<sigma> gz up s)
  let ?\<sigma> = "\<sigma>\<lparr>sy_server := s, sy_waiting := sy_waiting \<sigma> - {h},
    sy_serving := insert (h, choose_dispatcher h s) (sy_serving \<sigma>)\<rparr>"
  have live: "sy_live ?\<sigma> = sy_live \<sigma>" "h \<in> sy_live \<sigma>" using confirm(1) by (auto simp: sy_live_def)
  have "clients_owned ?\<sigma>"
    by (rule clients_owned_upd [of \<sigma> h]) (use confirm(3) live confirm_clients [OF confirm(2)] in \<open>auto simp: sy_inv_def\<close>)
  moreover have "srv_inv s" using confirm srv_inv_confirm by (auto simp: sy_inv_def)
  moreover have "ids_unique ?\<sigma>" using confirm(3) live(1) by (auto simp: sy_inv_def ids_unique_def)
  ultimately show ?case by (simp add: sy_inv_def)
next
  case (confirm_fails h \<sigma> gz up e s)
  have live: "h \<in> sy_live \<sigma>" using confirm_fails(1) by (simp add: sy_live_def)
  have "clients_owned (\<sigma>\<lparr>sy_server := s\<rparr>)"
    by (rule clients_owned_upd [of \<sigma> h])
      (use confirm_fails(3) live confirm_clients [OF confirm_fails(2)] in \<open>auto simp: sy_inv_def sy_live_def\<close>)
  then show ?case
    by (rule sy_inv_end [rotated, where \<sigma> = \<sigma> and s = s and h = h])
      (use confirm_fails live srv_inv_confirm in \<open>auto simp: sy_inv_def ids_unique_def sy_live_def\<close>)
next
  case (abort h \<sigma> gz up)
  have "clients_owned (\<sigma>\<lparr>sy_server := sy_server \<sigma>\<rparr>)" using abort(2) by (simp add: sy_inv_def)
  then show ?case
    by (rule sy_inv_end [rotated, where \<sigma> = \<sigma> and s = "sy_server \<sigma>" and h = h])
      (use abort in \<open>auto simp: sy_inv_def ids_unique_def sy_live_def\<close>)
next
  case (round h c \<sigma> gz gunzip up draws inc s)
  then have "srv_inv (sy_server \<sigma>)" by (simp add: sy_inv_def)
  from serve_keeps [OF this, of gz gunzip up draws c h inc] round show ?case
    by (intro sy_inv_server) auto
next
  case (last_round h c \<sigma> gz gunzip up draws inc s)
  then have "srv_inv (sy_server \<sigma>)" by (simp add: sy_inv_def)
  from serve_keeps [OF this, of gz gunzip up draws c h inc] last_round
  have s: "srv_inv s" "sy_inv (\<sigma>\<lparr>sy_server := s\<rparr>)" by (auto intro: sy_inv_server)
  then have "clients_owned (\<sigma>\<lparr>sy_server := s\<rparr>)" by (simp add: sy_inv_def)
  from sy_inv_leave [OF s(1) this _ last_round(1)] last_round(3) show ?case by (simp add: sy_inv_def)
next
  case (leave h c \<sigma> gz up)
  let ?s = "if c = None then srv_emit (CancelNetwork (hd_ws h)) (sy_server \<sigma>) else sy_server \<sigma>"
  have "tables ?s = tables (sy_server \<sigma>)" by simp
  with leave(2) have s: "srv_inv ?s" "fewer_clients (sy_server \<sigma>) ?s"
    by (blast intro: srv_inv_tables fewer_tables sy_inv_def [THEN iffD1, THEN conjunct1])+
  from sy_inv_server [OF leave(2) this] have "sy_inv (\<sigma>\<lparr>sy_server := ?s\<rparr>)" .
  then have "clients_owned (\<sigma>\<lparr>sy_server := ?s\<rparr>)" by (simp add: sy_inv_def)
  from sy_inv_leave [OF s(1) this _ leave(1)] leave(2) show ?case by (simp only: sy_inv_def)
qed

lemma sy_inv_init: "sy_inv (sy_init ports wait_client)"
  by (simp add: sy_inv_def sy_init_def clients_owned_def ids_unique_def sy_live_def clients_of_def srv_init_def
      srv_inv_init [unfolded srv_init_def])

interpretation running: transition_system "\<lambda>\<sigma>. \<exists>ports wait_client. \<sigma> = sy_init ports wait_client" sy_step sy_inv
  by unfold_locales (auto intro: sy_inv_init sy_inv_step)

lemma reachable_steps: "reachable ports wait_client \<sigma> \<Longrightarrow> sy_step\<^sup>*\<^sup>* (sy_init ports wait_client) \<sigma>"
  by (induction rule: reachable.induct) auto

theorem sy_inv_reachable: "reachable ports wait_client \<sigma> \<Longrightarrow> sy_inv \<sigma>"
  using running.reached_inv reachable_steps by blast

section \<open>What holds in every reachable state\<close>

lemma reachable_inv: "reachable ports wait_client \<sigma> \<Longrightarrow> srv_inv (sy_server \<sigma>)"
  using sy_inv_reachable by (simp add: sy_inv_def)

text \<open>
  C5. Whatever the interleaving of calls, connections and tasks, two reverse tokens never share a SOCKS
  port, an assigned port is a positive or at least non-zero number marked as used, and the pool does
  not hand it out again while the token exists. (Port -1 marks tokens without a SOCKS server.)
\<close>

theorem reachable_ports_unique:
  assumes "reachable ports wait_client \<sigma>" "s = sy_server \<sigma>"
    and "dict_get (srv_tokens s) t = Some p" "p \<noteq> - 1"
  shows "p \<noteq> 0 \<and> p \<in> pp_used (srv_port_pool s) \<and>
    (\<forall>u. dict_get (srv_tokens s) u = Some p \<longrightarrow> u = t) \<and>
    (\<forall>draw request pool. pp_get draw request (srv_port_pool s) \<noteq> (Some p, pool))"
proof -
  have ok: "ports_ok s" using reachable_inv [OF assms(1)] assms(2) by (simp add: srv_inv_def)
  from ports_okD(1,2) [OF ok assms(3,4)] have "p \<noteq> 0" "p \<in> pp_used (srv_port_pool s)" by auto
  moreover have "u = t" if "dict_get (srv_tokens s) u = Some p" for u
    using ports_okD(3) [OF ok that assms(3,4)] .
  moreover have "pp_get draw request (srv_port_pool s) \<noteq> (Some p, pool)" for draw request pool
    using ports.get_some [of draw request "srv_port_pool s" p pool] \<open>p \<in> pp_used (srv_port_pool s)\<close> by blast
  ultimately show ?thesis by blast
qed

lemma reachable_ports_unique_witness:
  "\<exists>\<sigma>. reachable [1080] False \<sigma> \<and> dict_get (srv_tokens (sy_server \<sigma>)) (lit ''a'') = Some 1080 \<and>
     1080 \<in> pp_used (srv_port_pool (sy_server \<sigma>))"
proof -
  let ?a = "AddReverse (\<lambda>_. 0) 0 (Some (lit ''a'')) None None None False"
  let ?\<sigma> = "(sy_init [1080] False)\<lparr>sy_server := api_step ?a (sy_server (sy_init [1080] False))\<rparr>"
  have r: "reachable [1080] False ?\<sigma>" by (rule reachable.step [OF reachable.init sy_step.call])
  have g: "dict_get (srv_tokens (sy_server ?\<sigma>)) (lit ''a'') = Some 1080"
    by (simp add: sy_init_def srv_init_def add_reverse_token_def pp_init_def pp_available_def random_choice_def
        register_reverse_token_def Let_def)
  from reachable_ports_unique [OF r refl g] r g show ?thesis by auto
qed





end
