(* ===== verification/ClientUrl.thy ===== *)
theory ClientUrl
  imports Url
begin

text \<open>
  The address a client connects to (\<open>_convert_ws_path\<close>, \<open>_build_ws_url_with_auth\<close> and
  \<open>_ssl_context\<close> of class \<open>WSSocksClient\<close> in \<^verbatim>\<open>pywssocks/client.py\<close>). Parameters: \<open>host_ok\<close> as in \<^verbatim>\<open>Url\<close>; \<open>sha\<close>,
  the hexadecimal SHA-256 digest; \<open>list_repr\<close>, Python's text of a list of strings.
\<close>

section \<open>The address\<close>

definition convert_ws_path :: "(pystr \<Rightarrow> bool) \<Rightarrow> pystr \<Rightarrow> pystr res" where
  "convert_ws_path host_ok address =
     rbind (urlparse host_ok address) (\<lambda>parsed.
       let scheme = (if u_scheme parsed = lit ''http'' then lit ''ws''
             else if u_scheme parsed = lit ''https'' then lit ''wss'' else u_scheme parsed);
           path = (if u_path parsed = [] \<or> u_path parsed = lit ''/'' then lit ''/socket'' else u_path parsed)
       in Inr (urlunparse (parsed\<lparr>u_scheme := scheme, u_path := path\<rparr>)))"

datatype ssl = NoSsl | CheckedSsl | UncheckedSsl

definition ssl_context :: "(pystr \<Rightarrow> bool) \<Rightarrow> bool \<Rightarrow> pystr \<Rightarrow> ssl res" where
  "ssl_context host_ok ignore_ssl ws_url =
     rbind (urlparse host_ok ws_url) (\<lambda>parsed.
       Inr (if u_scheme parsed = lit ''ws'' then NoSsl
         else if u_scheme parsed = lit ''wss'' \<and> ignore_ssl then UncheckedSsl else CheckedSsl))"

section \<open>The authentication query\<close>

text \<open>A token that is already a digest is sent as it is.\<close>

definition looks_hashed :: "pystr \<Rightarrow> bool" where
  "looks_hashed t \<longleftrightarrow> length t = 64 \<and> (\<forall>c\<in>set t. hex_val c \<noteq> None)"

definition token_hash :: "(bytes \<Rightarrow> pystr) \<Rightarrow> pystr \<Rightarrow> (pystr, pystr list) dict \<Rightarrow> pystr res" where
  "token_hash sha token query_params =
     (case dict_get query_params (lit ''token'') of
        Some vs \<Rightarrow>
          (if looks_hashed (hd vs) then Inr (hd vs) else rbind (utf8_encode (hd vs)) (\<lambda>b. Inr (sha b)))
      | None \<Rightarrow> rbind (utf8_encode token) (\<lambda>b. Inr (sha b)))"

definition auth_fields ::
    "(pystr list \<Rightarrow> pystr) \<Rightarrow> pystr \<Rightarrow> bool \<Rightarrow> uuid \<Rightarrow> (pystr, pystr list) dict \<Rightarrow> (pystr \<times> pystr) list" where
  "auth_fields list_repr hash reverse inst query_params =
     (let new_params = [(lit ''token'', hash),
            (lit ''reverse'', if reverse then lit ''true'' else lit ''false''),
            (lit ''instance'', uuid_str inst)] in
      new_params @
      map (\<lambda>(key, values). (key, if length values = 1 then hd values else list_repr values))
        (filter (\<lambda>(key, values). \<not> has_key new_params key) query_params))"

definition build_ws_url_with_auth ::
    "(pystr \<Rightarrow> bool) \<Rightarrow> (bytes \<Rightarrow> pystr) \<Rightarrow> (pystr list \<Rightarrow> pystr) \<Rightarrow> pystr \<Rightarrow> pystr \<Rightarrow> bool \<Rightarrow> uuid \<Rightarrow> pystr res" where
  "build_ws_url_with_auth host_ok sha list_repr ws_url token reverse inst =
     rbind (urlparse host_ok ws_url) (\<lambda>parsed.
       if u_path parsed \<noteq> lit ''/socket'' then Inr ws_url
       else
         (let query_params = parse_qs (u_query parsed) in
          rbind (token_hash sha token query_params) (\<lambda>hash.
          rbind (urlencode (auth_fields list_repr hash reverse inst query_params)) (\<lambda>new_query.
            Inr (urlunparse (parsed\<lparr>u_query := new_query\<rparr>))))))"

section \<open>Simple addresses\<close>

text \<open>
  An address \<open>scheme://host\<close> with a plain scheme and a network location in printing ASCII characters,
  without those that end it and without brackets.
\<close>

definition plain_host :: "pystr \<Rightarrow> bool" where
  "plain_host host \<longleftrightarrow> host \<noteq> [] \<and> (\<forall>c\<in>set host. 32 < c \<and> c < 128 \<and> c \<notin> {47, 63, 35, 91, 93})"

definition plain_url :: "pystr \<Rightarrow> pystr \<Rightarrow> pystr \<Rightarrow> pystr" where
  "plain_url scheme host rest = scheme @ [58, 47, 47] @ host @ rest"

lemma host_chars:
  "plain_host host \<Longrightarrow> c \<in> set host \<Longrightarrow> c \<notin> {47, 63, 35, 91, 93} \<and> 32 < c"
  by (auto simp: plain_host_def)

lemma take_while_host:
  assumes "plain_host host" "rest = [] \<or> hd rest \<in> {47, 63, 35}"
  shows "takeWhile (\<lambda>c. c \<notin> {47, 63, 35}) (host @ rest) = host"
    "dropWhile (\<lambda>c. c \<notin> {47, 63, 35}) (host @ rest) = rest"
proof -
  have a: "\<forall>c\<in>set host. c \<notin> {47, 63, 35}" using host_chars [OF assms(1)] by blast
  have r: "takeWhile (\<lambda>c. c \<notin> {47, 63, 35}) rest = [] \<and> dropWhile (\<lambda>c. c \<notin> {47, 63, 35}) rest = rest"
    using assms(2) by (cases rest) auto
  from a r show "takeWhile (\<lambda>c. c \<notin> {47, 63, 35}) (host @ rest) = host"
    "dropWhile (\<lambda>c. c \<notin> {47, 63, 35}) (host @ rest) = rest"
    by (auto simp: takeWhile_append2 dropWhile_append2)
qed

lemma clean_plain: "\<forall>c\<in>set s. 32 < c \<Longrightarrow> clean_url s = s"
proof -
  assume a: "\<forall>c\<in>set s. 32 < c"
  then have "dropWhile (\<lambda>c. c \<le> 32) s = s" by (cases s) auto
  with a show ?thesis by (auto simp: clean_url_def filter_id_conv)
qed

definition plain_scheme :: "pystr \<Rightarrow> bool" where
  "plain_scheme s \<longleftrightarrow>
     s \<noteq> [] \<and> is_alpha (hd s) \<and> (\<forall>c\<in>set s. 97 \<le> c \<and> c \<le> 122 \<or> is_digit c)"

lemma split_scheme_plain:
  assumes "plain_scheme scheme"
  shows "split_scheme (scheme @ 58 # rest) = (scheme, rest)"
proof -
  have "58 \<notin> set scheme" using assms by (auto simp: plain_scheme_def is_digit_def)
  from cut_found [OF this] have "cut 58 (scheme @ 58 # rest) = (scheme, Some rest)" .
  moreover have "lower scheme = scheme"
    unfolding lower_def using assms by (intro map_idI) (auto simp: plain_scheme_def is_digit_def)
  moreover have "scheme \<noteq> [] \<and> is_alpha (hd scheme) \<and> list_all scheme_char scheme"
    using assms by (auto simp: plain_scheme_def is_alpha_def scheme_char_def list_all_iff is_digit_def)
  ultimately show ?thesis by (simp add: split_scheme_def)
qed

lemma urlparse_plain:
  assumes "plain_scheme scheme" "plain_host host"
    and "rest = [] \<or> hd rest \<in> {47, 63, 35}" "\<forall>c\<in>set rest. 32 < c"
    and "cut 35 rest = (r1, fragment)" "cut 63 r1 = (path, query)"
    and "59 \<notin> set path"
  shows "urlparse host_ok (plain_url scheme host rest) =
    Inr \<lparr>u_scheme = scheme, u_netloc = host, u_path = path, u_params = [],
      u_query = or_empty query, u_fragment = or_empty fragment\<rparr>"
proof -
  have "\<forall>c\<in>set (plain_url scheme host rest). 32 < c"
    using assms(1,4) host_chars [OF assms(2)] by (auto simp: plain_url_def plain_scheme_def is_digit_def)
  from clean_plain [OF this] have "clean_url (plain_url scheme host rest) = plain_url scheme host rest" .
  moreover have "split_scheme (plain_url scheme host rest) = (scheme, [47, 47] @ host @ rest)"
    using split_scheme_plain [OF assms(1), of "[47, 47] @ host @ rest"] by (simp add: plain_url_def)
  moreover have "split_netloc ([47, 47] @ host @ rest) = (host, rest)"
    using take_while_host [OF assms(2,3)] by (simp add: split_netloc_def)
  moreover have "91 \<notin> set host \<and> 93 \<notin> set host" using host_chars [OF assms(2)] by blast
  moreover have "unchecked_host host"
    using assms(2) by (auto simp: unchecked_host_def ascii_def plain_host_def)
  moreover have "split_params path = (path, [])"
  proof -
    have "59 \<notin> set (rev (takeWhile (\<lambda>c. c \<noteq> 47) (rev path)))"
      using assms(7) by (auto dest: set_takeWhileD)
    from cut_none [OF this] show ?thesis by (simp add: split_params_def Let_def)
  qed
  ultimately show ?thesis using assms(5,6) by (simp add: urlparse_def)
qed

end
