(* ===== verification/Client.thy ===== *)
theory Client
  imports ClientUrl Conn Relay ConnectorCache Codec
begin

text \<open>
  The client (class \<open>WSSocksClient\<close> of \<^verbatim>\<open>pywssocks/client.py\<close>): its state, the message dispatcher, the
  connection attempts with their outcome, the local SOCKS server, and the management of connectors.

  What the environment contributes to a connection attempt is the record \<open>attempt\<close>. What the client hands
  to its connection and to the event loop is appended to \<open>cl_actions\<close>.
\<close>

section \<open>State\<close>

datatype client_action =
    Dial pystr ssl
  | SendFrame ws bytes
  | HandleConnect ws message
  | RunSocksServer
  | HandleSocks nat
  | Sleep nat

record client = relay +
  cl_ws_url :: pystr
  cl_token :: pystr
  cl_reverse :: bool
  cl_reconnect :: bool
  cl_reconnect_interval :: nat
  cl_ignore_ssl :: bool
  cl_socks_username :: "pystr option"
  cl_socks_password :: "pystr option"
  cl_socks_wait_server :: bool
  cl_socks_server :: bool
  cl_websocket :: "ws option"
  cl_connected :: bool
  cl_disconnected :: bool
  cl_num_partners :: json
  cl_actions :: "client_action list"

definition client_init ::
    "(pystr \<Rightarrow> bool) \<Rightarrow> pystr \<Rightarrow> pystr \<Rightarrow> bool \<Rightarrow> pystr option \<Rightarrow> pystr option \<Rightarrow> bool \<Rightarrow> bool \<Rightarrow> nat \<Rightarrow> bool \<Rightarrow>
     client res" where
  "client_init host_ok token ws_url reverse socks_username socks_password socks_wait_server reconnect
      reconnect_interval ignore_ssl =
     rbind (convert_ws_path host_ok ws_url) (\<lambda>ws_url.
       Inr \<lparr>message_queues = [], udp_client_addrs = [], tcp_tasks = [], udp_tasks = [],
         connection_success_map = [], done_tasks = {}, cancelled = [], queue_timers = [], rl_clock = 0,
         cl_ws_url = ws_url, cl_token = token, cl_reverse = reverse, cl_reconnect = reconnect,
         cl_reconnect_interval = reconnect_interval, cl_ignore_ssl = ignore_ssl,
         cl_socks_username = socks_username, cl_socks_password = socks_password,
         cl_socks_wait_server = socks_wait_server, cl_socks_server = False, cl_websocket = None,
         cl_connected = False, cl_disconnected = False, cl_num_partners = JInt 0, cl_actions = []\<rparr>)"

definition cl_emit :: "client_action \<Rightarrow> client \<Rightarrow> client" where
  "cl_emit a c = c\<lparr>cl_actions := cl_actions c @ [a]\<rparr>"

section \<open>Messages from the server\<close>

text \<open>
  A dictionary of log functions is indexed by the level, which the server chooses: a list or a
  dictionary as level is not hashable. \<open>put_message\<close> drops a message whose queue does not exist.
\<close>

fun hashable :: "json \<Rightarrow> bool" where
  "hashable (JList _) = False"
| "hashable (JDict _) = False"
| "hashable _ = True"

fun client_message :: "ws \<Rightarrow> message \<Rightarrow> client \<Rightarrow> unit res \<times> client" where
  "client_message w (DataMessage protocol channel_id data compression a p ta tp) c =
     (Inr (), put_message (uuid_str channel_id) (DataMessage protocol channel_id data compression a p ta tp) c)"
| "client_message w (ConnectMessage protocol channel_id address port) c =
     (Inr (), cl_emit (HandleConnect w (ConnectMessage protocol channel_id address port))
        (open_queue (uuid_str channel_id) c))"
| "client_message w (ConnectResponseMessage success channel_id error) c =
     (Inr (), put_message (uuid_str channel_id) (ConnectResponseMessage success channel_id error) c)"
| "client_message w (AuthResponseMessage success error) c =
     (Inr (), put_message (lit ''auth'') (AuthResponseMessage success error) c)"
| "client_message w (DisconnectMessage channel_id error) c =
     (Inr (), disconnect_channel (uuid_str channel_id) default_delay c)"
| "client_message w (ConnectorResponseMessage success channel_id error token) c =
     (Inr (), put_message (uuid_str channel_id) (ConnectorResponseMessage success channel_id error token) c)"
| "client_message w (LogMessage level text') c =
     (if hashable level then (Inr (), c) else (Inl TypeError, c))"
| "client_message w (PartnersMessage count) c = (Inr (), c\<lparr>cl_num_partners := count\<rparr>)"
| "client_message w _ c = (Inr (), c)"

text \<open>One round of the dispatcher loop, and whether it goes on.\<close>

definition client_round :: "(bytes \<Rightarrow> bytes res) \<Rightarrow> ws \<Rightarrow> frame \<Rightarrow> client \<Rightarrow> bool \<times> client" where
  "client_round gunzip w received c =
     (case received of
        EndOfStream \<Rightarrow> (False, c)
      | TextFrame \<Rightarrow> (True, c)
      | Binary bs \<Rightarrow>
          (case parse_message gunzip bs of
             Inl e \<Rightarrow> (True, c)
           | Inr msg \<Rightarrow>
               (case client_message w msg c of
                  (Inl e, c) \<Rightarrow> (False, c)
                | (Inr _, c) \<Rightarrow> (True, c))))"

fun client_dispatcher :: "(bytes \<Rightarrow> bytes res) \<Rightarrow> ws \<Rightarrow> frame list \<Rightarrow> client \<Rightarrow> client" where
  "client_dispatcher gunzip w [] c = c"
| "client_dispatcher gunzip w (f # fs) c =
     (case client_round gunzip w f c of
        (True, c) \<Rightarrow> client_dispatcher gunzip w fs c
      | (False, c) \<Rightarrow> c)"

section \<open>Connection attempts\<close>

text \<open>
  What happens to one attempt: the result of connecting (a close has the code the server gave, if
  any), whether the authentication message can be sent, what is received in answer, and all that
  happens while the tasks of an accepted connection run, up to the first of them to end.
\<close>

datatype dialled = Connected ws | NotConnected | ClosedByServer "int option"

datatype answer = AnswerFrame frame | AnswerClose "int option"

record attempt =
  at_instance :: uuid
  at_dialled :: dialled
  at_send_close :: "int option option"
  at_answer :: answer
  at_session :: "client \<Rightarrow> client"

datatype next_step = Retry nat | Exit

definition after_error :: "client \<Rightarrow> next_step" where
  "after_error c = (if cl_reconnect c then Retry (cl_reconnect_interval c) else Exit)"

definition after_close :: "int option \<Rightarrow> client \<Rightarrow> next_step" where
  "after_close code c =
     (if code = Some 1000 \<or> code = Some 1008 then Exit
      else if cl_reconnect c then Retry (cl_reconnect_interval c) else Exit)"

definition hold_session :: "(client \<Rightarrow> client) \<Rightarrow> client \<Rightarrow> next_step \<times> client" where
  "hold_session session c = (Retry 0, session (c\<lparr>cl_connected := True, cl_disconnected := False\<rparr>))"

definition take_answer :: "(bytes \<Rightarrow> bytes res) \<Rightarrow> attempt \<Rightarrow> client \<Rightarrow> next_step \<times> client" where
  "take_answer gunzip att c =
     (case at_answer att of
        AnswerClose code \<Rightarrow> (after_close code c, c)
      | AnswerFrame (Binary bs) \<Rightarrow>
          (case parse_message gunzip bs of
             Inr (AuthResponseMessage success error) \<Rightarrow>
               (if success then hold_session (at_session att) c else (Exit, c))
           | _ \<Rightarrow> (after_error c, c))
      | AnswerFrame TextFrame \<Rightarrow> (after_error c, c)
      | AnswerFrame EndOfStream \<Rightarrow> (after_close None c, c))"

definition prepare_session :: "ws \<Rightarrow> client \<Rightarrow> client" where
  "prepare_session w c =
     (let c = c\<lparr>cl_websocket := Some w\<rparr>;
          c = (if cl_reverse c then c else cl_emit RunSocksServer c)
      in open_queue (lit ''auth'') c)"

definition open_session :: "(bytes \<Rightarrow> bytes res) \<Rightarrow> attempt \<Rightarrow> ws \<Rightarrow> client \<Rightarrow> next_step \<times> client" where
  "open_session gunzip att w c =
     (let c = prepare_session w c in
      case pack_message id (AuthMessage (cl_token c) (cl_reverse c) (at_instance att)) of
        Inl e \<Rightarrow> (after_error c, c)
      | Inr bs \<Rightarrow>
          (case at_send_close att of
             Some code \<Rightarrow> (after_close code c, c)
           | None \<Rightarrow> take_answer gunzip att (cl_emit (SendFrame w bs) c)))"

definition leave_session :: "client \<Rightarrow> client" where
  "leave_session c = c\<lparr>cl_websocket := None, cl_connected := False, cl_disconnected := True\<rparr>"

definition connect_once ::
    "(pystr \<Rightarrow> bool) \<Rightarrow> (bytes \<Rightarrow> pystr) \<Rightarrow> (pystr list \<Rightarrow> pystr) \<Rightarrow> (bytes \<Rightarrow> bytes res) \<Rightarrow> attempt \<Rightarrow> client \<Rightarrow>
     next_step \<times> client" where
  "connect_once host_ok sha list_repr gunzip att c =
     (case (case build_ws_url_with_auth host_ok sha list_repr (cl_ws_url c) (cl_token c) (cl_reverse c)
              (at_instance att) of
              Inl e \<Rightarrow> (after_error c, c)
            | Inr url \<Rightarrow>
                (case ssl_context host_ok (cl_ignore_ssl c) (cl_ws_url c) of
                   Inl e \<Rightarrow> (after_error c, c)
                 | Inr ctx \<Rightarrow>
                     (let c = cl_emit (Dial url ctx) c in
                      case at_dialled att of
                        NotConnected \<Rightarrow> (after_error c, c)
                      | ClosedByServer code \<Rightarrow> (after_close code c, c)
                      | Connected w \<Rightarrow> open_session gunzip att w c))) of
        (n, c) \<Rightarrow> (n, leave_session c))"

text \<open>\<open>_start_forward\<close> and \<open>_start_reverse\<close>: attempts until one says to exit.\<close>

fun run_attempts ::
    "(pystr \<Rightarrow> bool) \<Rightarrow> (bytes \<Rightarrow> pystr) \<Rightarrow> (pystr list \<Rightarrow> pystr) \<Rightarrow> (bytes \<Rightarrow> bytes res) \<Rightarrow> attempt list \<Rightarrow> client \<Rightarrow>
     bool \<times> client" where
  "run_attempts host_ok sha list_repr gunzip [] c = (True, c)"
| "run_attempts host_ok sha list_repr gunzip (att # atts) c =
     (case connect_once host_ok sha list_repr gunzip att c of
        (Exit, c) \<Rightarrow> (False, c)
      | (Retry d, c) \<Rightarrow>
          run_attempts host_ok sha list_repr gunzip atts (if d = 0 then c else cl_emit (Sleep d) c))"

definition start_client ::
    "(pystr \<Rightarrow> bool) \<Rightarrow> (bytes \<Rightarrow> pystr) \<Rightarrow> (pystr list \<Rightarrow> pystr) \<Rightarrow> (bytes \<Rightarrow> bytes res) \<Rightarrow> attempt list \<Rightarrow> client \<Rightarrow>
     bool \<times> client" where
  "start_client host_ok sha list_repr gunzip atts c =
     run_attempts host_ok sha list_repr gunzip atts
       (if \<not> cl_reverse c \<and> \<not> cl_socks_wait_server c then cl_emit RunSocksServer c else c)"

section \<open>The local SOCKS server\<close>

text \<open>
  \<open>_run_socks_server\<close>: the accepted sockets and the errors of \<^verbatim>\<open>sock_accept\<close> in order. An error is logged and
  the loop goes on. The result says whether the socket could be bound; nothing is raised.
\<close>

fun accept_loop :: "nat res list \<Rightarrow> client \<Rightarrow> client" where
  "accept_loop [] c = c"
| "accept_loop (Inr sock # r) c = accept_loop r (cl_emit (HandleSocks sock) c)"
| "accept_loop (Inl e # r) c = accept_loop r c"

definition client_socks_server :: "bool \<Rightarrow> nat res list \<Rightarrow> client \<Rightarrow> client" where
  "client_socks_server bind_ok accepted c =
     (if cl_socks_server c then c
      else if \<not> bind_ok then c
      else accept_loop accepted (c\<lparr>cl_socks_server := True\<rparr>))"

text \<open>
  \<open>_handle_socks_request\<close>: up to 10 seconds for a connection to the server, looking every tenth of a
  second; \<open>looks\<close> are the times in milliseconds with the connection seen. \<open>None\<close>: the request is refused.
\<close>

fun wait_for_server :: "(nat \<times> ws option) list \<Rightarrow> ws option" where
  "wait_for_server [] = None"
| "wait_for_server ((ms, w) # looks) =
     (if 10000 \<le> ms then None else if w \<noteq> None then w else wait_for_server looks)"

section \<open>Managing connectors\<close>

text \<open>
  \<open>add_connector\<close> and \<open>remove_connector\<close>: a request on a fresh channel, and up to 10 seconds for the
  answer; \<open>meanwhile\<close> is what happens to the client in that time, \<open>up\<close> whether the send succeeds. The queue is found under its key again, so
  \<open>meanwhile\<close> stands for events that do not disconnect the fresh channel.
\<close>

definition connector_request ::
    "pystr \<Rightarrow> (ws \<Rightarrow> bool) \<Rightarrow> (client \<Rightarrow> client) \<Rightarrow> uuid \<Rightarrow> pystr \<Rightarrow> pystr \<Rightarrow> client \<Rightarrow> pystr res \<times> client" where
  "connector_request not_reverse up meanwhile channel_id operation connector_token c =
     (if \<not> cl_reverse c then (Inl (RuntimeError not_reverse), c)
      else case cl_websocket c of
        None \<Rightarrow> (Inl (RuntimeError (lit ''Client not connected'')), c)
      | Some w \<Rightarrow>
          (let c = open_queue (uuid_str channel_id) c in
           case (case pack_message id (ConnectorMessage channel_id connector_token operation) of
                   Inl e \<Rightarrow> (Inl e, c)
                 | Inr bs \<Rightarrow>
                     (if \<not> up w then (Inl ConnectionClosed, c)
                      else
                        (case take_message (uuid_str channel_id) (meanwhile (cl_emit (SendFrame w bs) c)) of
                           (None, c) \<Rightarrow> (value_error ''Timeout waiting for connector response'', c)
                         | (Some (ConnectorResponseMessage success ch error new_token), c) \<Rightarrow>
                             (if success then Inr (case new_token of None \<Rightarrow> [] | Some t \<Rightarrow> t)
                              else Inl (ValueError (lit ''Connector request failed: '' @
                                (case error of None \<Rightarrow> lit ''None'' | Some e \<Rightarrow> e))), c)
                         | (Some m, c) \<Rightarrow>
                             (value_error ''Unexpected message type for connector response'', c)))) of
             (r, c) \<Rightarrow> (r, remove_queue (uuid_str channel_id) c)))"

definition add_connector ::
    "(ws \<Rightarrow> bool) \<Rightarrow> (client \<Rightarrow> client) \<Rightarrow> uuid \<Rightarrow> pystr \<Rightarrow> client \<Rightarrow> pystr res \<times> client" where
  "add_connector up meanwhile channel_id connector_token =
     connector_request (lit ''Add connector is only available in reverse proxy mode'') up meanwhile channel_id
       (lit ''add'') connector_token"

definition remove_connector ::
    "(ws \<Rightarrow> bool) \<Rightarrow> (client \<Rightarrow> client) \<Rightarrow> uuid \<Rightarrow> pystr \<Rightarrow> client \<Rightarrow> unit res \<times> client" where
  "remove_connector up meanwhile channel_id connector_token c =
     (case connector_request (lit ''Remove connector is only available in reverse proxy mode'') up meanwhile
             channel_id (lit ''remove'') connector_token c of
        (Inl e, c) \<Rightarrow> (Inl e, c)
      | (Inr _, c) \<Rightarrow> (Inr (), c))"

section \<open>What follows an attempt\<close>

lemma leave_session_simps [simp]:
  "cl_websocket (leave_session c) = None" "\<not> cl_connected (leave_session c)"
  "cl_disconnected (leave_session c)"
  by (simp_all add: leave_session_def)

text \<open>An attempt that comes as far as the answer to the authentication message \<open>auth\<close>.\<close>

definition reaches_answer ::
    "(pystr \<Rightarrow> bool) \<Rightarrow> (bytes \<Rightarrow> pystr) \<Rightarrow> (pystr list \<Rightarrow> pystr) \<Rightarrow> attempt \<Rightarrow> client \<Rightarrow> bool" where
  "reaches_answer host_ok sha list_repr att c \<longleftrightarrow>
     (\<exists>url ctx w bs.
        build_ws_url_with_auth host_ok sha list_repr (cl_ws_url c) (cl_token c) (cl_reverse c) (at_instance att) =
          Inr url \<and>
        ssl_context host_ok (cl_ignore_ssl c) (cl_ws_url c) = Inr ctx \<and> at_dialled att = Connected w \<and>
        pack_message id (AuthMessage (cl_token c) (cl_reverse c) (at_instance att)) = Inr bs \<and>
        at_send_close att = None)"

text \<open>The answers that accept and that reject the client.\<close>

definition accepts :: "(bytes \<Rightarrow> bytes res) \<Rightarrow> attempt \<Rightarrow> bool \<Rightarrow> bool" where
  "accepts gunzip att success \<longleftrightarrow>
     (\<exists>bs error. at_answer att = AnswerFrame (Binary bs) \<and>
        parse_message gunzip bs = Inr (AuthResponseMessage success error))"

text \<open>The close code an attempt ends with, where it ends with a close.\<close>

definition close_code :: "attempt \<Rightarrow> int option" where
  "close_code att =
     (case at_dialled att of
        ClosedByServer code \<Rightarrow> code
      | NotConnected \<Rightarrow> None
      | Connected w \<Rightarrow>
          (case at_send_close att of
             Some code \<Rightarrow> code
           | None \<Rightarrow> (case at_answer att of AnswerClose code \<Rightarrow> code | _ \<Rightarrow> None)))"

lemma settings_simps [simp]:
  "cl_token (cl_emit a c) = cl_token c" "cl_reverse (cl_emit a c) = cl_reverse c"
  "cl_token (prepare_session w c) = cl_token c" "cl_reverse (prepare_session w c) = cl_reverse c"
  "after_error (cl_emit a c) = after_error c" "after_close k (cl_emit a c) = after_close k c"
  "after_error (prepare_session w c) = after_error c" "after_close k (prepare_session w c) = after_close k c"
  by (simp_all add: after_error_def after_close_def cl_emit_def prepare_session_def open_queue_def Let_def)

lemma take_answer_cases:
  assumes "take_answer gunzip att c = (n, c')"
  obtains (accepted) "accepts gunzip att True" "n = Retry 0"
      "c' = at_session att (c\<lparr>cl_connected := True, cl_disconnected := False\<rparr>)"
  | (rejected) "accepts gunzip att False" "n = Exit" "c' = c"
  | (closed) code where "\<not> accepts gunzip att True" "\<not> accepts gunzip att False" "at_answer att = AnswerClose code"
      "n = after_close code c" "c' = c"
  | (other) "\<not> accepts gunzip att True" "\<not> accepts gunzip att False" "\<nexists>code. at_answer att = AnswerClose code"
      "n = after_error c" "c' = c"
proof (cases "at_answer att")
  case (AnswerClose code)
  with assms show thesis by (intro closed) (auto simp: take_answer_def accepts_def)
next
  case (AnswerFrame f)
  show thesis
  proof (cases "\<exists>bs s e. f = Binary bs \<and> parse_message gunzip bs = Inr (AuthResponseMessage s e)")
    case True
    then obtain bs s e where f: "f = Binary bs" "parse_message gunzip bs = Inr (AuthResponseMessage s e)" by blast
    with AnswerFrame assms show thesis
      by (cases s) (auto simp: take_answer_def accepts_def hold_session_def intro: accepted rejected)
  next
    case False
    then have "take_answer gunzip att c = (after_error c, c)"
      using AnswerFrame
      by (auto simp: take_answer_def after_close_def after_error_def split: frame.split sum.split message.split)
    with AnswerFrame False assms show thesis by (intro other) (auto simp: accepts_def)
  qed
qed

lemma next_step_cases:
  "after_error c = Retry (cl_reconnect_interval c) \<and> cl_reconnect c \<or> after_error c = Exit \<and> \<not> cl_reconnect c"
  "after_close k c = Retry (cl_reconnect_interval c) \<and> cl_reconnect c \<or>
   after_close k c = Exit \<and> (\<not> cl_reconnect c \<or> k \<in> {Some 1000, Some 1008})"
  by (simp_all add: after_error_def after_close_def)

text \<open>An attempt whose answer is waited for ends as the answer says, the others with an error or a close.\<close>

lemma connect_answered:
  assumes "reaches_answer host_ok sha list_repr att c"
  obtains w d m e where "at_dialled att = Connected w" "at_send_close att = None"
    "take_answer gunzip att d = (m, e)" "connect_once host_ok sha list_repr gunzip att c = (m, leave_session e)"
    "after_error d = after_error c" "\<And>k. after_close k d = after_close k c"
proof -
  from assms obtain url ctx w bs where r:
    "build_ws_url_with_auth host_ok sha list_repr (cl_ws_url c) (cl_token c) (cl_reverse c) (at_instance att) = Inr url"
    "ssl_context host_ok (cl_ignore_ssl c) (cl_ws_url c) = Inr ctx" "at_dialled att = Connected w"
    "pack_message id (AuthMessage (cl_token c) (cl_reverse c) (at_instance att)) = Inr bs" "at_send_close att = None"
    by (auto simp: reaches_answer_def simp del: pack_message.simps)
  let ?d = "cl_emit (SendFrame w bs) (prepare_session w (cl_emit (Dial url ctx) c))"
  obtain m e where t: "take_answer gunzip att ?d = (m, e)" by fastforce
  have "connect_once host_ok sha list_repr gunzip att c = (m, leave_session e)"
    using r t by (simp add: connect_once_def open_session_def Let_def del: pack_message.simps)
  from that [OF r(3,5) t this] show thesis by simp
qed

lemma connect_unanswered:
  assumes "\<not> reaches_answer host_ok sha list_repr att c" "connect_once host_ok sha list_repr gunzip att c = (n, c')"
  shows "n = after_error c \<or> n = after_close (close_code att) c"
proof -
  let ?b = "build_ws_url_with_auth host_ok sha list_repr (cl_ws_url c) (cl_token c) (cl_reverse c) (at_instance att)"
  let ?s = "ssl_context host_ok (cl_ignore_ssl c) (cl_ws_url c)"
  let ?p = "pack_message id (AuthMessage (cl_token c) (cl_reverse c) (at_instance att))"
  show ?thesis
  proof (cases "\<exists>url ctx w. ?b = Inr url \<and> ?s = Inr ctx \<and> at_dialled att = Connected w")
    case True
    then obtain url ctx w where r: "?b = Inr url" "?s = Inr ctx" "at_dialled att = Connected w" by blast
    with assms(1) have "(\<exists>e. ?p = Inl e) \<or> (\<exists>k. at_send_close att = Some k)"
      by (cases ?p) (auto simp: reaches_answer_def simp del: pack_message.simps)
    with r assms(2) show ?thesis
      by (cases ?p) (auto simp: connect_once_def open_session_def Let_def close_code_def
        simp del: pack_message.simps split: option.splits)
  next
    case False
    with assms(2) show ?thesis
      by (auto simp: connect_once_def Let_def close_code_def split: sum.splits dialled.splits)
  qed
qed

text \<open>
  C29. When the client connects again. An attempt whose authentication is accepted is followed by the
  next one at once when its session ends, for whatever reason and whether or not the client is
  configured to reconnect; a rejected client stops; every other attempt is followed, if the client is
  configured to reconnect and the server has not closed the connection with code 1000 or 1008, by
  the next one after the interval, and is otherwise the last. In each case the client is left
  disconnected.
\<close>

theorem reconnect_policy:
  assumes "connect_once host_ok sha list_repr gunzip att c = (n, c')"
  shows "cl_websocket c' = None \<and> \<not> cl_connected c' \<and> cl_disconnected c' \<and>
    (if reaches_answer host_ok sha list_repr att c \<and> accepts gunzip att True then n = Retry 0
     else if reaches_answer host_ok sha list_repr att c \<and> accepts gunzip att False then n = Exit
     else n = Retry (cl_reconnect_interval c) \<and> cl_reconnect c \<or>
       n = Exit \<and> (\<not> cl_reconnect c \<or> close_code att \<in> {Some 1000, Some 1008}))"
proof -
  obtain f where "c' = leave_session f" using assms by (auto simp: connect_once_def split: prod.splits)
  then have left: "cl_websocket c' = None \<and> \<not> cl_connected c' \<and> cl_disconnected c'" by simp
  show ?thesis
  proof (cases "reaches_answer host_ok sha list_repr att c")
    case True
    from connect_answered [OF True, of gunzip] obtain w d m e where
      r: "at_dialled att = Connected w" "at_send_close att = None" and t: "take_answer gunzip att d = (m, e)"
      and n: "connect_once host_ok sha list_repr gunzip att c = (m, leave_session e)"
      and d: "after_error d = after_error c" "\<And>k. after_close k d = after_close k c" by blast
    from n assms have m: "n = m" by simp
    from t show ?thesis
    proof (cases rule: take_answer_cases)
      case rejected
      moreover from this have "\<not> accepts gunzip att True" by (auto simp: accepts_def)
      ultimately show ?thesis using True m left by simp
    next
      case (closed code)
      then have "close_code att = code" using r by (simp add: close_code_def)
      with closed m d left next_step_cases(2) [of code c] show ?thesis by auto
    qed (use True m d left next_step_cases(1) [of c] in auto)
  next
    case False
    with left connect_unanswered [OF False assms] next_step_cases(1) [of c]
      next_step_cases(2) [of "close_code att" c] show ?thesis by auto
  qed
qed

text \<open>A client that must not reconnect is accepted, and is sent into another attempt.\<close>

definition once_client :: client where
  "once_client = \<lparr>message_queues = [], udp_client_addrs = [], tcp_tasks = [], udp_tasks = [],
     connection_success_map = [], done_tasks = {}, cancelled = [], queue_timers = [], rl_clock = 0,
     cl_ws_url = lit ''a'', cl_token = lit ''t'', cl_reverse = True, cl_reconnect = False,
     cl_reconnect_interval = 5, cl_ignore_ssl = False, cl_socks_username = None, cl_socks_password = None,
     cl_socks_wait_server = True, cl_socks_server = False, cl_websocket = None, cl_connected = False,
     cl_disconnected = False, cl_num_partners = JInt 0, cl_actions = []\<rparr>"

lemma reconnect_policy_witness:
  "\<exists>bs c'. connect_once (\<lambda>_. True) (\<lambda>_. []) (\<lambda>_. []) Inr
     \<lparr>at_instance = 0, at_dialled = Connected 1, at_send_close = None, at_answer = AnswerFrame (Binary bs), at_session = id\<rparr>
     once_client = (Retry 0, c') \<and> \<not> cl_reconnect once_client \<and> cl_disconnected c'"
proof -
  obtain bs where bs: "pack_message id (AuthResponseMessage True None) = Inr bs"
    using pack_message_ok_iff [of "AuthResponseMessage True None" id] by auto
  have "parse_message Inr bs = Inr (norm_message (AuthResponseMessage True None))"
    by (rule parse_pack_message [OF _ _ bs]) simp_all
  then have p: "parse_message Inr bs = Inr (AuthResponseMessage True None)"
    by (simp add: opt_text_def)
  let ?att = "\<lparr>at_instance = 0, at_dialled = Connected 1, at_send_close = None,
    at_answer = AnswerFrame (Binary bs), at_session = id\<rparr>"
  obtain ab where ab: "pack_message id (AuthMessage (lit ''t'') True 0) = Inr ab"
    using pack_message_ok_iff [of "AuthMessage (lit ''t'') True 0" id]
    by (auto simp: text_fits_def valid_char_def is_surrogate_def)
  have u: "urlparse (\<lambda>_. True) (lit ''a'') = Inr \<lparr>u_scheme = [], u_netloc = [], u_path = lit ''a'', u_params = [],
      u_query = [], u_fragment = []\<rparr>"
    by (simp add: urlparse_def clean_url_def split_scheme_def split_netloc_def cut_none unchecked_host_def
      split_params_def or_empty_def)
  have r: "reaches_answer (\<lambda>_. True) (\<lambda>_. []) (\<lambda>_. []) ?att once_client"
    using u ab by (simp add: reaches_answer_def build_ws_url_with_auth_def ssl_context_def once_client_def
      del: pack_message.simps)
  have a: "accepts Inr ?att True" using p by (auto simp: accepts_def)
  obtain n c' where c: "connect_once (\<lambda>_. True) (\<lambda>_. []) (\<lambda>_. []) Inr ?att once_client = (n, c')" by fastforce
  from reconnect_policy [OF c] r a have "n = Retry 0" "cl_disconnected c'" by auto
  with c show ?thesis by (auto simp: once_client_def)
qed

section \<open>The dispatcher and a hostile server\<close>

text \<open>A log message whose level is no scalar ends the dispatcher, and with it the session.\<close>

lemma odd_log_level_ends_round:
  "parse_message gunzip bs = Inr (LogMessage level t) \<Longrightarrow> \<not> hashable level \<Longrightarrow>
     client_round gunzip w (Binary bs) c = (False, c)"
  by (simp add: client_round_def)

text \<open>Errors of \<^verbatim>\<open>sock_accept\<close>, however many, do not end the accept loop of the client.\<close>

lemma accept_errors_ignored: "accept_loop (replicate n (Inl e) @ r) c = accept_loop r c"
  by (induction n) simp_all

end
