(* ===== verification/ClientServer.thy ===== *)
theory ClientServer
  imports System Client
begin

text \<open>
  Client and server together: the address a client dials is understood by the server it reaches, and
  a request to manage connectors travels through both dispatchers and back.
\<close>

section \<open>The address a client dials\<close>

lemma urlunparse_plain:
  assumes "plain_scheme scheme" "plain_host host" "take 1 path = [47]"
  shows "urlunparse \<lparr>u_scheme = scheme, u_netloc = host, u_path = path, u_params = [], u_query = q, u_fragment = []\<rparr> =
    plain_url scheme host (path @ (if q = [] then [] else 63 # q))"
proof -
  have "path \<noteq> []" using assms(3) by auto
  with assms show ?thesis
    by (auto simp: urlunparse_def plain_scheme_def plain_host_def plain_url_def)
qed

definition ws_scheme :: "pystr \<Rightarrow> pystr" where
  "ws_scheme scheme =
     (if scheme = lit ''http'' then lit ''ws'' else if scheme = lit ''https'' then lit ''wss'' else scheme)"

lemma convert_plain:
  assumes "plain_scheme scheme" "plain_host host" "rest \<in> {[], lit ''/'', lit ''/socket''}"
  shows "convert_ws_path host_ok (plain_url scheme host rest) = Inr (plain_url (ws_scheme scheme) host (lit ''/socket''))"
proof -
  have r: "cut 35 rest = (rest, None)" "cut 63 rest = (rest, None)" "rest = [] \<or> hd rest \<in> {47, 63, 35}"
    "\<forall>c\<in>set rest. 32 < c" "59 \<notin> set rest"
    using assms(3) by (auto simp: cut_none)
  note p = urlparse_plain [OF assms(1,2) r(3,4,1,2,5), of host_ok]
  have s: "plain_scheme (ws_scheme scheme)" using assms(1) by (simp add: ws_scheme_def plain_scheme_def is_alpha_def)
  have "convert_ws_path host_ok (plain_url scheme host rest) =
      Inr (urlunparse \<lparr>u_scheme = ws_scheme scheme, u_netloc = host, u_path = lit ''/socket'', u_params = [],
        u_query = [], u_fragment = []\<rparr>)"
    using p assms(3) by (auto simp: convert_ws_path_def or_empty_def ws_scheme_def Let_def)
  with urlunparse_plain [OF s assms(2), of "lit ''/socket''" "[]"] show ?thesis by simp
qed

text \<open>The digests are 64 lower-case hexadecimal digits.\<close>

definition hex_digest :: "pystr \<Rightarrow> bool" where
  "hex_digest d \<longleftrightarrow> length d = 64 \<and> (\<forall>c\<in>set d. lower_hex c)"

definition plain_auth :: "pystr \<Rightarrow> bool \<Rightarrow> uuid \<Rightarrow> (pystr \<times> pystr) list" where
  "plain_auth d reverse inst =
     [(lit ''token'', d), (lit ''reverse'', if reverse then lit ''true'' else lit ''false''),
      (lit ''instance'', uuid_str inst)]"

lemma uuid_str_nonempty: "uuid_str u \<noteq> []"
  by (metis length_0_conv length_uuid_str zero_neq_numeral)

lemma plain_auth_fields: "hex_digest d \<Longrightarrow> list_all plain_field (plain_auth d reverse inst)"
  using uuid_str_safe [of inst] uuid_str_nonempty [of inst] lower_hex_safe
  by (auto simp: plain_auth_def plain_field_def hex_digest_def url_safe_def [of "_ :: nat"] is_alpha_def is_digit_def)

lemma query_chars:
  "list_all plain_field fs \<Longrightarrow> \<forall>c\<in>set (query_text fs). url_safe c \<or> c \<in> {38, 61}"
  by (induction fs rule: query_text.induct) (auto simp: plain_field_def)

lemma build_plain:
  assumes "plain_scheme scheme" "plain_host host" "utf8_encode t = Inr tb" "hex_digest (sha tb)"
  shows "build_ws_url_with_auth host_ok sha list_repr (plain_url scheme host (lit ''/socket'')) t reverse inst =
    Inr (plain_url scheme host (lit ''/socket?'' @ query_text (plain_auth (sha tb) reverse inst)))"
proof -
  have r: "cut 35 (lit ''/socket'') = (lit ''/socket'', None)" "cut 63 (lit ''/socket'') = (lit ''/socket'', None)"
    "\<forall>c\<in>set (lit ''/socket''). 32 < c" "59 \<notin> set (lit ''/socket'')" "hd (lit ''/socket'') \<in> {47, 63, 35}"
    by (auto simp: cut_none)
  note p = urlparse_plain [OF assms(1,2) disjI2 [OF r(5)] r(3,1,2,4), of host_ok]
  have f: "auth_fields list_repr (sha tb) reverse inst [] = plain_auth (sha tb) reverse inst"
    by (simp add: auth_fields_def plain_auth_def Let_def)
  have q: "parse_qs [] = []" by (simp add: parse_qs_def parse_qsl_def split_all_def cut_none or_empty_def)
  have "build_ws_url_with_auth host_ok sha list_repr (plain_url scheme host (lit ''/socket'')) t reverse inst =
      Inr (urlunparse \<lparr>u_scheme = scheme, u_netloc = host, u_path = lit ''/socket'', u_params = [],
        u_query = query_text (plain_auth (sha tb) reverse inst), u_fragment = []\<rparr>)"
    using p f q assms(3) urlencode_plain [OF plain_auth_fields [OF assms(4)], of reverse inst]
    by (simp add: build_ws_url_with_auth_def token_hash_def or_empty_def del: lit_Cons)
  moreover have "query_text (plain_auth (sha tb) reverse inst) \<noteq> []" by (simp add: plain_auth_def)
  ultimately show ?thesis
    using urlunparse_plain [OF assms(1,2), of "lit ''/socket''"] by simp
qed

lemma parse_plain_auth:
  assumes "hex_digest d"
  shows "parse_qs (query_text (plain_auth d reverse inst)) =
    [(lit ''token'', [d]), (lit ''reverse'', [if reverse then lit ''true'' else lit ''false'']),
     (lit ''instance'', [uuid_str inst])]"
proof -
  have "parse_qsl (query_text (plain_auth d reverse inst)) = plain_auth d reverse inst"
    by (rule parse_qsl_plain [OF plain_auth_fields [OF assms]]) (simp add: plain_auth_def)
  then show ?thesis by (simp add: parse_qs_def plain_auth_def)
qed



section \<open>Adding a connector token\<close>

lemma server_adds_connector:
  assumes "has_permission (hd_client h) s" "client_token (hd_client h) s = Some own"
      "has_key (srv_tokens s) own" "\<not> has_key (srv_connector_tokens s) ct" "up (hd_ws h)" "ct \<noteq> []"
    and "pack_message gz (ConnectorResponseMessage True ch None (Some ct)) = Inr pb"
    and "parse_message gunzip rb = Inr (ConnectorMessage ch ct (lit ''add''))"
  shows "\<exists>s'. serve_round gz gunzip up draws None h (Received (Binary rb)) s = (True, s') \<and>
    srv_actions s' = srv_actions s @ [SendWs (hd_ws h) pb] \<and> dict_get (srv_connector_tokens s') ct = Some own"
proof -
  let ?s = "s\<lparr>srv_connector_tokens := dict_set ct own (srv_connector_tokens s)\<rparr>"
  let ?s' = "srv_emit (SendWs (hd_ws h) pb) ?s"
  have own: "own \<noteq> []" using assms(1,2) by (auto simp: has_permission_def)
  have "manage_connector draws (hd_client h) ch ct (lit ''add'') s =
      (Inr (ConnectorResponseMessage True ch None (Some ct)), ?s)"
    using assms(1-4,6) own by (simp add: manage_connector_def Let_def add_connector_token_def)
  then have "client_dispatch gz up draws (hd_client h) (hd_ws h) (ConnectorMessage ch ct (lit ''add'')) s = (Inr (), ?s')"
    using send_up [where up = up, OF assms(7,5)] by simp
  with assms(8) have "serve_round gz gunzip up draws None h (Received (Binary rb)) s = (True, ?s')"
    by (simp add: serve_round_def loop_round_def del: client_dispatch.simps)
  then show ?thesis by (simp add: srv_emit_def dict_simps)
qed

lemma client_gets_connector:
  assumes "cl_reverse c" "cl_websocket c = Some cw" "up cw"
    and "pack_message id (ConnectorMessage ch ct (lit ''add'')) = Inr rb"
    and "parse_message gunzip pb = Inr (ConnectorResponseMessage True ch None (Some ct))"
  shows "\<exists>c'. add_connector up (\<lambda>c. snd (client_round gunzip cw (Binary pb) c)) ch ct c = (Inr ct, c') \<and>
    SendFrame cw rb \<in> set (cl_actions c') \<and> \<not> has_key (message_queues c') (uuid_str ch)"
proof -
  let ?c = "cl_emit (SendFrame cw rb) (open_queue (uuid_str ch) c)"
  let ?resp = "ConnectorResponseMessage True ch None (Some ct)"
  let ?d = "put_message (uuid_str ch) ?resp ?c"
  have q: "dict_get (message_queues ?c) (uuid_str ch) = Some []"
    by (simp add: cl_emit_def open_queue_def dict_simps)
  have "client_round gunzip cw (Binary pb) ?c = (True, ?d)"
    using assms(5) by (simp add: client_round_def)
  moreover obtain e where e: "take_message (uuid_str ch) ?d = (Some ?resp, e)" "cl_actions e = cl_actions ?c"
    using mail.sole_message [OF q, of ?resp] q by (auto simp: put_message_def take_message_def dict_simps)
  ultimately have "add_connector up (\<lambda>c. snd (client_round gunzip cw (Binary pb) c)) ch ct c =
      (Inr ct, remove_queue (uuid_str ch) e)"
    using assms(1-4) by (simp add: add_connector_def connector_request_def Let_def del: pack_message.simps lit_Cons)
  moreover have "SendFrame cw rb \<in> set (cl_actions (remove_queue (uuid_str ch) e))"
    using e(2) by (simp add: remove_queue_def cl_emit_def)
  ultimately show ?thesis by (auto simp: dict_simps)
qed

text \<open>
  C12. A connector token added by a client that has the permission: the request crosses both codecs, the
  server enters the token for the client's own internal or reverse token and answers on the same
  connection, the client's dispatcher puts the answer into the queue of the request, and the call
  returns the token; the queue is gone afterwards. (The token is new, not empty, ASCII and shorter
  than 256 characters.)
\<close>

theorem connector_added_end_to_end:
  assumes server: "has_permission (hd_client h) s" "client_token (hd_client h) s = Some own"
      "has_key (srv_tokens s) own" "\<not> has_key (srv_connector_tokens s) ct" "up (hd_ws h)"
    and client: "cl_reverse c" "cl_websocket c = Some cw" "upc cw"
    and token: "ct \<noteq> []" "ascii ct" "length ct < 256"
  shows "\<exists>request response s'.
    serve_round gz gunzip up draws None h (Received (Binary request)) s = (True, s') \<and>
    srv_actions s' = srv_actions s @ [SendWs (hd_ws h) response] \<and>
    dict_get (srv_connector_tokens s') ct = Some own \<and>
    (\<exists>c'. add_connector upc (\<lambda>c. snd (client_round gunzip' cw (Binary response) c)) ch ct c = (Inr ct, c') \<and>
      SendFrame cw request \<in> set (cl_actions c') \<and> \<not> has_key (message_queues c') (uuid_str ch))"
proof -
  let ?req = "ConnectorMessage ch ct (lit ''add'')"
  let ?resp = "ConnectorResponseMessage True ch None (Some ct)"
  have fits: "text_fits ct" using token by (auto simp: text_fits_def ascii_valid_str)
  obtain rb where rb: "pack_message id ?req = Inr rb"
    using pack_message_ok_iff [of ?req id] fits by auto
  obtain pb where pb: "pack_message gz ?resp = Inr pb"
    using pack_message_ok_iff [of ?resp gz] fits by auto
  have pr: "parse_message gunzip rb = Inr ?req"
    using parse_pack_message [OF _ _ rb, of gunzip] token(2) by simp
  have pp: "parse_message gunzip' pb = Inr ?resp"
    using parse_pack_message [OF _ _ pb, of gunzip'] token(1,2) by (simp add: opt_text_def)
  from server_adds_connector [where gz = gz and draws = draws and up = up, OF server token(1) pb pr]
    client_gets_connector [where up = upc, OF client rb pp]
  show ?thesis by blast
qed

lemma connector_added_end_to_end_witness:
  "\<exists>request s'. serve_round id Inr (\<lambda>_. True) (\<lambda>_. 0) None
      \<lparr>hd_ws = 20, hd_client = 2, hd_token = lit ''a'', hd_key = lit ''i'', hd_role = ReverseRole\<rparr>
      (Received (Binary request)) foreign_server = (True, s') \<and>
     dict_get (srv_connector_tokens s') (lit ''c'') = Some (lit ''i'')"
proof -
  let ?h = "\<lparr>hd_ws = 20, hd_client = 2, hd_token = lit ''a'', hd_key = lit ''i'', hd_role = ReverseRole\<rparr>"
  have s: "has_permission (hd_client ?h) foreign_server" "client_token (hd_client ?h) foreign_server = Some (lit ''i'')"
    "has_key (srv_tokens foreign_server) (lit ''i'')" "\<not> has_key (srv_connector_tokens foreign_server) (lit ''c'')"
    by (simp_all add: foreign_server_def has_permission_def client_token_def has_key_def srv_init_def)
  have c: "cl_reverse (once_client\<lparr>cl_websocket := Some 1\<rparr>)" "cl_websocket (once_client\<lparr>cl_websocket := Some 1\<rparr>) = Some 1"
    by (simp_all add: once_client_def)
  have t: "lit ''c'' \<noteq> []" "ascii (lit ''c'')" "length (lit ''c'') < 256" by simp_all
  from connector_added_end_to_end [where up = "\<lambda>_. True" and upc = "\<lambda>_. True" and gz = id and gunzip = Inr and
      draws = "\<lambda>_. 0" and gunzip' = Inr and ch = 9, OF s _ c _ t]
  show ?thesis by blast
qed

end
