(* ===== verification/EndToEnd.thy ===== *)
theory EndToEnd
  imports ClientServer Upstream
begin

text \<open>
  A SOCKS request from the application to its target and back: the SOCKS handler of one end, the frame it
  sends, the dispatcher of the other end, the connection it opens, the response, the dispatcher of the
  first end, and the reply to the application. In reverse mode the handler runs in the server and the
  target is dialled by the client, in forward mode it is the other way round.
\<close>

section \<open>The end of the application\<close>

definition connect_to :: "uuid \<Rightarrow> pystr \<Rightarrow> int \<Rightarrow> message" where
  "connect_to ch addr port = ConnectMessage (lit ''tcp'') ch (Some addr) (Some port)"

definition connected :: "uuid \<Rightarrow> message" where
  "connected ch = ConnectResponseMessage True ch None"

text \<open>The reply tells success, and the forwarding begins with what follows the request in the stream.\<close>

lemma application_served:
  assumes "socks_negotiate u p (se_conn e) = (Inr True, waiting (connect_request tgt port @ rest) segs out)"
    and "target_ok tgt" "target_name (so_inet_ntop6 ora) tgt = Inr addr" "0 \<le> port" "port < 65536"
    and "pack_message id (connect_to (so_connect_id ora) addr port) = Inr request" "se_ws_open e"
    and "so_response ora = Some (connected (so_connect_id ora))"
  shows "socks_body ora u p e = socks_tcp_forward (so_forwarding ora) (so_task ora) (so_connect_id ora)
    (after_request ora request (waiting rest segs (out @ [socks_reply 0])) e)"
proof -
  have "after_request ora request (waiting rest segs (out @ [socks_reply 0])) e =
      (after_request ora request (waiting rest segs out) e)\<lparr>se_conn := waiting rest segs (out @ [socks_reply 0])\<rparr>"
    by (cases e) (simp add: after_request_def)
  moreover have "se_conn (after_request ora request (waiting rest segs out) e) = waiting rest segs out"
    by (simp add: after_request_def)
  ultimately show ?thesis
    using body_after_negotiation [OF assms(1-5) assms(6) [unfolded connect_to_def] assms(7)] assms(8)
    by (simp add: socks_answer_def connected_def on_conn_def del: pack_message.simps lit_Cons)
qed

section \<open>The end of the target\<close>

definition forwarding_from :: "conn \<Rightarrow> bytes \<Rightarrow> task \<Rightarrow> uuid \<Rightarrow> socks_env \<Rightarrow> socks_env" where
  "forwarding_from rc response t ch r =
     r\<lparr>se_conn := rc, se_ws_sent := se_ws_sent r @ [response],
       se_relay := (se_relay r)\<lparr>tcp_tasks := dict_set (uuid_str ch) t (tcp_tasks (se_relay r))\<rparr>\<rparr>"

lemma io_finally_cong: "m s = m' s \<Longrightarrow> io_finally m f s = io_finally m' f s"
  by (simp add: io_finally_def)

lemma target_reached:
  assumes "\<not> truthy (up_proxy cfg)" "direct_connect os addr port = Inr rc" "se_ws_open r"
    and "has_key (message_queues (se_relay r)) (uuid_str ch)" "pack_message id (connected ch) = Inr response"
  shows "handle_network_connection os cfg bound forwarding t (connect_to ch addr port) r =
    io_finally (\<lambda>r. (Inr (), forwarding (forwarding_from rc response t ch r))) (finish_channel ch) r"
  unfolding handle_network_connection_def handle_tcp_connection_def connect_to_def serve_remote_def
  using assms
  by (auto simp: open_remote_def connected_def io_catch_def io_bind_def io_modify_def io_lift_def ws_send_def
      remote_forward_def start_remote_tcp_forward_def forwarding_from_def Let_def
      simp del: pack_message.simps lit_Cons intro!: io_finally_cong)

section \<open>The codec between the ends\<close>

lemma connect_crosses:
  assumes "ascii addr" "length addr < 256" "0 \<le> port" "port < 65536"
  shows "\<exists>request. pack_message id (connect_to ch addr port) = Inr request \<and>
    (\<forall>gunzip. parse_message gunzip request = Inr (connect_to ch addr port))"
proof -
  have "text_fits addr" using assms(1,2) by (auto simp: text_fits_def ascii_valid_str)
  then obtain request where r: "pack_message id (connect_to ch addr port) = Inr request"
    using pack_message_ok_iff [of "connect_to ch addr port" id] assms(3,4) by (auto simp: connect_to_def port_fits_def)
  then show ?thesis
    using parse_pack_message [OF _ _ r] assms(1) by (simp add: connect_to_def)
qed

lemma connected_crosses:
  "\<exists>response. pack_message id (connected ch) = Inr response \<and>
    (\<forall>gunzip. parse_message gunzip response = Inr (connected ch))"
proof -
  obtain response where r: "pack_message id (connected ch) = Inr response"
    using pack_message_ok_iff [of "connected ch" id] by (auto simp: connected_def)
  then show ?thesis
    using parse_pack_message [OF _ _ r] by (simp add: connected_def opt_text_def)
qed

section \<open>Both ends\<close>

lemma truncated_queues: "message_queues (relay.truncate c) = message_queues c"
  by (simp add: relay.truncate_def)

lemma client_starts_connection:
  assumes "parse_message gunzip request = Inr (connect_to ch addr port)"
  shows "client_round gunzip w (Binary request) c =
    (True, cl_emit (HandleConnect w (connect_to ch addr port)) (open_queue (uuid_str ch) c))"
  using assms by (simp add: client_round_def connect_to_def)

lemma client_takes_response:
  assumes "parse_message gunzip response = Inr (connected ch)"
  shows "client_round gunzip w (Binary response) c = (True, put_message (uuid_str ch) (connected ch) c)"
  using assms by (simp add: client_round_def connected_def)

lemma server_starts_connection:
  assumes "parse_message gunzip request = Inr (connect_to ch addr port)" "has_key (srv_forward_clients s) (hd_client h)"
  shows "serve_round gz gunzip up draws None h (Received (Binary request)) s =
    (True, srv_emit (StartNetwork (hd_ws h) (connect_to ch addr port)) (open_queue (uuid_str ch) s))"
  using assms by (simp add: serve_round_def loop_round_def connect_to_def)

lemma server_takes_response:
  assumes "parse_message gunzip response = Inr (connected ch)" "has_key (message_queues s) (uuid_str ch)"
  shows "serve_round gz gunzip up draws None h (Received (Binary response)) s =
    (True, put_message (uuid_str ch) (connected ch) s)"
  using assms by (simp add: serve_round_def loop_round_def connected_def deliver_def)

lemma both_ends:
  assumes "socks_negotiate u p (se_conn e) = (Inr True, waiting (connect_request tgt port @ rest) segs out)"
    and "target_ok tgt" "target_name (so_inet_ntop6 ora) tgt = Inr addr" "0 \<le> port" "port < 65536" "se_ws_open e"
    and "ascii addr" "length addr < 256"
    and "\<not> truthy (up_proxy cfg)" "direct_connect os addr port = Inr rc" "se_ws_open r"
  defines "ch \<equiv> so_connect_id ora"
  obtains request response where
    "\<And>gunzip. parse_message gunzip request = Inr (connect_to ch addr port)"
    "\<And>gunzip. parse_message gunzip response = Inr (connected ch)"
    "\<And>q. has_key (message_queues q) (uuid_str ch) \<Longrightarrow>
      handle_network_connection os cfg bound forwarding t (connect_to ch addr port) (r\<lparr>se_relay := q\<rparr>) =
      io_finally (\<lambda>r. (Inr (), forwarding (forwarding_from rc response t ch r))) (finish_channel ch) (r\<lparr>se_relay := q\<rparr>)"
    "socks_body (ora\<lparr>so_response := Some (connected ch)\<rparr>) u p e =
      socks_tcp_forward (so_forwarding ora) (so_task ora) ch
        (after_request ora request (waiting rest segs (out @ [socks_reply 0])) e)"
proof -
  obtain request where request: "pack_message id (connect_to ch addr port) = Inr request"
    "\<And>gunzip. parse_message gunzip request = Inr (connect_to ch addr port)"
    using connect_crosses [OF assms(7,8,4,5)] by blast
  obtain response where response: "pack_message id (connected ch) = Inr response"
    "\<And>gunzip. parse_message gunzip response = Inr (connected ch)"
    using connected_crosses by blast
  have "socks_body (ora\<lparr>so_response := Some (connected ch)\<rparr>) u p e =
      socks_tcp_forward (so_forwarding ora) (so_task ora) ch
        (after_request ora request (waiting rest segs (out @ [socks_reply 0])) e)"
    using application_served [of u p e tgt port rest segs out "ora\<lparr>so_response := Some (connected ch)\<rparr>" addr request]
      assms(1-6) request(1) by (simp add: ch_def after_request_def)
  with that [OF request(2) response(2)] target_reached [OF assms(9,10) _ _ response(1)] assms(11)
  show thesis by simp
qed

section \<open>A concrete request\<close>

text \<open>The application asks for port 80 of 10.0.0.1 and sends two bytes before it has the reply.\<close>

definition eager_application :: socks_env where
  "eager_application = sample_env (waiting ([5, 1, 0] @ connect_request (IPv4 [10, 0, 0, 1]) 80 @ [71, 69]) [] [])"

definition reachable_os :: os_net where
  "reachable_os = sample_os\<lparr>sock_connect := (\<lambda>_ _ _. Inr (fresh_conn [[1, 2]])),
     os_inet_pton4 := (\<lambda>_. Some [10, 0, 0, 1])\<rparr>"

lemma sample_oracle_fields:
  "(sample_oracle r)\<lparr>so_response := r'\<rparr> = sample_oracle r'" "so_forwarding (sample_oracle r) = id"
  "so_task (sample_oracle r) = 1"
  by (simp_all add: sample_oracle_def)

lemma sample_application:
  "socks_negotiate None None (se_conn eager_application) =
     (Inr True, waiting (connect_request (IPv4 [10, 0, 0, 1]) 80 @ [71, 69]) [] [[5, 0]])"
  "target_ok (IPv4 [10, 0, 0, 1])"
  "target_name (so_inet_ntop6 (sample_oracle None)) (IPv4 [10, 0, 0, 1]) = Inr (lit ''10.0.0.1'')"
  "(0::int) \<le> 80" "(80::int) < 65536" "se_ws_open eager_application"
  "ascii (lit ''10.0.0.1'')" "length (lit ''10.0.0.1'') < 256"
  "\<not> truthy (up_proxy direct_cfg)" "direct_connect reachable_os (lit ''10.0.0.1'') 80 = Inr (fresh_conn [[1, 2]])"
  "se_ws_open (sample_env (fresh_conn []))" "so_connect_id (sample_oracle None) = 9"
proof -
  show "socks_negotiate None None (se_conn eager_application) =
      (Inr True, waiting (connect_request (IPv4 [10, 0, 0, 1]) 80 @ [71, 69]) [] [[5, 0]])"
    using negotiate_open [of "[0]" 1 None None 5 "connect_request (IPv4 [10, 0, 0, 1]) 80 @ [71, 69]" "[]" "[]"]
    by (simp add: eager_application_def sample_env_def)
qed (simp_all add: eager_application_def sample_env_def lit_10_0_0_1 direct_cfg_def reachable_os_def sample_os_def
  direct_connect_def sample_oracle_def del: lit_Cons, simp_all)

text \<open>
  C6. A CONNECT request in reverse mode. The application asks the server's SOCKS port for a target; the frame
  the server sends makes the client start a handler for exactly that target; the handler dials it
  directly, answers, and forwards from the connection it got; the answer reaches the queue on which
  the SOCKS handler waits; and with it the handler tells the application that it is connected and
  begins to forward, with whatever followed the request still to be read. (The target's name is ASCII
  and shorter than 256 characters, the connection succeeds, and both WebSocket ends are open.)
\<close>

theorem reverse_connect_end_to_end:
  assumes application:
      "socks_negotiate u p (se_conn e) = (Inr True, waiting (connect_request tgt port @ rest) segs out)"
      "target_ok tgt" "target_name (so_inet_ntop6 ora) tgt = Inr addr" "0 \<le> port" "port < 65536" "se_ws_open e"
    and name: "ascii addr" "length addr < 256"
    and target: "\<not> truthy (up_proxy cfg)" "direct_connect os addr port = Inr rc" "se_ws_open r"
    and waits: "so_connect_id ora = ch" "dict_get (message_queues s) (uuid_str ch) = Some []"
  shows "\<exists>request response c' s' s''.
    client_round gunzip w (Binary request) c = (True, c') \<and>
    cl_actions c' = cl_actions c @ [HandleConnect w (connect_to ch addr port)] \<and>
    (let r = r\<lparr>se_relay := relay.truncate c'\<rparr> in
      handle_network_connection os cfg bound forwarding t (connect_to ch addr port) r =
        io_finally (\<lambda>r. (Inr (), forwarding (forwarding_from rc response t ch r))) (finish_channel ch) r) \<and>
    serve_round gz gunzip' up draws None h (Received (Binary response)) s = (True, s') \<and>
    take_message (uuid_str ch) s' = (Some (connected ch), s'') \<and>
    socks_body (ora\<lparr>so_response := fst (take_message (uuid_str ch) s')\<rparr>) u p e =
      socks_tcp_forward (so_forwarding ora) (so_task ora) ch
        (after_request ora request (waiting rest segs (out @ [socks_reply 0])) e)"
proof -
  from both_ends [OF application name target, of bound forwarding t] obtain request response where
    request: "\<And>gunzip. parse_message gunzip request = Inr (connect_to ch addr port)" and
    response: "\<And>gunzip. parse_message gunzip response = Inr (connected ch)" and
    dialled: "\<And>q. has_key (message_queues q) (uuid_str ch) \<Longrightarrow>
      handle_network_connection os cfg bound forwarding t (connect_to ch addr port) (r\<lparr>se_relay := q\<rparr>) =
      io_finally (\<lambda>r. (Inr (), forwarding (forwarding_from rc response t ch r))) (finish_channel ch) (r\<lparr>se_relay := q\<rparr>)" and
    served: "socks_body (ora\<lparr>so_response := Some (connected ch)\<rparr>) u p e =
      socks_tcp_forward (so_forwarding ora) (so_task ora) ch
        (after_request ora request (waiting rest segs (out @ [socks_reply 0])) e)"
    unfolding waits(1) by blast
  let ?c = "cl_emit (HandleConnect w (connect_to ch addr port)) (open_queue (uuid_str ch) c)"
  let ?s = "put_message (uuid_str ch) (connected ch) s"
  obtain s'' where s'': "take_message (uuid_str ch) ?s = (Some (connected ch), s'')"
    using mail.sole_message [OF waits(2)] by blast
  have "has_key (message_queues (relay.truncate ?c)) (uuid_str ch)"
    by (simp add: truncated_queues cl_emit_def open_queue_def has_key_set)
  note dialled = dialled [OF this]
  have "serve_round gz gunzip' up draws None h (Received (Binary response)) s = (True, ?s)"
    using server_takes_response [OF response] waits(2) by (simp add: has_key_def)
  moreover have "cl_actions ?c = cl_actions c @ [HandleConnect w (connect_to ch addr port)]"
    by (simp add: cl_emit_def open_queue_def)
  ultimately show ?thesis
    using client_starts_connection [OF request] dialled s'' served unfolding Let_def by (metis fst_conv)
qed

theorem reverse_connect_end_to_end_witness:
  "\<exists>request c' s' s''.
    cl_actions (c' :: client) = [HandleConnect 1 (connect_to 9 (lit ''10.0.0.1'') 80)] \<and>
    take_message (uuid_str 9) (s' :: server) = (Some (connected 9), s'') \<and>
    socks_body (sample_oracle (fst (take_message (uuid_str 9) s'))) None None eager_application =
      socks_tcp_forward id 1 9 (after_request (sample_oracle None) request
        (waiting [71, 69] [] [[5, 0], socks_reply 0]) eager_application)"
proof -
  let ?s = "(srv_init [] True)\<lparr>message_queues := [(uuid_str 9, [])]\<rparr>"
  have "dict_get (message_queues ?s) (uuid_str 9) = Some []" by simp
  note end_to_end = reverse_connect_end_to_end [OF sample_application this]
  have none: "cl_actions once_client = []" by (simp add: once_client_def)
  from end_to_end [where w = 1 and gunzip = Inr and c = once_client
      and bound = "Inr ()" and forwarding = id and t = 0 and gz = id and gunzip' = Inr and up = "\<lambda>_. True"
      and draws = "\<lambda>_. 0" and h = "\<lparr>hd_ws = 20, hd_client = 2, hd_token = lit ''a'', hd_key = lit ''i'', hd_role = ReverseRole\<rparr>"]
  show ?thesis unfolding sample_oracle_fields none append_Cons append_Nil by blast
qed

text \<open>
  C15. A CONNECT request in forward mode, with the roles exchanged: the application asks the client, and the
  server, on the frame of a client admitted with a forward token, dials the target and answers.
\<close>

theorem forward_connect_end_to_end:
  assumes application:
      "socks_negotiate u p (se_conn e) = (Inr True, waiting (connect_request tgt port @ rest) segs out)"
      "target_ok tgt" "target_name (so_inet_ntop6 ora) tgt = Inr addr" "0 \<le> port" "port < 65536" "se_ws_open e"
    and name: "ascii addr" "length addr < 256"
    and target: "\<not> truthy (up_proxy cfg)" "direct_connect os addr port = Inr rc" "se_ws_open r"
    and waits: "so_connect_id ora = ch" "dict_get (message_queues c) (uuid_str ch) = Some []"
    and admitted: "has_key (srv_forward_clients s) (hd_client h)"
  shows "\<exists>request response s' c' c''.
    serve_round gz gunzip up draws None h (Received (Binary request)) s = (True, s') \<and>
    srv_actions s' = srv_actions s @ [StartNetwork (hd_ws h) (connect_to ch addr port)] \<and>
    (let r = r\<lparr>se_relay := relay.truncate s'\<rparr> in
      handle_network_connection os cfg bound forwarding t (connect_to ch addr port) r =
        io_finally (\<lambda>r. (Inr (), forwarding (forwarding_from rc response t ch r))) (finish_channel ch) r) \<and>
    client_round gunzip' w (Binary response) c = (True, c') \<and>
    take_message (uuid_str ch) c' = (Some (connected ch), c'') \<and>
    socks_body (ora\<lparr>so_response := fst (take_message (uuid_str ch) c')\<rparr>) u p e =
      socks_tcp_forward (so_forwarding ora) (so_task ora) ch
        (after_request ora request (waiting rest segs (out @ [socks_reply 0])) e)"
proof -
  from both_ends [OF application name target, of bound forwarding t] obtain request response where
    request: "\<And>gunzip. parse_message gunzip request = Inr (connect_to ch addr port)" and
    response: "\<And>gunzip. parse_message gunzip response = Inr (connected ch)" and
    dialled: "\<And>q. has_key (message_queues q) (uuid_str ch) \<Longrightarrow>
      handle_network_connection os cfg bound forwarding t (connect_to ch addr port) (r\<lparr>se_relay := q\<rparr>) =
      io_finally (\<lambda>r. (Inr (), forwarding (forwarding_from rc response t ch r))) (finish_channel ch) (r\<lparr>se_relay := q\<rparr>)" and
    served: "socks_body (ora\<lparr>so_response := Some (connected ch)\<rparr>) u p e =
      socks_tcp_forward (so_forwarding ora) (so_task ora) ch
        (after_request ora request (waiting rest segs (out @ [socks_reply 0])) e)"
    unfolding waits(1) by blast
  let ?s = "srv_emit (StartNetwork (hd_ws h) (connect_to ch addr port)) (open_queue (uuid_str ch) s)"
  let ?c = "put_message (uuid_str ch) (connected ch) c"
  obtain c'' where c'': "take_message (uuid_str ch) ?c = (Some (connected ch), c'')"
    using mail.sole_message [OF waits(2)] by blast
  have "has_key (message_queues (relay.truncate ?s)) (uuid_str ch)"
    by (simp add: truncated_queues srv_emit_def open_queue_def has_key_set)
  note dialled = dialled [OF this]
  have "srv_actions ?s = srv_actions s @ [StartNetwork (hd_ws h) (connect_to ch addr port)]"
    by (simp add: srv_emit_def open_queue_def)
  with server_starts_connection [OF request admitted] client_takes_response [OF response] dialled c'' served
  show ?thesis unfolding Let_def by (metis fst_conv)
qed

theorem forward_connect_end_to_end_witness:
  "\<exists>request s' c' c''.
    srv_actions (s' :: server) = [StartNetwork 20 (connect_to 9 (lit ''10.0.0.1'') 80)] \<and>
    take_message (uuid_str 9) (c' :: client) = (Some (connected 9), c'') \<and>
    socks_body (sample_oracle (fst (take_message (uuid_str 9) c'))) None None eager_application =
      socks_tcp_forward id 1 9 (after_request (sample_oracle None) request
        (waiting [71, 69] [] [[5, 0], socks_reply 0]) eager_application)"
proof -
  let ?c = "once_client\<lparr>message_queues := [(uuid_str 9, [])]\<rparr>"
  let ?h = "\<lparr>hd_ws = 20, hd_client = 2, hd_token = lit ''a'', hd_key = lit ''i'', hd_role = ForwardRole\<rparr>"
  have q: "dict_get (message_queues ?c) (uuid_str 9) = Some []" by simp
  have f: "has_key (srv_forward_clients ((srv_init [] True)\<lparr>srv_forward_clients := [(2, 20)]\<rparr>)) (hd_client ?h)"
    by (simp add: has_key_def)
  have none: "srv_actions ((srv_init [] True)\<lparr>srv_forward_clients := [(2, 20)]\<rparr>) = []" "hd_ws ?h = 20"
    by (simp_all add: srv_init_def)
  from forward_connect_end_to_end [OF sample_application q f, where w = 1 and gunzip = Inr
      and bound = "Inr ()" and forwarding = id and t = 0 and gz = id and gunzip' = Inr and up = "\<lambda>_. True"
      and draws = "\<lambda>_. 0"]
  show ?thesis unfolding sample_oracle_fields none append_Cons append_Nil by blast
qed

end
