(* ===== verification/Tunnel.thy ===== *)
theory Tunnel
  imports Forwarding EndToEnd
begin

text \<open>
  The two ends of an open channel and the WebSocket between them: at each end a TCP forwarding phase
  (\<open>Forwarding\<close>), in each direction the frames that one end has sent, and the dispatcher of the
  other end, which takes them one after the other into the queue of the channel. Every interleaving of these is
  a list of events. The near end is the one of the application, the far end that of the target;
  which of them is the client is a matter of the mode.
\<close>

section \<open>The dispatchers\<close>

definition take_frame ::
    "(bytes \<Rightarrow> bytes res) \<Rightarrow> nat \<Rightarrow> uuid \<Rightarrow> task \<Rightarrow> bytes \<Rightarrow> socks_env session \<Rightarrow> socks_env session" where
  "take_frame gunzip buf_size channel_id t frame \<sigma> =
     (case parse_message gunzip frame of
        Inr (DataMessage protocol cid data compression address port target_addr target_port) \<Rightarrow>
          if cid = channel_id
          then tcp_step buf_size channel_id t
            (Arrives (DataMessage protocol cid data compression address port target_addr target_port)) \<sigma>
          else \<sigma>
      | Inr (DisconnectMessage cid error) \<Rightarrow>
          if cid = channel_id then tcp_step buf_size channel_id t Disconnects \<sigma> else \<sigma>
      | _ \<Rightarrow> \<sigma>)"

lemma truncate_put: "relay.truncate (put_message c m s) = put_message c m (relay.truncate s)"
  by (simp add: put_message_def relay.truncate_def split: option.split)

lemma truncate_disconnect: "relay.truncate (disconnect_channel c d s) = disconnect_channel c d (relay.truncate s)"
proof -
  have t: "relay.truncate (pop_tcp_task c s) = pop_tcp_task c (relay.truncate s)" for s :: "'a relay_scheme"
    by (simp add: pop_tcp_task_def cancel_unless_done_def relay.truncate_def split: option.split)
  have u: "relay.truncate (pop_udp_task c s) = pop_udp_task c (relay.truncate s)" for s :: "'a relay_scheme"
    by (simp add: pop_udp_task_def cancel_unless_done_def relay.truncate_def split: option.split)
  show ?thesis
    unfolding disconnect_channel_def Let_def t [symmetric] u [symmetric]
    by (simp add: relay.truncate_def remove_queue_def)
qed

text \<open>What \<open>take_frame\<close> does to the relay is what the dispatchers of client and server do.\<close>

lemma client_takes_frame:
  assumes "parse_message gunzip frame = Inr msg" "msg = tcp_data_message cid d \<or> msg = DisconnectMessage cid e"
    and "se_relay (ss_state \<sigma>) = relay.truncate c"
  shows "\<exists>c'. client_round gunzip w (Binary frame) c = (True, c') \<and>
    se_relay (ss_state (take_frame gunzip buf cid t frame \<sigma>)) = relay.truncate c'"
  using assms
  by (auto simp: client_round_def take_frame_def tcp_data_message_def truncate_put truncate_disconnect Let_def)

lemma server_takes_frame:
  assumes "parse_message gunzip frame = Inr msg" "msg = tcp_data_message cid d \<or> msg = DisconnectMessage cid e"
    and "se_relay (ss_state \<sigma>) = relay.truncate s" "has_key (message_queues s) (uuid_str cid)"
  shows "\<exists>s'. serve_round gz gunzip up draws None h (Received (Binary frame)) s = (True, s') \<and>
    se_relay (ss_state (take_frame gunzip buf cid t frame \<sigma>)) = relay.truncate s'"
  using assms
  by (auto simp: serve_round_def loop_round_def deliver_def take_frame_def tcp_data_message_def truncate_put
      truncate_disconnect Let_def)

section \<open>The tunnel\<close>

record tunnel =
  near :: "socks_env session"
  far :: "socks_env session"
  to_far :: nat
  to_near :: nat

text \<open>
  \<open>to_far\<close> counts the frames of the near end that the far end has taken. An \<open>Arrives\<close> is not an event of
  its own here: messages arrive by \<open>ToFar\<close> and \<open>ToNear\<close> only.
\<close>

datatype tunnel_event = Near tcp_event | Far tcp_event | ToFar | ToNear

fun own_event :: "tcp_event \<Rightarrow> bool" where
  "own_event (Arrives m) = False"
| "own_event _ = True"

definition frames_of :: "socks_env session \<Rightarrow> bytes list" where
  "frames_of \<sigma> = se_ws_sent (ss_state \<sigma>)"

fun tunnel_step :: "(bytes \<Rightarrow> bytes res) \<Rightarrow> nat \<Rightarrow> uuid \<Rightarrow> task \<Rightarrow> task \<Rightarrow> tunnel_event \<Rightarrow> tunnel \<Rightarrow> tunnel" where
  "tunnel_step gunzip buf cid tn tf (Near ev) x = (if own_event ev then x\<lparr>near := tcp_step buf cid tn ev (near x)\<rparr> else x)"
| "tunnel_step gunzip buf cid tn tf (Far ev) x = (if own_event ev then x\<lparr>far := tcp_step buf cid tf ev (far x)\<rparr> else x)"
| "tunnel_step gunzip buf cid tn tf ToFar x =
     (if to_far x < length (frames_of (near x))
      then x\<lparr>far := take_frame gunzip buf cid tf (frames_of (near x) ! to_far x) (far x), to_far := to_far x + 1\<rparr>
      else x)"
| "tunnel_step gunzip buf cid tn tf ToNear x =
     (if to_near x < length (frames_of (far x))
      then x\<lparr>near := take_frame gunzip buf cid tn (frames_of (far x) ! to_near x) (near x), to_near := to_near x + 1\<rparr>
      else x)"

definition open_tunnel :: "socks_env \<Rightarrow> socks_env \<Rightarrow> tunnel" where
  "open_tunnel a b = \<lparr>near = start_tasks 2 a, far = start_tasks 2 b,
     to_far = length (se_ws_sent a), to_near = length (se_ws_sent b)\<rparr>"

definition run_tunnel :: "(bytes \<Rightarrow> bytes res) \<Rightarrow> nat \<Rightarrow> uuid \<Rightarrow> task \<Rightarrow> task \<Rightarrow> tunnel_event list \<Rightarrow> tunnel \<Rightarrow> tunnel" where
  "run_tunnel gunzip buf cid tn tf evs x = foldl (\<lambda>x ev. tunnel_step gunzip buf cid tn tf ev x) x evs"

text \<open>At each end a run is a forwarding phase, so the handlers of \<open>EndToEnd\<close> can run it.\<close>

lemma session_snoc: "\<exists>es. tcp_step buf cid t ev (tcp_session buf cid t evs a) = tcp_session buf cid t es a"
  by (metis session_append)

lemma session_take: "\<exists>es. take_frame gunzip buf cid t frame (tcp_session buf cid t evs a) = tcp_session buf cid t es a"
  unfolding take_frame_def
  by (auto simp del: tcp_step.simps split: sum.split message.split intro: session_snoc)

lemma tunnel_projects:
  "\<exists>es es'. near (run_tunnel gunzip buf cid tn tf evs (open_tunnel a b)) = tcp_session buf cid tn es a \<and>
    far (run_tunnel gunzip buf cid tn tf evs (open_tunnel a b)) = tcp_session buf cid tf es' b"
proof (induction evs rule: rev_induct)
  case Nil
  show ?case by (intro exI [of _ "[]"]) (simp add: run_tunnel_def open_tunnel_def tcp_session_def)
next
  case (snoc ev evs)
  then obtain es es' where
    "near (run_tunnel gunzip buf cid tn tf evs (open_tunnel a b)) = tcp_session buf cid tn es a"
    "far (run_tunnel gunzip buf cid tn tf evs (open_tunnel a b)) = tcp_session buf cid tf es' b" by blast
  moreover have "run_tunnel gunzip buf cid tn tf (evs @ [ev]) (open_tunnel a b) =
      tunnel_step gunzip buf cid tn tf ev (run_tunnel gunzip buf cid tn tf evs (open_tunnel a b))"
    by (simp add: run_tunnel_def)
  ultimately show ?case
    by (cases ev) (auto simp del: tcp_step.simps intro: session_snoc session_take)
qed

section \<open>One direction\<close>

text \<open>
  \<open>src\<close> has begun in \<open>a\<close>, \<open>dst\<close> in \<open>b\<close>; the first \<open>k\<close> frames of \<open>src\<close> have been taken by \<open>dst\<close>.
\<close>

definition flow ::
    "uuid \<Rightarrow> socks_env \<Rightarrow> socks_env \<Rightarrow> nat \<Rightarrow> socks_env session \<Rightarrow> socks_env session \<Rightarrow> bool" where
  "flow cid a b k src dst \<longleftrightarrow>
     reader_inv cid a src \<and> k \<le> length (frames_of src) \<and> length (se_ws_sent a) \<le> k \<and>
     (\<exists>ds. list_all2 (data_frame cid) (drop (length (se_ws_sent a)) (take k (frames_of src))) ds \<and>
        writer_inv cid b (map (tcp_data_message cid) ds) dst)"

lemma frames_grow: "\<exists>fs. frames_of (tcp_step buf cid t ev \<sigma>) = frames_of \<sigma> @ fs"
proof (cases "ev = Reads")
  case True
  obtain r s' where r: "tcp_to_websocket_round buf cid (ss_state \<sigma>) = (r, s')" by fastforce
  from r have "\<exists>fs. se_ws_sent s' = se_ws_sent (ss_state \<sigma>) @ fs" by (cases rule: read_round_cases) auto
  with True r show ?thesis by (auto simp: frames_of_def run_round_def Let_def split: sum.splits bool.splits)
next
  case False
  with reader_untouched(3) [OF False] show ?thesis by (simp add: frames_of_def)
qed

lemma arrivals_own: "own_event ev \<Longrightarrow> arrivals [ev] = []"
  by (cases ev) simp_all

lemma flow_src:
  assumes "flow cid a b k src dst" "0 < buf"
  shows "flow cid a b k (tcp_step buf cid t ev src) dst"
proof -
  obtain fs where fs: "frames_of (tcp_step buf cid t ev src) = frames_of src @ fs" using frames_grow by blast
  show ?thesis
    using assms reader_inv_step [of cid a src buf t ev] unfolding flow_def fs by auto
qed

lemma flow_dst:
  assumes "flow cid a b k src dst" "own_event ev"
  shows "flow cid a b k src (tcp_step buf cid t ev dst)"
  using assms(1) writer_inv_step [of cid b _ dst ev buf t] arrivals_own [OF assms(2)]
  unfolding flow_def by fastforce

lemma flow_take:
  assumes "flow cid a b k src dst" "k < length (frames_of src)"
  shows "flow cid a b (k + 1) src (take_frame gunzip buf cid t (frames_of src ! k) dst)"
    "\<exists>m. take_frame gunzip buf cid t (frames_of src ! k) dst = tcp_step buf cid t (Arrives m) dst"
proof -
  let ?n = "length (se_ws_sent a)" and ?f = "frames_of src ! k"
  from assms(1) obtain ds where ds: "reader_inv cid a src" "?n \<le> k"
    "list_all2 (data_frame cid) (drop ?n (take k (frames_of src))) ds" "writer_inv cid b (map (tcp_data_message cid) ds) dst"
    by (auto simp: flow_def)
  from ds(1) obtain frames all where all: "frames_of src = se_ws_sent a @ frames" "list_all2 (data_frame cid) frames all"
    by (auto simp: reader_inv_def frames_of_def Let_def)
  from all assms(2) ds(2) have at: "k - ?n < length frames" "?f = frames ! (k - ?n)" by (auto simp: nth_append)
  with all(2) obtain d where d: "data_frame cid ?f d" by (metis list_all2_nthD)
  have taken: "take_frame gunzip buf cid t ?f dst = tcp_step buf cid t (Arrives (tcp_data_message cid d)) dst"
    using data_frame_parses [OF d, of gunzip] by (simp add: take_frame_def tcp_data_message_def)
  then show "\<exists>m. take_frame gunzip buf cid t ?f dst = tcp_step buf cid t (Arrives m) dst" by blast
  have "drop ?n (take (k + 1) (frames_of src)) = drop ?n (take k (frames_of src)) @ [?f]"
    using assms(2) ds(2) by (simp add: take_Suc_conv_app_nth)
  moreover from ds(3) d have "list_all2 (data_frame cid) (drop ?n (take k (frames_of src)) @ [?f]) (ds @ [d])"
    by (simp add: list_all2_appendI)
  ultimately show "flow cid a b (k + 1) src (take_frame gunzip buf cid t ?f dst)"
    using ds assms(2) writer_inv_step [OF ds(4), of "Arrives (tcp_data_message cid d)" buf t]
    unfolding flow_def taken by (intro conjI exI [of _ "ds @ [d]"]) simp_all
qed

lemma data_frames_unique:
  "list_all2 (data_frame cid) fs ds \<Longrightarrow> list_all2 (data_frame cid) fs ds' \<Longrightarrow> ds = ds'"
proof (induction fs ds arbitrary: ds' rule: list_all2_induct)
  case (Cons f fs d ds)
  from Cons.prems obtain d' r where ds': "ds' = d' # r" "data_frame cid f d'" "list_all2 (data_frame cid) fs r"
    by (auto simp: list_all2_Cons1)
  from data_frame_parses [OF Cons.hyps(1), of Inr] data_frame_parses [OF ds'(2), of Inr] have "d = d'"
    by (simp add: tcp_data_message_def)
  with Cons.IH [OF ds'(3)] ds'(1) show ?case by simp
qed simp

lemma payload_tcp [simp]: "payload (tcp_data_message cid d) = d"
  by (simp add: tcp_data_message_def)

lemma payloads_of_data: "map payload (map (tcp_data_message cid) ds) = ds"
  by (simp add: comp_def)

text \<open>What a direction has delivered, and when that is everything.\<close>

definition delivered_all :: "uuid \<Rightarrow> nat \<Rightarrow> socks_env session \<Rightarrow> socks_env session \<Rightarrow> bool" where
  "delivered_all cid k src dst \<longleftrightarrow>
     ss_tasks src ! 0 = Some (Ended (Inr ())) \<and> k = length (frames_of src) \<and> ss_tasks dst ! 1 = None \<and>
     dict_get (message_queues (se_relay (ss_state dst))) (uuid_str cid) = Some []"

lemma flow_delivers:
  assumes "flow cid a b k src dst" "dict_get (message_queues (se_relay b)) (uuid_str cid) = Some []"
  shows "\<exists>written. concat (outbound (se_conn (ss_state dst))) = concat (outbound (se_conn b)) @ written \<and>
    prefix written (stream (inbound (se_conn a))) \<and>
    (delivered_all cid k src dst \<longrightarrow> written = stream (inbound (se_conn a)))"
proof -
  let ?all = "stream (inbound (se_conn a))"
  from assms(1) obtain ds where ds: "reader_inv cid a src"
    "list_all2 (data_frame cid) (drop (length (se_ws_sent a)) (take k (frames_of src))) ds"
    "writer_inv cid b (map (tcp_data_message cid) ds) dst" "length (se_ws_sent a) \<le> k"
    by (auto simp: flow_def)
  from ds(1) obtain frames es where es: "frames_of src = se_ws_sent a @ frames" "list_all2 (data_frame cid) frames es"
    "sent_so_far (ss_tasks src ! 0) (concat es) (stream (inbound (se_conn (ss_state src)))) ?all"
    by (auto simp: reader_inv_def frames_of_def Let_def)
  from ds(3) assms(2) obtain q taken written lost where w:
    "dict_get (message_queues (se_relay (ss_state dst))) (uuid_str cid) = Some q" "taken @ q = map (tcp_data_message cid) ds"
    "concat (outbound (se_conn (ss_state dst))) = concat (outbound (se_conn b)) @ written"
    "written @ lost = concat (map payload taken)" "ss_tasks dst ! 1 = None \<longrightarrow> lost = []"
    by (auto simp: writer_inv_def Let_def)
  let ?n = "k - length (se_ws_sent a)"
  have "list_all2 (data_frame cid) (take ?n frames) (take ?n es)" using es(2) by (rule list_all2_takeI)
  moreover have "drop (length (se_ws_sent a)) (take k (frames_of src)) = take ?n frames" using ds(4) by (simp add: es(1))
  ultimately have ds_es: "ds = take ?n es" using data_frames_unique ds(2) by metis
  have read: "concat ds = concat (map payload taken) @ concat (map payload q)"
    using arg_cong [OF w(2), of "\<lambda>ms. concat (map payload ms)"] unfolding payloads_of_data by simp
  have "concat es = concat ds @ concat (drop ?n es)"
    unfolding ds_es concat_append [symmetric] append_take_drop_id ..
  with read w(4) have sent: "concat es = written @ lost @ concat (map payload q) @ concat (drop ?n es)"
    by (metis append.assoc)
  with sent_so_far_prefix [OF es(3)] have "prefix written ?all" by (metis append_prefixD)
  moreover have "written = ?all" if "delivered_all cid k src dst"
  proof -
    from that have "lost = []" "q = []" "drop ?n es = []" "concat es = ?all"
      using w(1,5) es by (auto simp: delivered_all_def dest: list_all2_lengthD)
    with sent show ?thesis by simp
  qed
  ultimately show ?thesis using w(3) by blast
qed

section \<open>Both directions\<close>

definition tunnel_inv :: "uuid \<Rightarrow> socks_env \<Rightarrow> socks_env \<Rightarrow> tunnel \<Rightarrow> bool" where
  "tunnel_inv cid a b x \<longleftrightarrow> flow cid a b (to_far x) (near x) (far x) \<and> flow cid b a (to_near x) (far x) (near x)"

lemma tunnel_inv_step:
  assumes "tunnel_inv cid a b x" "0 < buf"
  shows "tunnel_inv cid a b (tunnel_step gunzip buf cid tn tf ev x)"
proof (cases ev)
  case (Near e)
  with assms show ?thesis by (simp add: tunnel_inv_def flow_src flow_dst)
next
  case (Far e)
  with assms show ?thesis by (simp add: tunnel_inv_def flow_src flow_dst)
next
  case ToFar
  show ?thesis
  proof (cases "to_far x < length (frames_of (near x))")
    case True
    with assms(1) flow_take [of cid a b "to_far x" "near x" "far x", where buf = buf and gunzip = gunzip and t = tf]
    have "flow cid a b (to_far x + 1) (near x) (take_frame gunzip buf cid tf (frames_of (near x) ! to_far x) (far x))"
      "flow cid b a (to_near x) (take_frame gunzip buf cid tf (frames_of (near x) ! to_far x) (far x)) (near x)"
      using flow_src [OF _ assms(2)] unfolding tunnel_inv_def by metis+
    with ToFar True show ?thesis by (simp add: tunnel_inv_def)
  qed (use assms ToFar in simp)
next
  case ToNear
  show ?thesis
  proof (cases "to_near x < length (frames_of (far x))")
    case True
    with assms(1) flow_take [of cid b a "to_near x" "far x" "near x", where buf = buf and gunzip = gunzip and t = tn]
    have "flow cid b a (to_near x + 1) (far x) (take_frame gunzip buf cid tn (frames_of (far x) ! to_near x) (near x))"
      "flow cid a b (to_far x) (take_frame gunzip buf cid tn (frames_of (far x) ! to_near x) (near x)) (far x)"
      using flow_src [OF _ assms(2)] unfolding tunnel_inv_def by metis+
    with ToNear True show ?thesis by (simp add: tunnel_inv_def)
  qed (use assms ToNear in simp)
qed

interpretation tunnels: invariant_machine "\<lambda>x ev. tunnel_step gunzip buf cid tn tf ev x"
    "\<lambda>x. tunnel_inv cid a b x \<and> 0 < buf" for gunzip buf cid tn tf a b
  by unfold_locales (blast intro: tunnel_inv_step)

lemma flow_start:
  assumes "no_empty (se_conn a)" "dict_get (message_queues (se_relay b)) (uuid_str cid) = Some []"
  shows "flow cid a b (length (se_ws_sent a)) (start_tasks 2 a) (start_tasks 2 b)"
  using assms unfolding flow_def
  by (auto simp: reader_inv_def writer_inv_def frames_of_def numeral_2_eq_2)

lemma run_tunnel_inv:
  assumes "no_empty (se_conn a)" "no_empty (se_conn b)" "0 < buf"
    "dict_get (message_queues (se_relay a)) (uuid_str cid) = Some []"
    "dict_get (message_queues (se_relay b)) (uuid_str cid) = Some []"
  shows "tunnel_inv cid a b (run_tunnel gunzip buf cid tn tf evs (open_tunnel a b))"
  unfolding run_tunnel_def
  by (rule conjunct1 [OF tunnels.run_keeps])
    (simp add: assms tunnel_inv_def open_tunnel_def flow_start)

section \<open>A tunnel that is not disturbed\<close>

fun undisturbed :: "tunnel_event \<Rightarrow> bool" where
  "undisturbed (Near ev) = (ev = Reads \<or> ev = Writes)"
| "undisturbed (Far ev) = (ev = Reads \<or> ev = Writes)"
| "undisturbed _ = True"

text \<open>A phase in which nothing has gone wrong: it runs, or its reading task has seen the end of the stream.\<close>

definition calm :: "socks_env session \<Rightarrow> bool" where
  "calm \<sigma> \<longleftrightarrow>
     (let s = ss_state \<sigma> in
      length (ss_tasks \<sigma>) = 2 \<and> healthy (se_conn s) \<and> \<not> peer_gone (se_conn s) \<and> se_ws_open s \<and>
      ss_tasks \<sigma> ! 1 = None \<and> (ss_tasks \<sigma> ! 0 = None \<or> ss_tasks \<sigma> ! 0 = Some (Ended (Inr ()))))"

lemma calm_read:
  assumes "calm \<sigma>" "0 < buf" "live 0 \<sigma>"
  shows "calm (tcp_step buf cid t Reads \<sigma>) \<and>
    (live 0 (tcp_step buf cid t Reads \<sigma>) \<longrightarrow>
      pending (se_conn (ss_state (tcp_step buf cid t Reads \<sigma>))) < pending (se_conn (ss_state \<sigma>)))"
proof -
  let ?s = "ss_state \<sigma>"
  obtain r s' where round: "tcp_to_websocket_round buf cid ?s = (r, s')" by fastforce
  obtain x c where x: "sock_recv (min buf 65535) (se_conn ?s) = (x, c)" by fastforce
  from assms(1) have ok: "healthy (se_conn ?s)" "\<not> peer_gone (se_conn ?s)" "se_ws_open ?s" by (simp_all add: calm_def Let_def)
  from recv_healthy [OF ok(1) x] assms(2) obtain d where d: "x = Inr d" "healthy c" "length d \<le> 65535" by auto
  have gone: "peer_gone c = peer_gone (se_conn ?s)"
    using x by (auto simp: sock_recv_def split: if_splits list.splits sum.splits)
  from tcp_data_ok [OF d(3), of cid] obtain frame where f: "pack_message id (tcp_data_message cid d) = Inr frame" by blast
  with x d(1) ok(3) have "tcp_to_websocket_round buf cid ?s = (if d = [] then (Inr True, ?s\<lparr>se_conn := c\<rparr>)
      else (Inr False, ?s\<lparr>se_conn := c, se_ws_sent := se_ws_sent ?s @ [frame]\<rparr>))"
    by (simp add: tcp_to_websocket_round_def on_conn_def io_bind_def ws_send_def)
  with assms gone d(2) ok recv_pending [OF x [unfolded d(1)]] show ?thesis
    by (auto simp: calm_def run_round_def live_def Let_def)
qed

lemma calm_write:
  assumes "calm \<sigma>" "dict_get (message_queues (se_relay (ss_state \<sigma>))) (uuid_str cid) = Some q"
  shows "calm (tcp_step buf cid t Writes \<sigma>) \<and>
    dict_get (message_queues (se_relay (ss_state (tcp_step buf cid t Writes \<sigma>)))) (uuid_str cid) = Some (tl q)"
proof -
  obtain r s' where round: "websocket_to_tcp_round cid (ss_state \<sigma>) = (r, s')" by fastforce
  have ok: "\<not> conn_closed (se_conn (ss_state \<sigma>))" "\<not> peer_gone (se_conn (ss_state \<sigma>))" "ss_tasks \<sigma> ! 1 = None"
    "length (ss_tasks \<sigma>) = 2" using assms(1) by (simp_all add: calm_def healthy_def Let_def)
  have "r = Inr False \<and> inbound (se_conn s') = inbound (se_conn (ss_state \<sigma>)) \<and> \<not> conn_closed (se_conn s') \<and>
      \<not> peer_gone (se_conn s') \<and> se_ws_open s' = se_ws_open (ss_state \<sigma>) \<and>
      dict_get (message_queues (se_relay s')) (uuid_str cid) = Some (tl q)"
    using round assms(2) ok(1,2)
    by (cases q) (auto simp: websocket_to_tcp_round_def take_message_def io_bind_def on_conn_def sock_sendall_def
        dict_simps split: message.splits)
  with round assms(1) ok show ?thesis
    by (simp add: calm_def healthy_def run_round_def live_def Let_def)
qed

lemma calm_outside: "calm (outside (change_relay f) \<sigma>) = calm \<sigma>"
  by (simp add: calm_def Let_def)

lemma calm_reads:
  assumes "calm \<sigma>" "0 < buf"
  shows "calm (tcp_step buf cid t Reads \<sigma>)"
proof (cases "live 0 \<sigma>")
  case True
  with calm_read [OF assms] show ?thesis by blast
next
  case False
  with assms(1) show ?thesis by (simp add: run_round_def Let_def calm_outside)
qed

lemma flow_queue:
  "flow cid a b k src dst \<Longrightarrow> \<exists>q. dict_get (message_queues (se_relay (ss_state dst))) (uuid_str cid) = Some q"
  by (auto simp: flow_def writer_inv_def Let_def)

lemma calm_take:
  assumes "flow cid a b k src dst" "k < length (frames_of src)" "calm dst"
  shows "calm (take_frame gunzip buf cid t (frames_of src ! k) dst)"
  using flow_take(2) [OF assms(1,2), of gunzip buf t] assms(3) by (auto simp: calm_outside)

definition steady :: "uuid \<Rightarrow> socks_env \<Rightarrow> socks_env \<Rightarrow> tunnel \<Rightarrow> bool" where
  "steady cid a b x \<longleftrightarrow> tunnel_inv cid a b x \<and> calm (near x) \<and> calm (far x)"

lemma steady_step:
  assumes "steady cid a b x" "0 < buf" "undisturbed ev"
  shows "steady cid a b (tunnel_step gunzip buf cid tn tf ev x)"
proof -
  have inv: "tunnel_inv cid a b (tunnel_step gunzip buf cid tn tf ev x)"
    using assms tunnel_inv_step by (simp add: steady_def)
  have flows: "flow cid a b (to_far x) (near x) (far x)" "flow cid b a (to_near x) (far x) (near x)"
    and calm: "calm (near x)" "calm (far x)"
    using assms(1) by (simp_all add: steady_def tunnel_inv_def)
  from flow_queue [OF flows(1)] flow_queue [OF flows(2)] obtain q q' where
    "dict_get (message_queues (se_relay (ss_state (far x)))) (uuid_str cid) = Some q"
    "dict_get (message_queues (se_relay (ss_state (near x)))) (uuid_str cid) = Some q'" by blast
  note writes = calm_write [OF calm(2) this(1)] calm_write [OF calm(1) this(2)]
  have "calm (near (tunnel_step gunzip buf cid tn tf ev x)) \<and> calm (far (tunnel_step gunzip buf cid tn tf ev x))"
  proof (cases ev)
    case (Near e)
    with assms(3) have "e = Reads \<or> e = Writes" by simp
    with Near calm calm_reads [OF calm(1) assms(2)] writes(2) show ?thesis by (auto simp del: tcp_step.simps)
  next
    case (Far e)
    with assms(3) have "e = Reads \<or> e = Writes" by simp
    with Far calm calm_reads [OF calm(2) assms(2)] writes(1) show ?thesis by (auto simp del: tcp_step.simps)
  qed (use calm calm_take [OF flows(1)] calm_take [OF flows(2)] in auto)
  with inv show ?thesis by (simp add: steady_def)
qed

text \<open>What an undisturbed tunnel can come to.\<close>

definition can_become ::
    "(bytes \<Rightarrow> bytes res) \<Rightarrow> nat \<Rightarrow> uuid \<Rightarrow> task \<Rightarrow> task \<Rightarrow> tunnel \<Rightarrow> tunnel \<Rightarrow> bool" where
  "can_become gunzip buf cid tn tf x y \<longleftrightarrow>
     (\<exists>evs. list_all undisturbed evs \<and> y = run_tunnel gunzip buf cid tn tf evs x)"

lemma can_become_refl: "can_become gunzip buf cid tn tf x x"
  unfolding can_become_def by (rule exI [of _ "[]"]) (simp add: run_tunnel_def)

lemma can_become_trans:
  assumes "can_become gunzip buf cid tn tf x y" "can_become gunzip buf cid tn tf y z"
  shows "can_become gunzip buf cid tn tf x z"
proof -
  from assms obtain evs evs' where "list_all undisturbed (evs @ evs')" "y = run_tunnel gunzip buf cid tn tf evs x"
    "z = run_tunnel gunzip buf cid tn tf evs' y" by (auto simp: can_become_def)
  then show ?thesis unfolding can_become_def by (intro exI [of _ "evs @ evs'"]) (simp add: run_tunnel_def)
qed

lemma can_step:
  assumes "undisturbed ev" "can_become gunzip buf cid tn tf (tunnel_step gunzip buf cid tn tf ev x) y"
  shows "can_become gunzip buf cid tn tf x y"
  using assms(1) by (intro can_become_trans [OF _ assms(2)])
    (auto simp: can_become_def run_tunnel_def intro!: exI [of _ "[ev]"])

lemma can_read_all:
  assumes "steady cid a b x" "0 < buf"
  shows "\<exists>y. can_become gunzip buf cid tn tf x y \<and> steady cid a b y \<and> \<not> live 0 (near y)"
  using assms(1)
proof (induction "pending (se_conn (ss_state (near x)))" arbitrary: x rule: less_induct)
  case less
  let ?x = "tunnel_step gunzip buf cid tn tf (Near Reads) x"
  have near: "near ?x = tcp_step buf cid tn Reads (near x)" by (simp del: tcp_step.simps)
  have steady: "steady cid a b ?x" by (rule steady_step [OF less.prems assms(2)]) simp
  show ?case
  proof (cases "live 0 (near x) \<and> live 0 (near ?x)")
    case True
    with calm_read [of "near x" buf cid tn] less.prems assms(2)
    have "pending (se_conn (ss_state (near ?x))) < pending (se_conn (ss_state (near x)))"
      unfolding near steady_def by blast
    from less.hyps [OF this steady] obtain y where y: "can_become gunzip buf cid tn tf ?x y"
      "steady cid a b y \<and> \<not> live 0 (near y)" by blast
    from can_step [OF _ y(1)] y(2) show ?thesis by auto
  next
    case False
    have "can_become gunzip buf cid tn tf x ?x" by (rule can_step [OF _ can_become_refl]) simp
    with False less.prems steady show ?thesis using can_become_refl by blast
  qed
qed

lemma can_carry_all:
  assumes "steady cid a b x" "0 < buf"
  shows "\<exists>y. can_become gunzip buf cid tn tf x y \<and> steady cid a b y \<and> near y = near x \<and>
    to_far y = length (frames_of (near y))"
  using assms(1)
proof (induction "length (frames_of (near x)) - to_far x" arbitrary: x rule: less_induct)
  case less
  let ?x = "tunnel_step gunzip buf cid tn tf ToFar x"
  have steady: "steady cid a b ?x" by (rule steady_step [OF less.prems assms(2)]) simp
  show ?case
  proof (cases "to_far x < length (frames_of (near x))")
    case True
    then have x: "near ?x = near x" "length (frames_of (near ?x)) - to_far ?x < length (frames_of (near x)) - to_far x"
      by simp_all
    from less.hyps [OF x(2) steady] obtain y where y: "can_become gunzip buf cid tn tf ?x y"
      "steady cid a b y \<and> near y = near ?x \<and> to_far y = length (frames_of (near y))" by blast
    from can_step [OF _ y(1)] y(2) show ?thesis unfolding x(1) by auto
  next
    case False
    with less.prems have "to_far x = length (frames_of (near x))" by (simp add: steady_def tunnel_inv_def flow_def)
    with less.prems show ?thesis using can_become_refl by blast
  qed
qed

lemma can_write_all:
  assumes "steady cid a b x" "0 < buf" "dict_get (message_queues (se_relay (ss_state (far x)))) (uuid_str cid) = Some q"
  shows "\<exists>y. can_become gunzip buf cid tn tf x y \<and> steady cid a b y \<and> near y = near x \<and> to_far y = to_far x \<and>
    dict_get (message_queues (se_relay (ss_state (far y)))) (uuid_str cid) = Some []"
  using assms(1,3)
proof (induction q arbitrary: x)
  case Nil
  then show ?case using can_become_refl by blast
next
  case (Cons m q)
  let ?x = "tunnel_step gunzip buf cid tn tf (Far Writes) x"
  have steady: "steady cid a b ?x" by (rule steady_step [OF Cons.prems(1) assms(2)]) simp
  have x: "near ?x = near x" "to_far ?x = to_far x" "far ?x = tcp_step buf cid tf Writes (far x)"
    by (simp_all del: tcp_step.simps)
  have "dict_get (message_queues (se_relay (ss_state (far ?x)))) (uuid_str cid) = Some q"
    unfolding x(3) using calm_write [OF _ Cons.prems(2), of buf tf] Cons.prems(1) by (simp add: steady_def)
  from Cons.IH [OF steady this] obtain y where y: "can_become gunzip buf cid tn tf ?x y"
    "steady cid a b y \<and> near y = near ?x \<and> to_far y = to_far ?x \<and>
     dict_get (message_queues (se_relay (ss_state (far y)))) (uuid_str cid) = Some []" by blast
  from can_step [OF _ y(1)] y(2) show ?case unfolding x(1,2) by auto
qed

lemma can_deliver_all:
  assumes "steady cid a b x" "0 < buf"
  shows "\<exists>y. can_become gunzip buf cid tn tf x y \<and> steady cid a b y \<and> delivered_all cid (to_far y) (near y) (far y)"
proof -
  from can_read_all [OF assms] obtain x1 where x1: "can_become gunzip buf cid tn tf x x1" "steady cid a b x1"
    "\<not> live 0 (near x1)" by blast
  from can_carry_all [OF x1(2) assms(2)] obtain x2 where x2: "can_become gunzip buf cid tn tf x1 x2"
    "steady cid a b x2" "near x2 = near x1" "to_far x2 = length (frames_of (near x2))" by blast
  from x2(2) obtain q where "dict_get (message_queues (se_relay (ss_state (far x2)))) (uuid_str cid) = Some q"
    using flow_queue by (fastforce simp: steady_def tunnel_inv_def)
  from can_write_all [OF x2(2) assms(2) this] obtain x3 where x3: "can_become gunzip buf cid tn tf x2 x3"
    "steady cid a b x3" "near x3 = near x2" "to_far x3 = to_far x2"
    "dict_get (message_queues (se_relay (ss_state (far x3)))) (uuid_str cid) = Some []" by blast
  have "delivered_all cid (to_far x3) (near x3) (far x3)"
    using x1(3) x2(3,4) x3 by (auto simp: delivered_all_def steady_def calm_def live_def Let_def)
  with x3(2) show ?thesis using can_become_trans [OF can_become_trans [OF x1(1) x2(1)] x3(1)] by blast
qed

text \<open>The same tunnel seen from the other end.\<close>

definition mirror :: "tunnel \<Rightarrow> tunnel" where
  "mirror x = \<lparr>near = far x, far = near x, to_far = to_near x, to_near = to_far x\<rparr>"

fun mirror_event :: "tunnel_event \<Rightarrow> tunnel_event" where
  "mirror_event (Near ev) = Far ev"
| "mirror_event (Far ev) = Near ev"
| "mirror_event ToFar = ToNear"
| "mirror_event ToNear = ToFar"

lemma mirror_simps [simp]:
  "near (mirror x) = far x" "far (mirror x) = near x" "to_far (mirror x) = to_near x" "to_near (mirror x) = to_far x"
  "mirror (mirror x) = x"
  by (simp_all add: mirror_def)

lemma mirror_step:
  "mirror (tunnel_step gunzip buf cid tn tf ev x) = tunnel_step gunzip buf cid tf tn (mirror_event ev) (mirror x)"
  by (cases ev) (simp_all add: mirror_def)

lemma mirror_run:
  "mirror (run_tunnel gunzip buf cid tn tf evs x) = run_tunnel gunzip buf cid tf tn (map mirror_event evs) (mirror x)"
  unfolding run_tunnel_def by (induction evs arbitrary: x) (simp_all add: mirror_step)

lemma mirror_undisturbed: "list_all undisturbed (map mirror_event evs) = list_all undisturbed evs"
proof -
  have "undisturbed (mirror_event ev) = undisturbed ev" for ev by (cases ev) simp_all
  then show ?thesis by (simp add: list_all_iff)
qed

lemma mirror_can_become:
  "can_become gunzip buf cid tf tn (mirror x) y \<Longrightarrow> can_become gunzip buf cid tn tf x (mirror y)"
  unfolding can_become_def by (metis mirror_run mirror_undisturbed mirror_simps(5))

lemma mirror_steady: "steady cid b a (mirror x) = steady cid a b x"
  by (auto simp: steady_def tunnel_inv_def)

text \<open>What is written stays written.\<close>

lemma writing_grows:
  assumes "dict_get (message_queues (se_relay (ss_state \<sigma>))) (uuid_str cid) = Some q"
  shows "prefix (concat (outbound (se_conn (ss_state \<sigma>)))) (concat (outbound (se_conn (ss_state (tcp_step buf cid t ev \<sigma>)))))"
proof (cases "ev = Writes")
  case True
  obtain r s' where round: "websocket_to_tcp_round cid (ss_state \<sigma>) = (r, s')" by fastforce
  from round assms have "prefix (concat (outbound (se_conn (ss_state \<sigma>)))) (concat (outbound (se_conn s')))"
    by (cases rule: write_round_cases) simp_all
  with True round show ?thesis by (auto simp: run_round_def split: sum.split bool.split)
next
  case False
  from writer_untouched(1) [OF False] show ?thesis by simp
qed

lemma tunnel_writing_grows:
  assumes "tunnel_inv cid a b x" "0 < buf"
  shows "prefix (concat (outbound (se_conn (ss_state (far x)))))
    (concat (outbound (se_conn (ss_state (far (run_tunnel gunzip buf cid tn tf evs x))))))"
  using assms(1)
proof (induction evs arbitrary: x)
  case (Cons ev evs)
  from Cons.prems have flow: "flow cid a b (to_far x) (near x) (far x)" by (simp add: tunnel_inv_def)
  from flow_queue [OF flow] obtain q where
    q: "dict_get (message_queues (se_relay (ss_state (far x)))) (uuid_str cid) = Some q" by blast
  have far: "far (tunnel_step gunzip buf cid tn tf ev x) = far x \<or>
      (\<exists>e. far (tunnel_step gunzip buf cid tn tf ev x) = tcp_step buf cid tf e (far x))"
  proof (cases ev)
    case ToFar
    with flow_take(2) [OF flow, of gunzip buf tf] show ?thesis
      by (cases "to_far x < length (frames_of (near x))") (auto simp del: tcp_step.simps)
  qed (auto simp del: tcp_step.simps)
  have "prefix (concat (outbound (se_conn (ss_state (far x)))))
      (concat (outbound (se_conn (ss_state (far (tunnel_step gunzip buf cid tn tf ev x))))))"
    using far writing_grows [OF q] by (metis prefix_order.order_refl)
  moreover have "prefix (concat (outbound (se_conn (ss_state (far (tunnel_step gunzip buf cid tn tf ev x))))))
      (concat (outbound (se_conn (ss_state (far (run_tunnel gunzip buf cid tn tf (ev # evs) x))))))"
    using Cons.IH [OF tunnel_inv_step [OF Cons.prems assms(2)]] by (simp add: run_tunnel_def)
  ultimately show ?case by (rule prefix_order.trans)
qed (simp add: run_tunnel_def)

lemma undisturbed_steady:
  assumes "steady cid a b x" "0 < buf" "list_all undisturbed evs"
  shows "steady cid a b (run_tunnel gunzip buf cid tn tf evs x)"
  using assms(1,3) unfolding run_tunnel_def
  by (induction evs arbitrary: x) (simp_all add: steady_step [OF _ assms(2)])

section \<open>Properties\<close>

text \<open>
  C7. An open channel is a faithful pair of streams. However the tasks of both ends, the dispatchers,
  disconnects and failures interleave, what is written to the target is at every moment a beginning of what
  the application's socket delivers, and the other way round: nothing is reordered, repeated or made up on the
  way through tasks, codec, WebSocket and queues. And it is all of it as soon as the reading
  task has come to the end of the stream, its frames and the queue are used up, and no write has failed.
\<close>

theorem tunnel_in_order:
  assumes "no_empty (se_conn a)" "no_empty (se_conn b)" "0 < buf"
    "dict_get (message_queues (se_relay a)) (uuid_str cid) = Some []"
    "dict_get (message_queues (se_relay b)) (uuid_str cid) = Some []"
  shows "let x = run_tunnel gunzip buf cid tn tf evs (open_tunnel a b) in \<exists>to_target to_application.
    concat (outbound (se_conn (ss_state (far x)))) = concat (outbound (se_conn b)) @ to_target \<and>
    prefix to_target (stream (inbound (se_conn a))) \<and>
    (delivered_all cid (to_far x) (near x) (far x) \<longrightarrow> to_target = stream (inbound (se_conn a))) \<and>
    concat (outbound (se_conn (ss_state (near x)))) = concat (outbound (se_conn a)) @ to_application \<and>
    prefix to_application (stream (inbound (se_conn b))) \<and>
    (delivered_all cid (to_near x) (far x) (near x) \<longrightarrow> to_application = stream (inbound (se_conn b)))"
proof -
  let ?x = "run_tunnel gunzip buf cid tn tf evs (open_tunnel a b)"
  from run_tunnel_inv [OF assms, of gunzip tn tf evs]
  have "flow cid a b (to_far ?x) (near ?x) (far ?x)" "flow cid b a (to_near ?x) (far ?x) (near ?x)"
    by (simp_all add: tunnel_inv_def)
  from flow_delivers [OF this(1) assms(5)] flow_delivers [OF this(2) assms(4)] show ?thesis
    unfolding Let_def by blast
qed

definition near_env :: socks_env where
  "near_env = change_relay (open_queue (uuid_str 9)) (sample_env (fresh_conn [[71, 69], [84]]))"

definition far_env :: socks_env where
  "far_env = change_relay (open_queue (uuid_str 9)) (sample_env (fresh_conn [[79], [75]]))"

lemma sample_ends [simp]:
  "se_conn near_env = fresh_conn [[71, 69], [84]]" "se_conn far_env = fresh_conn [[79], [75]]"
  "se_ws_open near_env" "se_ws_open far_env"
  "dict_get (message_queues (se_relay near_env)) (uuid_str 9) = Some []"
  "dict_get (message_queues (se_relay far_env)) (uuid_str 9) = Some []"
  by (simp_all add: near_env_def far_env_def sample_env_def open_queue_def dict_simps)

theorem tunnel_in_order_witness:
  "\<exists>to_target. concat (outbound (se_conn (ss_state (far
      (run_tunnel Inr 2 9 1 2 [Near Reads, Far Reads, ToFar, Far Writes, Near Disconnects, ToNear] (open_tunnel near_env far_env)))))) =
    to_target \<and> prefix to_target [71, 69, 84]"
proof -
  have "no_empty (se_conn near_env)" "no_empty (se_conn far_env)" by (simp_all add: no_empty_def fresh_conn_def)
  from tunnel_in_order [OF this, of 2 9 Inr 1 2 "[Near Reads, Far Reads, ToFar, Far Writes, Near Disconnects, ToNear]"]
  show ?thesis unfolding Let_def by (auto simp: fresh_conn_def)
qed



section \<open>A whole connection\<close>

lemma application_ends:
  "\<exists>s'. socks_tcp_forward forwarding t cid s = (Inr (), s') \<and>
    se_conn s' = se_conn (forwarding (change_relay (start_socks_tcp_forward (uuid_str cid) t) s))"
  using ws_send_or_not [of "DisconnectMessage cid None" "forwarding (change_relay (start_socks_tcp_forward (uuid_str cid) t) s)"]
  by (auto simp: socks_tcp_forward_def on_relay_def change_relay_def)

lemma finish_closes:
  "\<exists>s'. finish_channel cid s = (Inr (), s') \<and> se_conn s' = conn_close (se_conn s)"
  using ws_send_or_not [of "DisconnectMessage cid None" "s\<lparr>se_conn := conn_close (se_conn s)\<rparr>"]
  by (auto simp: finish_channel_def on_relay_def)

lemma started_queue:
  "dict_get (message_queues (se_relay (change_relay (start_socks_tcp_forward (uuid_str cid) t) s))) (uuid_str cid) = Some []"
  by (simp add: start_socks_tcp_forward_def open_queue_def Let_def dict_simps)

lemma tunnel_phases:
  assumes "no_empty (se_conn a)" "no_empty (se_conn b)" "0 < buf"
    "dict_get (message_queues (se_relay a)) (uuid_str cid) = Some []"
    "dict_get (message_queues (se_relay b)) (uuid_str cid) = Some []"
  shows "\<exists>es es' to_a to_b.
    let x = run_tunnel gunzip buf cid tn tf evs (open_tunnel a b) in
      near x = tcp_session buf cid tn es a \<and> far x = tcp_session buf cid tf es' b \<and>
      concat (outbound (se_conn (forward_tcp buf cid tn es a))) = concat (outbound (se_conn a)) @ to_a \<and>
      prefix to_a (stream (inbound (se_conn b))) \<and>
      (delivered_all cid (to_near x) (far x) (near x) \<longrightarrow> to_a = stream (inbound (se_conn b))) \<and>
      concat (outbound (se_conn (forward_tcp buf cid tf es' b))) = concat (outbound (se_conn b)) @ to_b \<and>
      prefix to_b (stream (inbound (se_conn a))) \<and>
      (delivered_all cid (to_far x) (near x) (far x) \<longrightarrow> to_b = stream (inbound (se_conn a)))"
proof -
  let ?x = "run_tunnel gunzip buf cid tn tf evs (open_tunnel a b)"
  obtain es es' where es: "near ?x = tcp_session buf cid tn es a" "far ?x = tcp_session buf cid tf es' b"
    using tunnel_projects by blast
  from run_tunnel_inv [OF assms, of gunzip tn tf evs]
  have flows: "flow cid a b (to_far ?x) (near ?x) (far ?x)" "flow cid b a (to_near ?x) (far ?x) (near ?x)"
    by (simp_all add: tunnel_inv_def)
  from flow_delivers [OF flows(1) assms(5)] flow_delivers [OF flows(2) assms(4)] es show ?thesis
    unfolding Let_def forward_tcp_def by metis
qed

lemma application_socket:
  assumes "socks_negotiate u p (se_conn e) = (Inr True, waiting (connect_request tgt port @ rest) segs out)"
    "target_ok tgt" "target_name (so_inet_ntop6 ora) tgt = Inr addr" "0 \<le> port" "port < 65536" "se_ws_open e"
    and "pack_message id (connect_to (so_connect_id ora) addr port) = Inr request"
  shows "se_conn (snd (socks_body (ora\<lparr>so_response := Some (connected (so_connect_id ora)), so_forwarding := forwarding\<rparr>) u p e)) =
    se_conn (forwarding (change_relay (start_socks_tcp_forward (uuid_str (so_connect_id ora)) (so_task ora))
      (after_request ora request (waiting rest segs (out @ [socks_reply 0])) e)))"
proof -
  let ?ora = "ora\<lparr>so_response := Some (connected (so_connect_id ora)), so_forwarding := forwarding\<rparr>"
  have "socks_body ?ora u p e = socks_tcp_forward forwarding (so_task ora) (so_connect_id ora)
      (after_request ora request (waiting rest segs (out @ [socks_reply 0])) e)"
    using application_served [of u p e tgt port rest segs out ?ora addr request] assms by (simp add: after_request_def)
  with application_ends [of forwarding "so_task ora" "so_connect_id ora"
      "after_request ora request (waiting rest segs (out @ [socks_reply 0])) e"]
  show ?thesis by auto
qed

lemma target_socket:
  assumes "\<not> truthy (up_proxy cfg)" "direct_connect os addr port = Inr rc" "se_ws_open r"
    and "dict_get (message_queues (se_relay r)) (uuid_str ch) = Some []" "pack_message id (connected ch) = Inr response"
  shows "outbound (se_conn (snd (handle_network_connection os cfg bound forwarding t (connect_to ch addr port) r))) =
    outbound (se_conn (forwarding (forwarding_from rc response t ch r)))"
proof -
  from assms(4) have "has_key (message_queues (se_relay r)) (uuid_str ch)" by (simp add: has_key_def)
  from target_reached [OF assms(1-3) this assms(5)] finish_closes [of ch "forwarding (forwarding_from rc response t ch r)"]
  show ?thesis by (auto simp: io_finally_def)
qed



end
