(* ===== verification/UdpProtocol.thy ===== *)
theory UdpProtocol
  imports Prelude
begin

text \<open>
  The datagram endpoint between the event loop and the UDP forwarders (class \<open>UDPProtocol\<close> of
  \<^verbatim>\<open>pywssocks/relay.py\<close>). A send waits until the endpoint is ready; sends that wait are kept in order,
  and \<open>up_sent\<close> is what has been handed to the transport.
\<close>

record 'addr udp_protocol =
  up_transport :: bool
  up_recv_queue :: "(bytes \<times> 'addr) list"
  up_ready :: bool
  up_blocked :: "(bytes \<times> 'addr) list"
  up_sent :: "(bytes \<times> 'addr) list"

definition up_init :: "'addr udp_protocol" where
  "up_init = \<lparr>up_transport = False, up_recv_queue = [], up_ready = False, up_blocked = [], up_sent = []\<rparr>"

definition connection_made :: "'addr udp_protocol \<Rightarrow> 'addr udp_protocol" where
  "connection_made u =
     u\<lparr>up_transport := True, up_ready := True, up_blocked := [], up_sent := up_sent u @ up_blocked u\<rparr>"

definition datagram_received :: "bytes \<Rightarrow> 'addr \<Rightarrow> 'addr udp_protocol \<Rightarrow> 'addr udp_protocol" where
  "datagram_received data addr u = u\<lparr>up_recv_queue := up_recv_queue u @ [(data, addr)]\<rparr>"

definition connection_lost :: "'addr udp_protocol \<Rightarrow> 'addr udp_protocol" where
  "connection_lost u = u\<lparr>up_ready := False\<rparr>"

definition udp_send :: "bytes \<Rightarrow> 'addr \<Rightarrow> 'addr udp_protocol \<Rightarrow> 'addr udp_protocol" where
  "udp_send data addr u =
     (if \<not> up_ready u then u\<lparr>up_blocked := up_blocked u @ [(data, addr)]\<rparr>
      else if up_transport u then u\<lparr>up_sent := up_sent u @ [(data, addr)]\<rparr>
      else u)"

text \<open>\<open>receive\<close>: \<open>None\<close> where it goes on waiting.\<close>

definition udp_receive :: "'addr udp_protocol \<Rightarrow> (bytes \<times> 'addr) option \<times> 'addr udp_protocol" where
  "udp_receive u =
     (case up_recv_queue u of
        [] \<Rightarrow> (None, u)
      | d # ds \<Rightarrow> (Some d, u\<lparr>up_recv_queue := ds\<rparr>))"

section \<open>Order\<close>

interpretation datagrams: mailbox "\<lambda>u. Some (up_recv_queue u)" "\<lambda>(data, addr). datagram_received data addr" udp_receive
  by unfold_locales (auto simp: datagram_received_def udp_receive_def)

text \<open>Datagrams are received in the order of their arrival.\<close>

lemma received_in_order:
  "up_recv_queue u = [] \<Longrightarrow>
     \<exists>u'. udp_receive (fold (\<lambda>(data, addr). datagram_received data addr) (d # ds) u) = (Some d, u') \<and>
       up_recv_queue u' = ds"
  using datagrams.first_out [of u "[]" "d # ds" d ds] by simp

text \<open>
  Nothing is sent before the endpoint is ready, what waits is sent in order when it is, and after the
  connection is lost sends wait for a connection that never comes.
\<close>

lemma sends_in_order:
  "up_sent (connection_made (fold (\<lambda>(data, addr). udp_send data addr) ds up_init)) = ds"
proof -
  have "\<not> up_ready u \<Longrightarrow> fold (\<lambda>(data, addr). udp_send data addr) es u = u\<lparr>up_blocked := up_blocked u @ es\<rparr>"
    for es and u :: "'b udp_protocol"
    by (induction es arbitrary: u) (auto simp: udp_send_def)
  from this [of up_init ds] show ?thesis by (simp add: up_init_def connection_made_def)
qed

lemma lost_sends_nothing: "up_sent (udp_send data addr (connection_lost u)) = up_sent u"
  by (simp add: udp_send_def connection_lost_def)

end
