(* ===== verification/UdpForwarding.thy ===== *)
theory UdpForwarding
  imports Forwarding UdpProtocol
begin

text \<open>
  The UDP forwarding phases of \<^verbatim>\<open>pywssocks/relay.py\<close>, in the way of \<open>Forwarding\<close>: at the target's end two tasks
  (\<open>_handle_remote_udp_forward\<close>), at the application's end three, of which the first only watches the control
  connection (\<open>_handle_socks_udp_forward\<close>). Both ends have a datagram endpoint. What
  \<^verbatim>\<open>_sendto\<close> does with an address is a parameter \<open>sendto\<close>.
\<close>

section \<open>State\<close>

type_synonym address = "pystr \<times> int"

record udp_env =
  ue_socks :: socks_env
  ue_udp :: "address udp_protocol"
  ue_out :: "(bytes \<times> pystr option \<times> int option) list"

definition on_socks :: "(socks_env, 'a) io \<Rightarrow> (udp_env, 'a) io" where
  "on_socks m s = (case m (ue_socks s) of (r, e) \<Rightarrow> (r, s\<lparr>ue_socks := e\<rparr>))"

definition sendto_socket ::
    "(pystr option \<Rightarrow> int option \<Rightarrow> unit res) \<Rightarrow> bytes \<times> pystr option \<times> int option \<Rightarrow> (udp_env, unit) io" where
  "sendto_socket sendto datagram s =
     (case datagram of (data, host, port) \<Rightarrow>
        (case sendto host port of
           Inl e \<Rightarrow> (Inl e, s)
         | Inr _ \<Rightarrow> (Inr (), s\<lparr>ue_out := ue_out s @ [(data, host, port)]\<rparr>)))"

text \<open>One item of a task's queue, where there is one.\<close>

definition next_datagram :: "(bytes \<Rightarrow> address \<Rightarrow> (udp_env, unit) io) \<Rightarrow> (udp_env, bool) io" where
  "next_datagram handle s =
     (case udp_receive (ue_udp s) of
        (None, u) \<Rightarrow> (Inr False, s)
      | (Some (data, addr), u) \<Rightarrow> io_bind (handle data addr) (\<lambda>_. io_return False) (s\<lparr>ue_udp := u\<rparr>))"

definition next_message :: "uuid \<Rightarrow> (message \<Rightarrow> (udp_env, unit) io) \<Rightarrow> (udp_env, bool) io" where
  "next_message channel_id handle s =
     (case take_message (uuid_str channel_id) (se_relay (ue_socks s)) of
        (None, r) \<Rightarrow> (Inr False, s)
      | (Some msg, r) \<Rightarrow>
          io_bind (handle msg) (\<lambda>_. io_return False) (s\<lparr>ue_socks := (ue_socks s)\<lparr>se_relay := r\<rparr>\<rparr>))"

section \<open>Tasks\<close>

definition udp_to_websocket_round :: "uuid \<Rightarrow> (udp_env, bool) io" where
  "udp_to_websocket_round channel_id =
     next_datagram (\<lambda>data addr. on_socks (udp_to_websocket channel_id data addr))"

definition websocket_to_udp_round ::
    "(pystr option \<Rightarrow> int option \<Rightarrow> unit res) \<Rightarrow> uuid \<Rightarrow> (udp_env, bool) io" where
  "websocket_to_udp_round sendto channel_id =
     next_message channel_id (\<lambda>msg.
       case websocket_to_udp msg of
         Some datagram \<Rightarrow> sendto_socket sendto datagram
       | None \<Rightarrow> io_return ())"

definition monitor_round :: "(udp_env, bool) io" where
  "monitor_round = io_bind (on_socks (on_conn (sock_recv 1))) (\<lambda>data. io_return (data = []))"

definition socks_udp_to_websocket_round :: "(bytes \<Rightarrow> bytes) \<Rightarrow> uuid \<Rightarrow> (udp_env, bool) io" where
  "socks_udp_to_websocket_round gz channel_id =
     next_datagram (\<lambda>data addr. on_socks (socks_udp_to_websocket gz channel_id data addr))"

definition websocket_to_socks_udp_round ::
    "(pystr \<Rightarrow> bytes option) \<Rightarrow> (pystr option \<Rightarrow> int option \<Rightarrow> unit res) \<Rightarrow> uuid \<Rightarrow> (udp_env, bool) io" where
  "websocket_to_socks_udp_round inet_aton sendto channel_id =
     next_message channel_id (\<lambda>msg s.
       case websocket_to_socks_udp inet_aton (uuid_str channel_id) msg (se_relay (ue_socks s)) of
         Inl e \<Rightarrow> (Inl e, s)
       | Inr None \<Rightarrow> (Inr (), s)
       | Inr (Some (packet, host, port)) \<Rightarrow> sendto_socket sendto (packet, Some host, Some port) s)"

definition remote_udp_tasks ::
    "(pystr option \<Rightarrow> int option \<Rightarrow> unit res) \<Rightarrow> uuid \<Rightarrow> (udp_env, bool) io list" where
  "remote_udp_tasks sendto channel_id =
     [udp_to_websocket_round channel_id, websocket_to_udp_round sendto channel_id]"

definition socks_udp_tasks ::
    "(bytes \<Rightarrow> bytes) \<Rightarrow> (pystr \<Rightarrow> bytes option) \<Rightarrow> (pystr option \<Rightarrow> int option \<Rightarrow> unit res) \<Rightarrow> uuid \<Rightarrow>
     (udp_env, bool) io list" where
  "socks_udp_tasks gz inet_aton sendto channel_id =
     [monitor_round, socks_udp_to_websocket_round gz channel_id,
      websocket_to_socks_udp_round inet_aton sendto channel_id]"

section \<open>A phase\<close>

text \<open>
  \<open>at\<close> is the place of the task that is registered in \<open>udp_tasks\<close>: the one that reads datagrams.
\<close>

datatype udp_event = Task nat | Datagram bytes address | Message message | Closes

definition change_socks :: "(socks_env \<Rightarrow> socks_env) \<Rightarrow> udp_env \<Rightarrow> udp_env" where
  "change_socks f s = s\<lparr>ue_socks := f (ue_socks s)\<rparr>"

fun udp_step ::
    "(udp_env, bool) io list \<Rightarrow> nat \<Rightarrow> uuid \<Rightarrow> task \<Rightarrow> udp_event \<Rightarrow> udp_env session \<Rightarrow> udp_env session" where
  "udp_step tasks at channel_id t (Task i) \<sigma> =
     (if i < length tasks then
        (let \<sigma>' = run_round i (tasks ! i) \<sigma>
         in if i = at \<and> \<not> live i \<sigma>'
            then outside (change_socks (change_relay (\<lambda>r. r\<lparr>done_tasks := insert t (done_tasks r)\<rparr>))) \<sigma>'
            else \<sigma>')
      else \<sigma>)"
| "udp_step tasks at channel_id t (Datagram data addr) \<sigma> =
     outside (\<lambda>s. s\<lparr>ue_udp := datagram_received data addr (ue_udp s)\<rparr>) \<sigma>"
| "udp_step tasks at channel_id t (Message msg) \<sigma> =
     outside (change_socks (change_relay (put_message (uuid_str channel_id) msg))) \<sigma>"
| "udp_step tasks at channel_id t Closes \<sigma> =
     (let \<sigma>' = outside (change_socks (change_relay (disconnect_channel (uuid_str channel_id) default_delay))) \<sigma>
      in if dict_get (udp_tasks (se_relay (ue_socks (ss_state \<sigma>)))) (uuid_str channel_id) = Some t
         then cancel_task at \<sigma>' else \<sigma>')"

definition udp_session ::
    "(udp_env, bool) io list \<Rightarrow> nat \<Rightarrow> uuid \<Rightarrow> task \<Rightarrow> udp_event list \<Rightarrow> udp_env \<Rightarrow> udp_env session" where
  "udp_session tasks at channel_id t events s =
     foldl (\<lambda>\<sigma> ev. udp_step tasks at channel_id t ev \<sigma>) (start_tasks (length tasks) s) events"

text \<open>A phase with a fresh endpoint, as the handlers \<open>socks_udp_forward\<close> and \<open>handle_udp_connection\<close> run it.\<close>

definition endpoint :: "socks_env \<Rightarrow> udp_env" where
  "endpoint s = \<lparr>ue_socks = s, ue_udp = connection_made up_init, ue_out = []\<rparr>"

definition forward_udp ::
    "(udp_env, bool) io list \<Rightarrow> nat \<Rightarrow> uuid \<Rightarrow> task \<Rightarrow> udp_event list \<Rightarrow> socks_env \<Rightarrow> socks_env" where
  "forward_udp tasks at channel_id t events s =
     ue_socks (ss_state (udp_session tasks at channel_id t events (endpoint s)))"

section \<open>The messages of an association\<close>

definition udp_request_message :: "uuid \<Rightarrow> pystr \<Rightarrow> int \<Rightarrow> bytes \<Rightarrow> message" where
  "udp_request_message cid a p body = DataMessage (lit ''udp'') cid body DATA_COMPRESSION_GZIP None None (Some a) (Some p)"

lemma udp_request_crosses:
  assumes "ascii a" "length a < 256" "0 \<le> p" "p < 65536" "length (gz body) < 4294967296"
    and "gunzip (gz body) = Inr body"
  shows "\<exists>frame. pack_message gz (udp_request_message cid a p body) = Inr frame \<and>
    parse_message gunzip frame = Inr (DataMessage (lit ''udp'') cid body DATA_COMPRESSION_GZIP
      (Some []) (Some 0) (Some a) (Some p))"
proof -
  let ?m = "udp_request_message cid a p body"
  have "packable gz ?m"
    using assms by (simp add: udp_request_message_def DATA_COMPRESSION_GZIP_def endpoint_fits_def text_fits_def
        port_fits_def ascii_valid_str)
  then obtain frame where f: "pack_message gz ?m = Inr frame"
    using pack_message_ok_iff [of ?m gz] by (auto simp: udp_request_message_def)
  have "parse_message gunzip frame = Inr (norm_message ?m)"
    by (rule parse_pack_message [OF _ _ f]) (simp_all add: assms udp_request_message_def)
  with f show ?thesis by (simp add: udp_request_message_def addr_or_empty_def port_or_zero_def)
qed

lemma udp_answer_crosses:
  assumes "ascii b" "length b < 256" "0 \<le> q" "q < 65536" "length data < 4294967296"
  shows "\<exists>frame. pack_message id (udp_data_message cid data (b, q)) = Inr frame \<and>
    parse_message gunzip frame = Inr (DataMessage (lit ''udp'') cid data DATA_COMPRESSION_NONE
      (Some b) (Some q) (Some []) (Some 0))"
proof -
  let ?m = "udp_data_message cid data (b, q)"
  have "packable id ?m"
    using assms by (simp add: udp_data_message_def DATA_COMPRESSION_NONE_def DATA_COMPRESSION_GZIP_def
        endpoint_fits_def text_fits_def port_fits_def ascii_valid_str)
  then obtain frame where f: "pack_message id ?m = Inr frame"
    using pack_message_ok_iff [of ?m id] by (auto simp: udp_data_message_def)
  have "parse_message gunzip frame = Inr (norm_message ?m)"
    by (rule parse_pack_message [OF _ _ f])
      (simp_all add: assms udp_data_message_def DATA_COMPRESSION_NONE_def DATA_COMPRESSION_GZIP_def)
  with f show ?thesis by (simp add: udp_data_message_def addr_or_empty_def port_or_zero_def)
qed

section \<open>Rounds that succeed\<close>

lemma change_socks_simps [simp]:
  "ue_socks (change_socks f s) = f (ue_socks s)" "ue_udp (change_socks f s) = ue_udp s" "ue_out (change_socks f s) = ue_out s"
  by (simp_all add: change_socks_def)

lemma run_round_on:
  "live i \<sigma> \<Longrightarrow> round (ss_state \<sigma>) = (Inr False, s') \<Longrightarrow> run_round i round \<sigma> = \<sigma>\<lparr>ss_state := s'\<rparr>"
  by (simp add: run_round_def)

lemma live_state [simp]: "live i (\<sigma>\<lparr>ss_state := s\<rparr>) = live i \<sigma>"
  by (simp add: live_def)

lemma application_reads:
  assumes "live 1 \<sigma>" "up_recv_queue (ue_udp (ss_state \<sigma>)) = (d, client) # ds"
    and "parse_udp_request d = Inr (Some (a, p, body))"
    and "pack_message gz (udp_request_message cid a p body) = Inr frame" "se_ws_open (ue_socks (ss_state \<sigma>))"
  defines "r \<equiv> se_relay (ue_socks (ss_state \<sigma>))"
  shows "udp_step (socks_udp_tasks gz inet_aton sendto cid) 1 cid t (Task 1) \<sigma> = \<sigma>\<lparr>ss_state := (ss_state \<sigma>)\<lparr>
    ue_socks := (ue_socks (ss_state \<sigma>))\<lparr>
      se_relay := r\<lparr>udp_client_addrs := dict_set (uuid_str cid) client (udp_client_addrs r)\<rparr>,
      se_ws_sent := se_ws_sent (ue_socks (ss_state \<sigma>)) @ [frame]\<rparr>,
    ue_udp := (ue_udp (ss_state \<sigma>))\<lparr>up_recv_queue := ds\<rparr>\<rparr>\<rparr>"
proof -
  have "socks_udp_to_websocket_round gz cid (ss_state \<sigma>) = (Inr False, (ss_state \<sigma>)\<lparr>
    ue_socks := (ue_socks (ss_state \<sigma>))\<lparr>
      se_relay := r\<lparr>udp_client_addrs := dict_set (uuid_str cid) client (udp_client_addrs r)\<rparr>,
      se_ws_sent := se_ws_sent (ue_socks (ss_state \<sigma>)) @ [frame]\<rparr>,
    ue_udp := (ue_udp (ss_state \<sigma>))\<lparr>up_recv_queue := ds\<rparr>\<rparr>)"
    using assms
    by (simp add: socks_udp_to_websocket_round_def next_datagram_def udp_receive_def on_socks_def io_bind_def
        socks_udp_to_websocket_def on_relay_def udp_ws_send_def udp_request_message_def
        del: pack_message.simps lit_Cons)
  from run_round_on [where round = "socks_udp_to_websocket_round gz cid" and \<sigma> = "\<sigma>", OF assms(1) this] assms(1) show ?thesis
    by (simp add: socks_udp_tasks_def Let_def)
qed

lemma target_sends:
  assumes "live 1 \<tau>" "dict_get (message_queues (se_relay (ue_socks (ss_state \<tau>)))) (uuid_str cid) = Some []"
    and "websocket_to_udp msg = Some (body, host, port)" "sendto host port = Inr ()"
  shows "\<exists>s'. foldl (\<lambda>\<tau> ev. udp_step (remote_udp_tasks sendto cid) 0 cid t ev \<tau>) \<tau> [Message msg, Task 1] = \<tau>\<lparr>ss_state := s'\<rparr> \<and>
    ue_out s' = ue_out (ss_state \<tau>) @ [(body, host, port)] \<and> ue_udp s' = ue_udp (ss_state \<tau>) \<and>
    se_ws_open (ue_socks s') = se_ws_open (ue_socks (ss_state \<tau>)) \<and>
    se_ws_sent (ue_socks s') = se_ws_sent (ue_socks (ss_state \<tau>))"
proof -
  let ?\<tau> = "udp_step (remote_udp_tasks sendto cid) 0 cid t (Message msg) \<tau>"
  obtain r where "take_message (uuid_str cid) (se_relay (ue_socks (ss_state ?\<tau>))) = (Some msg, r)"
    using mail.sole_message [OF assms(2)] by auto
  then have "websocket_to_udp_round sendto cid (ss_state ?\<tau>) = (Inr False, (ss_state ?\<tau>)\<lparr>
      ue_socks := (ue_socks (ss_state ?\<tau>))\<lparr>se_relay := r\<rparr>, ue_out := ue_out (ss_state \<tau>) @ [(body, host, port)]\<rparr>)"
    using assms(3,4) by (simp add: websocket_to_udp_round_def next_message_def sendto_socket_def io_bind_def)
  from run_round_on [where round = "websocket_to_udp_round sendto cid" and \<sigma> = "?\<tau>", OF _ this] assms(1) show ?thesis
    by (auto simp: remote_udp_tasks_def Let_def outside_def change_relay_def)
qed

lemma target_reads:
  assumes "live 0 \<tau>" "up_recv_queue (ue_udp (ss_state \<tau>)) = []" "se_ws_open (ue_socks (ss_state \<tau>))"
    and "pack_message id (udp_data_message cid data addr) = Inr frame"
  shows "\<exists>s'. foldl (\<lambda>\<tau> ev. udp_step (remote_udp_tasks sendto cid) 0 cid t ev \<tau>) \<tau> [Datagram data addr, Task 0] = \<tau>\<lparr>ss_state := s'\<rparr> \<and>
    se_ws_sent (ue_socks s') = se_ws_sent (ue_socks (ss_state \<tau>)) @ [frame]"
proof -
  let ?\<tau> = "udp_step (remote_udp_tasks sendto cid) 0 cid t (Datagram data addr) \<tau>"
  have "udp_to_websocket_round cid (ss_state ?\<tau>) = (Inr False, (ss_state ?\<tau>)\<lparr>
      ue_udp := ue_udp (ss_state \<tau>), ue_socks := (ue_socks (ss_state \<tau>))\<lparr>se_ws_sent := se_ws_sent (ue_socks (ss_state \<tau>)) @ [frame]\<rparr>\<rparr>)"
    using assms(2-4)
    by (simp add: udp_to_websocket_round_def next_datagram_def udp_receive_def datagram_received_def on_socks_def
        udp_to_websocket_def ws_send_def io_bind_def del: pack_message.simps)
  from run_round_on [where round = "udp_to_websocket_round cid" and \<sigma> = "?\<tau>", OF _ this] assms(1) show ?thesis
    by (auto simp: remote_udp_tasks_def Let_def outside_def)
qed

lemma application_sends:
  assumes "live 2 \<sigma>" "dict_get (message_queues (se_relay (ue_socks (ss_state \<sigma>)))) (uuid_str cid) = Some []"
    and "dict_get (udp_client_addrs (se_relay (ue_socks (ss_state \<sigma>)))) (uuid_str cid) = Some (host, port)"
    and "build_udp_reply inet_aton b q data = Inr packet" "sendto (Some host) (Some port) = Inr ()"
    and "msg = DataMessage protocol cid' data compression (Some b) (Some q) ta tp"
  shows "ue_out (ss_state (foldl (\<lambda>\<sigma> ev. udp_step (socks_udp_tasks gz inet_aton sendto cid) 1 cid t ev \<sigma>) \<sigma> [Message msg, Task 2])) =
    ue_out (ss_state \<sigma>) @ [(packet, Some host, Some port)]"
proof -
  let ?\<sigma> = "udp_step (socks_udp_tasks gz inet_aton sendto cid) 1 cid t (Message msg) \<sigma>"
  obtain r where r: "take_message (uuid_str cid) (se_relay (ue_socks (ss_state ?\<sigma>))) = (Some msg, r)"
    using mail.sole_message [OF assms(2)] by auto
  have "udp_client_addrs r = udp_client_addrs (se_relay (ue_socks (ss_state \<sigma>)))"
    using r by (auto simp: take_message_def put_message_def split: option.splits list.splits)
  with r have "websocket_to_socks_udp_round inet_aton sendto cid (ss_state ?\<sigma>) = (Inr False, (ss_state ?\<sigma>)\<lparr>
      ue_socks := (ue_socks (ss_state ?\<sigma>))\<lparr>se_relay := r\<rparr>, ue_out := ue_out (ss_state \<sigma>) @ [(packet, Some host, Some port)]\<rparr>)"
    using assms(3-6) by (simp add: websocket_to_socks_udp_round_def next_message_def websocket_to_socks_udp_def
        sendto_socket_def io_bind_def)
  from run_round_on [where round = "websocket_to_socks_udp_round inet_aton sendto cid" and \<sigma> = "?\<sigma>", OF _ this] assms(1) show ?thesis
    by (simp add: socks_udp_tasks_def Let_def)
qed

section \<open>Who touches the control connection\<close>

abbreviation control :: "udp_env session \<Rightarrow> conn" where
  "control \<sigma> \<equiv> se_conn (ue_socks (ss_state \<sigma>))"

lemma application_reader_conn:
  "socks_udp_to_websocket_round gz cid s = (r, s') \<Longrightarrow> se_conn (ue_socks s') = se_conn (ue_socks s)"
  by (auto simp: socks_udp_to_websocket_round_def next_datagram_def on_socks_def socks_udp_to_websocket_def
      on_relay_def udp_ws_send_def io_bind_def split: option.splits prod.splits sum.splits if_splits)

lemma application_writer_conn:
  "websocket_to_socks_udp_round inet_aton sendto cid s = (r, s') \<Longrightarrow> se_conn (ue_socks s') = se_conn (ue_socks s)"
  by (auto simp: websocket_to_socks_udp_round_def next_message_def sendto_socket_def io_bind_def
      split: option.splits prod.splits sum.splits)

lemma run_round_state:
  assumes "\<And>r s'. round (ss_state \<sigma>) = (r, s') \<Longrightarrow> f s' = f (ss_state \<sigma>)"
  shows "f (ss_state (run_round i round \<sigma>)) = f (ss_state \<sigma>)"
proof -
  obtain r s' where "round (ss_state \<sigma>) = (r, s')" by fastforce
  with assms [OF this] show ?thesis by (auto simp: run_round_def split: sum.split bool.split)
qed

lemma control_untouched:
  assumes "ev \<noteq> Task 0"
  shows "control (udp_step (socks_udp_tasks gz inet_aton sendto cid) 1 cid t ev \<sigma>) = control \<sigma>"
proof (cases ev)
  case (Task i)
  show ?thesis
  proof (cases "i = 1 \<or> i = 2")
    case True
    with Task show ?thesis
      using run_round_state [of "socks_udp_to_websocket_round gz cid" \<sigma> "\<lambda>s. se_conn (ue_socks s)" 1]
        run_round_state [of "websocket_to_socks_udp_round inet_aton sendto cid" \<sigma> "\<lambda>s. se_conn (ue_socks s)" 2]
        application_reader_conn application_writer_conn
      by (auto simp: socks_udp_tasks_def Let_def)
  next
    case False
    with Task assms have "\<not> i < 3" by auto
    with Task show ?thesis by (simp add: socks_udp_tasks_def)
  qed
qed (simp_all add: Let_def)

lemma ended_stays:
  "first_completed \<sigma> \<Longrightarrow> first_completed (udp_step tasks at cid t ev \<sigma>)"
proof -
  assume "first_completed \<sigma>"
  then obtain i where i: "i < length (ss_tasks \<sigma>)" "ss_tasks \<sigma> ! i \<noteq> None"
    by (auto simp: first_completed_def list_ex_length)
  have "length (ss_tasks (udp_step tasks at cid t ev \<sigma>)) = length (ss_tasks \<sigma>) \<and>
      ss_tasks (udp_step tasks at cid t ev \<sigma>) ! i = ss_tasks \<sigma> ! i"
    using i by (cases ev) (auto simp: run_round_def Let_def live_def nth_list_update split: prod.split sum.split bool.split)
  with i show ?thesis by (auto simp: first_completed_def list_ex_length)
qed

lemma watch_round:
  assumes "live 0 \<sigma>" "\<not> first_completed (udp_step (socks_udp_tasks gz inet_aton sendto cid) 1 cid t (Task 0) \<sigma>)"
  defines "\<sigma>' \<equiv> udp_step (socks_udp_tasks gz inet_aton sendto cid) 1 cid t (Task 0) \<sigma>"
  shows "live 0 \<sigma>' \<and> pending (control \<sigma>') < pending (control \<sigma>)"
proof -
  obtain r c where r: "sock_recv 1 (control \<sigma>) = (r, c)" by fastforce
  have step: "\<sigma>' = run_round 0 monitor_round \<sigma>" by (simp add: \<sigma>'_def socks_udp_tasks_def Let_def)
  have fc: "first_completed (end_task 0 x (\<sigma>\<lparr>ss_state := s\<rparr>))" for x s
    using assms(1) by (auto simp: first_completed_def list_ex_length live_def)
  show ?thesis
  proof (cases "\<exists>d. r = Inr d \<and> d \<noteq> []")
    case True
    then obtain d where d: "r = Inr d" "d \<noteq> []" by blast
    with r have "monitor_round (ss_state \<sigma>) = (Inr False, (ss_state \<sigma>)\<lparr>ue_socks := (ue_socks (ss_state \<sigma>))\<lparr>se_conn := c\<rparr>\<rparr>)"
      by (simp add: monitor_round_def on_socks_def on_conn_def io_bind_def)
    with assms(1) recv_pending [OF r [unfolded d(1)] d(2)] show ?thesis unfolding step by (simp add: run_round_def)
  next
    case False
    with r have "(\<exists>e s. monitor_round (ss_state \<sigma>) = (Inl e, s)) \<or> (\<exists>s. monitor_round (ss_state \<sigma>) = (Inr True, s))"
      by (cases r) (auto simp: monitor_round_def on_socks_def on_conn_def io_bind_def)
    with assms(1,2) fc show ?thesis unfolding \<sigma>'_def [symmetric] step by (auto simp: run_round_def)
  qed
qed

lemma association_ends:
  assumes "pending (control \<sigma>) < count_list evs (Task 0)" "live 0 \<sigma> \<or> first_completed \<sigma>"
  shows "first_completed (foldl (\<lambda>\<sigma> ev. udp_step (socks_udp_tasks gz inet_aton sendto cid) 1 cid t ev \<sigma>) \<sigma> evs)"
  using assms
proof (induction evs arbitrary: \<sigma>)
  case (Cons ev evs)
  let ?\<sigma> = "udp_step (socks_udp_tasks gz inet_aton sendto cid) 1 cid t ev \<sigma>"
  have stays: "first_completed \<tau> \<Longrightarrow>
      first_completed (foldl (\<lambda>\<sigma> ev. udp_step (socks_udp_tasks gz inet_aton sendto cid) 1 cid t ev \<sigma>) \<tau> evs)" for \<tau>
    by (induction evs arbitrary: \<tau>) (auto intro: ended_stays simp del: udp_step.simps)
  show ?case
  proof (cases "first_completed ?\<sigma>")
    case True
    with stays show ?thesis by simp
  next
    case False
    with ended_stays have live: "live 0 \<sigma>" using Cons.prems(2) by blast
    show ?thesis
    proof (cases "ev = Task 0")
      case True
      with watch_round [OF live] False have "live 0 ?\<sigma>" "pending (control ?\<sigma>) < pending (control \<sigma>)" by blast+
      with Cons.IH [of ?\<sigma>] Cons.prems(1) True show ?thesis by simp
    next
      case other: False
      have "0 < length (ss_tasks ?\<sigma>)" "length (ss_tasks ?\<sigma>) = length (ss_tasks \<sigma>)"
        using live by (cases ev; auto simp: live_def run_round_def Let_def split: prod.split sum.split bool.split)+
      with False have "live 0 ?\<sigma>" unfolding live_def first_completed_def list_ex_length by metis
      with Cons.IH [of ?\<sigma>] Cons.prems(1) other control_untouched [OF other] show ?thesis by simp
    qed
  qed
qed simp

section \<open>Properties\<close>

text \<open>
  C14. A datagram reaches its target, and an answer comes back. A datagram that the application sends to the
  association's port is read by the first end, whose frame the other end reads as a message with the same
  content and target, and which sends exactly that content to exactly that target; a datagram that
  comes in there from any sender crosses back with the sender's address, and the application's
  socket, the one the last datagram came from, is sent a packet whose header names the sender and whose
  body is the datagram.
\<close>

theorem udp_there_and_back:
  fixes t t' gz inet_aton
  assumes app: "live 1 \<sigma>" "live 2 \<sigma>" "up_recv_queue (ue_udp (ss_state \<sigma>)) = (d, client) # ds"
      "se_ws_open (ue_socks (ss_state \<sigma>))"
      "dict_get (message_queues (se_relay (ue_socks (ss_state \<sigma>)))) (uuid_str cid) = Some []"
    and target: "live 0 \<tau>" "live 1 \<tau>" "up_recv_queue (ue_udp (ss_state \<tau>)) = []" "se_ws_open (ue_socks (ss_state \<tau>))"
      "dict_get (message_queues (se_relay (ue_socks (ss_state \<tau>)))) (uuid_str cid) = Some []"
    and datagram: "parse_udp_request d = Inr (Some (a, p, body))" "ascii a" "length a < 256"
      "0 \<le> p" "p < 65536" "length (gz body) < 4294967296" "gunzip (gz body) = Inr body" "sendto (Some a) (Some p) = Inr ()"
    and answer: "ascii b" "length b < 256" "0 \<le> q" "q < 65536" "length data < 4294967296"
      "case inet_aton b of Some n \<Rightarrow> inet_ntoa n = Inr b | None \<Rightarrow> True"
      "sendto' (Some (fst client)) (Some (snd client)) = Inr ()"
  defines "app_step \<equiv> \<lambda>\<sigma> ev. udp_step (socks_udp_tasks gz inet_aton sendto' cid) 1 cid t ev \<sigma>"
    and "target_step \<equiv> \<lambda>\<tau> ev. udp_step (remote_udp_tasks sendto cid) 0 cid t' ev \<tau>"
  shows "\<exists>frame msg frame' msg' packet.
    se_ws_sent (ue_socks (ss_state (app_step \<sigma> (Task 1)))) = se_ws_sent (ue_socks (ss_state \<sigma>)) @ [frame] \<and>
    parse_message gunzip frame = Inr msg \<and>
    (let \<tau>' = foldl target_step \<tau> [Message msg, Task 1]; \<tau>'' = foldl target_step \<tau>' [Datagram data (b, q), Task 0];
         \<sigma>' = foldl app_step \<sigma> [Task 1, Message msg', Task 2] in
      ue_out (ss_state \<tau>') = ue_out (ss_state \<tau>) @ [(body, Some a, Some p)] \<and>
      se_ws_sent (ue_socks (ss_state \<tau>'')) = se_ws_sent (ue_socks (ss_state \<tau>)) @ [frame'] \<and>
      parse_message gunzip frame' = Inr msg' \<and>
      ue_out (ss_state \<sigma>') = ue_out (ss_state \<sigma>) @ [(packet, Some (fst client), Some (snd client))] \<and>
      parse_udp_request packet = Inr (Some (b, q, data)))"
proof -
  let ?msg = "DataMessage (lit ''udp'') cid body DATA_COMPRESSION_GZIP (Some []) (Some 0) (Some a) (Some p)"
  let ?msg' = "DataMessage (lit ''udp'') cid data DATA_COMPRESSION_NONE (Some b) (Some q) (Some []) (Some 0)"
  obtain frame where frame: "pack_message gz (udp_request_message cid a p body) = Inr frame" "parse_message gunzip frame = Inr ?msg"
    using udp_request_crosses [of a p gz body gunzip cid] datagram(2-7) by blast
  obtain frame' where frame': "pack_message id (udp_data_message cid data (b, q)) = Inr frame'" "parse_message gunzip frame' = Inr ?msg'"
    using udp_answer_crosses [OF answer(1-5)] by blast
  have app_step: "app_step \<sigma> (Task 1) = udp_step (socks_udp_tasks gz inet_aton sendto' cid) 1 cid t (Task 1) \<sigma>"
    by (simp only: app_step_def)
  note read = application_reads [OF app(1,3) datagram(1) frame(1) app(4), of inet_aton sendto' t, folded app_step]
  obtain s' where sent: "foldl target_step \<tau> [Message ?msg, Task 1] = \<tau>\<lparr>ss_state := s'\<rparr>"
    "ue_out s' = ue_out (ss_state \<tau>) @ [(body, Some a, Some p)]" "ue_udp s' = ue_udp (ss_state \<tau>)"
    "se_ws_open (ue_socks s') = se_ws_open (ue_socks (ss_state \<tau>))" "se_ws_sent (ue_socks s') = se_ws_sent (ue_socks (ss_state \<tau>))"
    using target_sends [OF target(2,5), of ?msg body "Some a" "Some p" sendto t'] datagram(8)
    unfolding target_step_def [symmetric] by (auto simp: websocket_to_udp_def)
  have returned: "\<exists>s''. foldl target_step (\<tau>\<lparr>ss_state := s'\<rparr>) [Datagram data (b, q), Task 0] = \<tau>\<lparr>ss_state := s'\<rparr>\<lparr>ss_state := s''\<rparr> \<and>
      se_ws_sent (ue_socks s'') = se_ws_sent (ue_socks s') @ [frame']"
    using target_reads [of "\<tau>\<lparr>ss_state := s'\<rparr>" cid data "(b, q)" frame' sendto t'] target(1,3,4) frame'(1) sent(3,4)
    unfolding target_step_def [symmetric] by simp
  have "case inet_aton b of Some n \<Rightarrow> inet_ntoa n = Inr b | None \<Rightarrow> \<exists>e. utf8_encode b = Inr e \<and> length e < 256"
    using answer(1,2,6) by (auto simp: utf8_encode_ascii split: option.splits)
  with udp_header_roundtrip [where p = q and inet_aton = inet_aton and a = b and data = data] answer(3,4) obtain packet where
    packet: "build_udp_reply inet_aton b q data = Inr packet" "parse_udp_request packet = Inr (Some (b, q, data))"
    by (auto simp: res_simps)
  define \<sigma>1 where "\<sigma>1 = app_step \<sigma> (Task 1)"
  have ready: "live 2 \<sigma>1" "dict_get (message_queues (se_relay (ue_socks (ss_state \<sigma>1)))) (uuid_str cid) = Some []"
    "dict_get (udp_client_addrs (se_relay (ue_socks (ss_state \<sigma>1)))) (uuid_str cid) = Some (fst client, snd client)"
    "ue_out (ss_state \<sigma>1) = ue_out (ss_state \<sigma>)"
    using app(2,5) unfolding \<sigma>1_def read by (simp_all add: dict_simps)
  have out: "ue_out (ss_state (foldl app_step \<sigma> [Task 1, Message ?msg', Task 2])) =
      ue_out (ss_state \<sigma>) @ [(packet, Some (fst client), Some (snd client))]"
    using application_sends [where inet_aton = inet_aton and sendto = sendto' and b = b and q = q and data = data,
        OF ready(1-3) packet(1) answer(7) refl, of gz t] ready(4)
    unfolding app_step_def [symmetric] \<sigma>1_def by simp
  have first: "se_ws_sent (ue_socks (ss_state (app_step \<sigma> (Task 1)))) = se_ws_sent (ue_socks (ss_state \<sigma>)) @ [frame]"
    unfolding read by simp
  from returned obtain s'' where second: "foldl target_step (\<tau>\<lparr>ss_state := s'\<rparr>) [Datagram data (b, q), Task 0] = \<tau>\<lparr>ss_state := s'\<rparr>\<lparr>ss_state := s''\<rparr>"
    "se_ws_sent (ue_socks s'') = se_ws_sent (ue_socks s') @ [frame']" by blast
  show ?thesis
    by (rule exI [of _ frame], rule exI [of _ ?msg], rule exI [of _ frame'], rule exI [of _ ?msg'], rule exI [of _ packet])
      (use out first second frame(2) frame'(2) sent packet(2) in \<open>simp add: Let_def del: foldl_Cons One_nat_def\<close>)
qed

definition asking :: udp_env where
  "asking = (endpoint (change_relay (open_queue (uuid_str 9)) (sample_env (fresh_conn [[0]]))))
     \<lparr>ue_udp := datagram_received ([0, 0, 0, 1, 10, 0, 0, 1, 0, 53, 7, 8]) (lit ''c'', 5000) (connection_made up_init)\<rparr>"

definition idle :: udp_env where
  "idle = endpoint (change_relay (open_queue (uuid_str 9)) (sample_env (fresh_conn [])))"

theorem udp_there_and_back_witness:
  "\<exists>msg. ue_out (ss_state (foldl (\<lambda>\<tau> ev. udp_step (remote_udp_tasks (\<lambda>_ _. Inr ()) 9) 0 9 1 ev \<tau>)
    (start_tasks 2 idle) [Message msg, Task 1])) = [([7, 8], Some (lit ''10.0.0.1''), Some 53)]"
proof -
  have s: "live 1 (start_tasks 3 asking)" "live 2 (start_tasks 3 asking)"
    "up_recv_queue (ue_udp (ss_state (start_tasks 3 asking))) = ([0, 0, 0, 1, 10, 0, 0, 1, 0, 53, 7, 8], (lit ''c'', 5000)) # []"
    "se_ws_open (ue_socks (ss_state (start_tasks 3 asking)))"
    "dict_get (message_queues (se_relay (ue_socks (ss_state (start_tasks 3 asking))))) (uuid_str 9) = Some []"
    by (simp_all add: live_def asking_def endpoint_def datagram_received_def connection_made_def up_init_def
        sample_env_def open_queue_def dict_simps numeral_2_eq_2)
  have t: "live 0 (start_tasks 2 idle)" "live 1 (start_tasks 2 idle)" "up_recv_queue (ue_udp (ss_state (start_tasks 2 idle))) = []"
    "se_ws_open (ue_socks (ss_state (start_tasks 2 idle)))"
    "dict_get (message_queues (se_relay (ue_socks (ss_state (start_tasks 2 idle))))) (uuid_str 9) = Some []"
    "ue_out (ss_state (start_tasks 2 idle)) = []"
    by (simp_all add: live_def idle_def endpoint_def connection_made_def up_init_def sample_env_def open_queue_def
        dict_simps numeral_2_eq_2)
  have d: "parse_udp_request [0, 0, 0, 1, 10, 0, 0, 1, 0, 53, 7, 8] = Inr (Some (lit ''10.0.0.1'', 53, [7, 8]))"
    using lit_10_0_0_1 by (simp add: parse_udp_request_def byte_at_def index_res_def of_be_def of_digits_def del: lit_Cons)
  have a: "ascii (lit ''10.0.0.1'')" "length (lit ''10.0.0.1'') < 256" by simp_all
  from udp_there_and_back [OF s t(1-5) d a, where gz = rev and gunzip = "\<lambda>b. Inr (rev b)" and b = "[97]" and q = 53
      and data = "[1]" and inet_aton = "\<lambda>_. None" and sendto = "\<lambda>_ _. Inr ()" and sendto' = "\<lambda>_ _. Inr ()" and t = 1 and t' = 1]
  show ?thesis unfolding Let_def t(6) by (auto simp del: foldl_Cons lit_Cons)
qed

text \<open>
  C28. An association lives no longer than its control connection: however the rounds of its tasks are interleaved
  with datagrams, messages and a disconnect, once the watching task has had more rounds than there are bytes (and
  errors) to come on that connection, a task has ended and the phase with it.
\<close>

theorem control_close_ends_association:
  assumes "pending (se_conn (ue_socks s)) < count_list evs (Task 0)"
  shows "first_completed (udp_session (socks_udp_tasks gz inet_aton sendto cid) 1 cid t evs s)"
  unfolding udp_session_def
  by (rule association_ends) (simp_all add: assms live_def socks_udp_tasks_def)

theorem control_close_ends_association_witness:
  "first_completed (udp_session (socks_udp_tasks id (\<lambda>_. None) (\<lambda>_ _. Inr ()) 9) 1 9 1
     [Task 0, Task 1, Message (PartnersMessage JNull), Task 0, Task 2, Task 0] asking)"
  by (rule control_close_ends_association)
    (simp add: asking_def endpoint_def sample_env_def pending_def fresh_conn_def)

end
