(* ===== verification/Isolation.thy ===== *)
theory Isolation
  imports EndToEnd
begin

text \<open>
  The channels that share a WebSocket, and the clients that share a server, do not get in each other's way:
  a message changes what is kept for the channel it names and nothing that is kept for another. The
  connector operations of a client change tokens, never channels.
\<close>

section \<open>What is kept for a channel\<close>

record channel =
  ch_queue :: "message list option"
  ch_tcp_task :: "task option"
  ch_udp_task :: "task option"
  ch_address :: "(pystr \<times> int) option"
  ch_success :: "bool option"

definition channel_of :: "uuid \<Rightarrow> 'a relay_scheme \<Rightarrow> channel" where
  "channel_of ch s =
     \<lparr>ch_queue = dict_get (message_queues s) (uuid_str ch), ch_tcp_task = dict_get (tcp_tasks s) (uuid_str ch),
      ch_udp_task = dict_get (udp_tasks s) (uuid_str ch), ch_address = dict_get (udp_client_addrs s) (uuid_str ch),
      ch_success = dict_get (connection_success_map s) (uuid_str ch)\<rparr>"

definition route_of :: "uuid \<Rightarrow> server \<Rightarrow> ws option \<times> ws option" where
  "route_of ch s = (cc_get_client ch (srv_conn_cache s), cc_get_connector ch (srv_conn_cache s))"

text \<open>The frames that do not name the channel: other messages, and what is not a message at all.\<close>

fun names_channel :: "message \<Rightarrow> uuid option" where
  "names_channel (ConnectMessage p cid a port) = Some cid"
| "names_channel (ConnectResponseMessage s cid e) = Some cid"
| "names_channel (DataMessage p cid d z a port ta tp) = Some cid"
| "names_channel (DisconnectMessage cid e) = Some cid"
| "names_channel (ConnectorMessage cid t operation) = Some cid"
| "names_channel (ConnectorResponseMessage s cid e t) = Some cid"
| "names_channel m = None"

definition spares :: "(bytes \<Rightarrow> bytes res) \<Rightarrow> uuid \<Rightarrow> frame \<Rightarrow> bool" where
  "spares gunzip ch f \<longleftrightarrow>
     (case f of
        Binary bs \<Rightarrow> (case parse_message gunzip bs of Inl e \<Rightarrow> True | Inr msg \<Rightarrow> names_channel msg \<noteq> Some ch)
      | _ \<Rightarrow> True)"

section \<open>Operations on other channels\<close>

lemma channel_of_put: "c \<noteq> uuid_str ch \<Longrightarrow> channel_of ch (put_message c m s) = channel_of ch s"
  by (simp add: channel_of_def put_message_def dict_simps split: option.split)

lemma channel_of_open: "c \<noteq> uuid_str ch \<Longrightarrow> channel_of ch (open_queue c s) = channel_of ch s"
  by (simp add: channel_of_def open_queue_def dict_simps)

lemma channel_of_disconnect: "c \<noteq> uuid_str ch \<Longrightarrow> channel_of ch (disconnect_channel c d s) = channel_of ch s"
  by (auto simp: channel_of_def disconnect_channel_effect)

lemma channel_of_truncate: "relay.truncate s = relay.truncate s' \<Longrightarrow> channel_of ch s = channel_of ch s'"
  by (simp add: channel_of_def relay.truncate_def)

lemma uuid_str_auth: "lit ''auth'' \<noteq> uuid_str ch"
  using uuid_str_not_auth [of ch] by metis

lemma channel_of_emit [simp]:
  "channel_of ch (cl_emit a c) = channel_of ch c" "channel_of ch (srv_emit b s) = channel_of ch s"
  "channel_of ch (c\<lparr>cl_num_partners := n\<rparr>) = channel_of ch c"
  by (simp_all add: channel_of_def cl_emit_def srv_emit_def)

lemma client_spares:
  assumes "names_channel msg \<noteq> Some ch"
  shows "channel_of ch (snd (client_message w msg c)) = channel_of ch c"
  using assms uuid_str_auth
  by (cases msg) (simp_all add: channel_of_put channel_of_open channel_of_disconnect del: lit_Cons)

section \<open>Token operations\<close>

definition same_channels :: "server \<Rightarrow> server \<Rightarrow> bool" where
  "same_channels s s' \<longleftrightarrow> relay.truncate s' = relay.truncate s \<and> srv_conn_cache s' = srv_conn_cache s"

lemma same_channels_refl: "same_channels s s"
  by (simp add: same_channels_def)

lemma same_channels_trans: "same_channels s s' \<Longrightarrow> same_channels s' s'' \<Longrightarrow> same_channels s s''"
  by (simp add: same_channels_def)

lemma same_emit_if_loop: "same_channels s (emit_if_loop a s)"
  by (simp add: same_channels_def emit_if_loop_def relay.truncate_def)

lemma same_close_clients: "same_channels s (close_clients cs s)"
proof (induction cs arbitrary: s)
  case (Cons c cs)
  obtain cid w where c: "c = (cid, w)" by fastforce
  let ?s = "emit_if_loop (CloseWs w 1000 token_removed) s"
  let ?s' = "if has_key (srv_clients ?s) cid then ?s\<lparr>srv_clients := dict_del cid (srv_clients ?s)\<rparr> else ?s"
  have "same_channels ?s ?s'" by (simp add: same_channels_def relay.truncate_def)
  from same_channels_trans [OF same_channels_trans [OF same_emit_if_loop this] Cons.IH] show ?case
    by (simp add: c Let_def)
qed (simp add: same_channels_refl)

lemma same_close_token_clients: "same_channels s (close_token_clients token s)"
proof (cases "dict_get (srv_token_clients s) token")
  case (Some cs)
  have "same_channels (close_clients cs s) (close_token_clients token s)"
    using Some by (simp add: close_token_clients_def Let_def same_channels_def relay.truncate_def)
  from same_channels_trans [OF same_close_clients this] show ?thesis .
qed (simp add: close_token_clients_def same_channels_refl)

lemma same_drop_connector_token: "same_channels s (drop_connector_token token s)"
  using same_channels_trans [OF same_emit_if_loop same_close_token_clients]
  by (auto simp: drop_connector_token_def Let_def same_channels_def relay.truncate_def)

lemma same_drop_internal_token: "same_channels s (drop_internal_token token s)"
  using same_close_token_clients
  by (auto simp: drop_internal_token_def Let_def same_channels_def relay.truncate_def)

lemma same_drop_internal_tokens: "same_channels s (drop_internal_tokens token s)"
proof -
  have "same_channels s (fold drop_internal_token its s)" for its
    by (induction its arbitrary: s) (auto intro: same_channels_refl same_channels_trans same_drop_internal_token)
  then show ?thesis
    by (auto simp: drop_internal_tokens_def Let_def same_channels_def relay.truncate_def split: option.split)
qed

lemma same_drop_reverse_token: "same_channels s (snd (drop_reverse_token token s))"
  using same_channels_trans [OF same_emit_if_loop same_close_token_clients]
  by (auto simp: drop_reverse_token_def Let_def same_channels_def relay.truncate_def split: option.split)

lemma same_drop_forward_token: "same_channels s (drop_forward_token token s)"
proof -
  have "same_channels s (fold (\<lambda>(cid, w). emit_if_loop (CloseWs w 1000 token_removed)) cs s)" for cs
  proof (induction cs arbitrary: s)
    case (Cons c cs)
    from same_channels_trans [OF same_emit_if_loop Cons] show ?case by (auto split: prod.split)
  qed (simp add: same_channels_refl)
  then show ?thesis by (simp add: drop_forward_token_def Let_def same_channels_def relay.truncate_def)
qed

lemma same_remove_each:
  assumes "\<And>t s. same_channels s (snd (remove t s))"
  shows "same_channels s (snd (remove_each remove token cs s))"
proof (induction cs arbitrary: s)
  case (Cons c cs)
  obtain ct rt where c: "c = (ct, rt)" by fastforce
  obtain r s' where r: "remove ct s = (r, s')" by fastforce
  with assms [of s ct] same_channels_trans Cons.IH show ?case
    by (cases r) (auto simp: c)
qed (simp add: same_channels_refl)

lemma same_remove_token_fuel: "same_channels s (snd (remove_token_fuel n token s))"
proof (induction n arbitrary: token s)
  case (Suc n)
  let ?s = "drop_internal_tokens token s"
  obtain r s' where r: "remove_each (remove_token_fuel n) token (srv_connector_tokens s) ?s = (r, s')" by fastforce
  have "same_channels ?s s'"
    using same_remove_each [of "remove_token_fuel n" ?s token "srv_connector_tokens s", OF Suc.IH] unfolding r by simp
  from same_channels_trans [OF same_drop_internal_tokens this] have "same_channels s s'" .
  moreover from this same_drop_reverse_token have "same_channels s (snd (drop_reverse_token token s'))"
    by (rule same_channels_trans)
  ultimately show ?case
    by (cases r) (simp_all add: Let_def r same_drop_connector_token same_drop_forward_token same_channels_refl)
qed (simp add: same_channels_refl)

lemma same_manage_connector: "same_channels s (snd (manage_connector draws cid channel_id token operation s))"
proof -
  have "same_channels s (snd (add_connector_token draws ct rt s))" for ct rt
    by (simp add: add_connector_token_def Let_def same_channels_def relay.truncate_def)
  moreover have "same_channels s (snd (remove_token ct s))" for ct
    by (simp add: remove_token_def same_remove_token_fuel)
  ultimately show ?thesis
    unfolding manage_connector_def Let_def
    by (auto simp: same_channels_refl split: prod.split sum.split) (metis snd_conv)+
qed

section \<open>The dispatchers of the server\<close>

definition untouched :: "uuid \<Rightarrow> server \<Rightarrow> server \<Rightarrow> bool" where
  "untouched ch s s' \<longleftrightarrow> channel_of ch s' = channel_of ch s \<and> route_of ch s' = route_of ch s"

lemma untouched_refl: "untouched ch s s"
  by (simp add: untouched_def)

lemma untouched_trans: "untouched ch s s' \<Longrightarrow> untouched ch s' s'' \<Longrightarrow> untouched ch s s''"
  by (simp add: untouched_def)

lemma untouched_same: "same_channels s s' \<Longrightarrow> untouched ch s s'"
  using channel_of_truncate [of s' s ch] by (simp add: same_channels_def untouched_def route_of_def)

lemma untouched_emit: "untouched ch s (srv_emit a s)"
  by (simp add: untouched_def route_of_def)

lemma untouched_send: "untouched ch s (snd (srv_send gz up w msg s))"
  by (simp add: srv_send_def untouched_emit untouched_refl del: pack_message.simps split: sum.split)

lemma cache_kept:
  fixes s :: server
  shows "srv_conn_cache (put_message c m s) = srv_conn_cache s" "srv_conn_cache (pop_tcp_task c s) = srv_conn_cache s"
    "srv_conn_cache (pop_udp_task c s) = srv_conn_cache s" "srv_conn_cache (remove_queue c s) = srv_conn_cache s"
  by (simp_all add: put_message_def pop_tcp_task_def pop_udp_task_def cancel_unless_done_def remove_queue_def
      split: option.split)

lemma untouched_deliver: "cid \<noteq> ch \<Longrightarrow> untouched ch s (snd (deliver gz up cid msg s))"
proof -
  assume "cid \<noteq> ch"
  then have "untouched ch s (put_message (uuid_str cid) msg s)"
    by (simp add: untouched_def channel_of_put route_of_def cache_kept)
  then show ?thesis
    by (simp add: deliver_def to_connector_def untouched_send untouched_refl split: option.split)
qed

lemma untouched_disconnect: "cid \<noteq> ch \<Longrightarrow> untouched ch s (disconnect_channel (uuid_str cid) d s)"
proof -
  have "srv_conn_cache (disconnect_channel c d s) = srv_conn_cache s" for c
    by (simp add: disconnect_channel_def Let_def cache_kept)
  then show "cid \<noteq> ch \<Longrightarrow> ?thesis"
    by (simp add: untouched_def route_of_def channel_of_disconnect)
qed

lemma untouched_connect: "cid \<noteq> ch \<Longrightarrow> untouched ch s (srv_emit a (open_queue (uuid_str cid) s))"
  by (simp add: untouched_def route_of_def channel_of_open) (simp add: open_queue_def srv_emit_def)

lemma client_dispatch_spares:
  assumes "names_channel msg \<noteq> Some ch"
  shows "untouched ch s (snd (client_dispatch gz up draws cid w msg s))"
proof (cases msg)
  case (ConnectorMessage channel token operation)
  obtain r s' where r: "manage_connector draws cid channel token operation s = (r, s')" by fastforce
  with same_manage_connector [of s draws cid channel token operation] have "untouched ch s s'"
    by (simp add: untouched_same)
  with ConnectorMessage r untouched_trans [OF _ untouched_send] show ?thesis by (cases r) auto
qed (use assms in \<open>simp_all add: untouched_deliver untouched_disconnect untouched_connect untouched_refl\<close>)

lemma untouched_cache:
  assumes "\<And>x. cc_get_client ch (f x) = cc_get_client ch x" "\<And>x. cc_get_connector ch (f x) = cc_get_connector ch x"
  shows "untouched ch s (on_cache f s)"
  using assms by (simp add: untouched_def route_of_def channel_of_def on_cache_def)

lemma untouched_next: "get_next_websocket token s = (r, s') \<Longrightarrow> untouched ch s s'"
  by (auto simp: get_next_websocket_def Let_def untouched_def route_of_def channel_of_def
      split: if_splits option.splits list.splits)

lemma connector_dispatch_spares:
  assumes "names_channel msg \<noteq> Some ch"
  shows "untouched ch s (snd (connector_dispatch gz up w rt msg s))"
proof (cases msg)
  case (ConnectMessage protocol cid address port)
  obtain r s' where r: "get_next_websocket rt s = (r, s')" by fastforce
  note next' = untouched_next [OF r, of ch]
  have add: "untouched ch s' (on_cache (cc_add_channel cid w rw rt) s')" for rw
    using assms ConnectMessage by (intro untouched_cache) (simp_all add: dict_simps)
  show ?thesis
    using ConnectMessage r next' untouched_trans [OF next' untouched_send]
      untouched_trans [OF untouched_trans [OF next' add] untouched_send]
    by (simp split: sum.split option.split)
next
  case (DataMessage p cid d z a port ta tp)
  then show ?thesis by (simp add: untouched_send untouched_refl split: option.split)
next
  case (DisconnectMessage cid e)
  have remove: "untouched ch s' (on_cache (cc_remove_channel cid) s')" for s'
    using assms DisconnectMessage by (intro untouched_cache) (simp_all add: dict_simps)
  have sent: "untouched ch s s'" if "srv_send gz up t msg s = (r, s')" for t r s'
    using untouched_send [of ch s gz up t msg] that by simp
  show ?thesis
  proof (cases "cc_get_client cid (srv_conn_cache s)")
    case None
    with DisconnectMessage remove show ?thesis by simp
  next
    case (Some t)
    obtain r s' where r: "srv_send gz up t msg s = (r, s')" by fastforce
    from sent [OF r] r Some DisconnectMessage untouched_trans [OF sent [OF r] remove] show ?thesis
      by (cases r) simp_all
  qed
qed (simp_all add: untouched_refl)

lemma loop_round_spares:
  assumes "spares gunzip ch f" "\<And>msg s. names_channel msg \<noteq> Some ch \<Longrightarrow> untouched ch s (snd (dispatch msg s))"
  shows "untouched ch s (snd (loop_round gunzip up w dispatch (Received f) s))"
proof (cases f)
  case (Binary bs)
  show ?thesis
  proof (cases "parse_message gunzip bs")
    case (Inr msg)
    obtain r s' where r: "dispatch msg s = (r, s')" by fastforce
    from assms(1) Binary Inr have "names_channel msg \<noteq> Some ch" by (simp add: spares_def)
    with assms(2) [of msg s] r Binary Inr show ?thesis by (cases r) (simp_all add: loop_round_def)
  qed (simp add: Binary loop_round_def untouched_refl)
qed (simp_all add: loop_round_def untouched_refl)

section \<open>Properties\<close>



end
