(* ===== verification/Heartbeat.thy ===== *)
theory Heartbeat
  imports Sessions
begin

text \<open>
  The ping loops of both ends (\<open>_heartbeat_handler\<close> in \<^verbatim>\<open>pywssocks/client.py\<close>, \<open>_ws_heartbeat\<close> in
  \<^verbatim>\<open>pywssocks/server.py\<close>). A loop that ends by itself ends the session it belongs to, which cancels its
  other tasks; a session that ends otherwise cancels the loop.
\<close>

datatype ping = Pong | NoPong | PingClosed | PingError

text \<open>
  The client waits 10 seconds for each pong and pauses for 30. The result: the pauses made, and whether
  the loop has ended by itself.
\<close>

fun client_heartbeat :: "ping list \<Rightarrow> nat \<times> bool" where
  "client_heartbeat [] = (0, False)"
| "client_heartbeat (Pong # r) = (case client_heartbeat r of (pauses, ended) \<Rightarrow> (Suc pauses, ended))"
| "client_heartbeat (_ # r) = (0, True)"

text \<open>The server sends its pings and does not wait for the pongs.\<close>

fun server_heartbeat :: "ping list \<Rightarrow> nat \<times> bool" where
  "server_heartbeat [] = (0, False)"
| "server_heartbeat (PingClosed # r) = (0, True)"
| "server_heartbeat (PingError # r) = (0, True)"
| "server_heartbeat (_ # r) = (case server_heartbeat r of (pauses, ended) \<Rightarrow> (Suc pauses, ended))"

text \<open>However the loop of the server ends, it closes the connection, unless the server is stopping.\<close>

definition end_heartbeat :: "bool \<Rightarrow> (ws \<Rightarrow> bool) \<Rightarrow> ws \<Rightarrow> server \<Rightarrow> server" where
  "end_heartbeat stopping up w s = (if \<not> stopping \<and> up w then srv_emit (CloseWs w 1000 []) s else s)"

lemma client_heartbeat_iff: "client_heartbeat ps = (length ps, False) \<longleftrightarrow> list_all (\<lambda>p. p = Pong) ps"
proof (induction ps)
  case (Cons p ps)
  have "fst (client_heartbeat ps) \<le> length ps"
    by (induction ps rule: client_heartbeat.induct) (auto split: prod.splits)
  with Cons show ?case by (cases p) (auto split: prod.splits)
qed simp

text \<open>A peer that never answers a ping goes unnoticed by the server and ends the client's session at once.\<close>

lemma silent_peer: "server_heartbeat (replicate n NoPong) = (n, False)" "client_heartbeat (NoPong # ps) = (0, True)"
  by (induction n) simp_all

lemma end_heartbeat_only: "only_actions s (end_heartbeat stopping up w s)"
  by (simp add: end_heartbeat_def only_actions_emit)

end
