(* ===== verification/Logging.thy ===== *)
theory Logging
  imports Message
begin

text \<open>
  The debug log of messages (\<open>log_message\<close> of class \<open>Relay\<close> in \<^verbatim>\<open>pywssocks/relay.py\<close>): the attributes of a
  message are copied, payload and token are taken out, and the rest is written as JSON.
\<close>

datatype attr = Plain json | Identifier uuid | Payload bytes

definition opt_json :: "('a \<Rightarrow> json) \<Rightarrow> 'a option \<Rightarrow> attr" where
  "opt_json f x = Plain (case x of None \<Rightarrow> JNull | Some v \<Rightarrow> f v)"

text \<open>\<^verbatim>\<open>msg.__dict__\<close>: the fields in the order of the class.\<close>

fun msg_dict :: "message \<Rightarrow> (pystr, attr) dict" where
  "msg_dict (AuthMessage token reverse inst) =
     [(lit ''token'', Plain (JStr token)), (lit ''reverse'', Plain (JBool reverse)), (lit ''instance'', Identifier inst)]"
| "msg_dict (AuthResponseMessage success error) =
     [(lit ''success'', Plain (JBool success)), (lit ''error'', opt_json JStr error)]"
| "msg_dict (ConnectMessage protocol channel_id addr port) =
     [(lit ''protocol'', Plain (JStr protocol)), (lit ''channel_id'', Identifier channel_id),
      (lit ''address'', opt_json JStr addr), (lit ''port'', opt_json JInt port)]"
| "msg_dict (ConnectResponseMessage success channel_id error) =
     [(lit ''success'', Plain (JBool success)), (lit ''channel_id'', Identifier channel_id),
      (lit ''error'', opt_json JStr error)]"
| "msg_dict (DataMessage protocol channel_id data compression addr port target_addr target_port) =
     [(lit ''protocol'', Plain (JStr protocol)), (lit ''channel_id'', Identifier channel_id),
      (lit ''data'', Payload data), (lit ''compression'', Plain (JInt compression)),
      (lit ''address'', opt_json JStr addr), (lit ''port'', opt_json JInt port),
      (lit ''target_addr'', opt_json JStr target_addr), (lit ''target_port'', opt_json JInt target_port)]"
| "msg_dict (DisconnectMessage channel_id error) =
     [(lit ''channel_id'', Identifier channel_id), (lit ''error'', opt_json JStr error)]"
| "msg_dict (ConnectorMessage channel_id connector_token operation) =
     [(lit ''channel_id'', Identifier channel_id), (lit ''connector_token'', Plain (JStr connector_token)),
      (lit ''operation'', Plain (JStr operation))]"
| "msg_dict (ConnectorResponseMessage success channel_id error connector_token) =
     [(lit ''success'', Plain (JBool success)), (lit ''channel_id'', Identifier channel_id),
      (lit ''error'', opt_json JStr error), (lit ''connector_token'', opt_json JStr connector_token)]"
| "msg_dict (LogMessage level text') = [(lit ''level'', Plain level), (lit ''msg'', Plain text')]"
| "msg_dict (PartnersMessage count) = [(lit ''count'', Plain count)]"

fun class_name :: "message \<Rightarrow> pystr" where
  "class_name (AuthMessage _ _ _) = lit ''AuthMessage''"
| "class_name (AuthResponseMessage _ _) = lit ''AuthResponseMessage''"
| "class_name (ConnectMessage _ _ _ _) = lit ''ConnectMessage''"
| "class_name (ConnectResponseMessage _ _ _) = lit ''ConnectResponseMessage''"
| "class_name (DataMessage _ _ _ _ _ _ _ _) = lit ''DataMessage''"
| "class_name (DisconnectMessage _ _) = lit ''DisconnectMessage''"
| "class_name (ConnectorMessage _ _ _) = lit ''ConnectorMessage''"
| "class_name (ConnectorResponseMessage _ _ _ _) = lit ''ConnectorResponseMessage''"
| "class_name (LogMessage _ _) = lit ''LogMessage''"
| "class_name (PartnersMessage _) = lit ''PartnersMessage''"

fun uuid_text :: "attr \<Rightarrow> attr" where
  "uuid_text (Identifier u) = Plain (JStr (uuid_str u))"
| "uuid_text a = a"

definition hide_data :: "(pystr, attr) dict \<Rightarrow> (pystr, attr) dict" where
  "hide_data d =
     (case dict_get d (lit ''data'') of
        Some (Payload data) \<Rightarrow>
          dict_del (lit ''data'') (dict_set (lit ''data_length'') (Plain (JInt (int (length data)))) d)
      | _ \<Rightarrow> d)"

definition hide_token :: "(pystr, attr) dict \<Rightarrow> (pystr, attr) dict" where
  "hide_token d =
     (if has_key d (lit ''token'') then dict_set (lit ''token'') (Plain (JStr (lit ''...''))) d else d)"

text \<open>\<^verbatim>\<open>json.dumps\<close> has no representation of bytes; none are left when it is called.\<close>

fun attr_json :: "attr \<Rightarrow> json res" where
  "attr_json (Plain v) = Inr v"
| "attr_json _ = Inl TypeError"

fun dict_json :: "(pystr, attr) dict \<Rightarrow> (pystr \<times> json) list res" where
  "dict_json [] = Inr []"
| "dict_json ((k, a) # d) = rbind (attr_json a) (\<lambda>v. rbind (dict_json d) (\<lambda>r. Inr ((k, v) # r)))"

definition log_copy :: "message \<Rightarrow> (pystr, attr) dict" where
  "log_copy msg = hide_token (hide_data (map (\<lambda>(k, a). (k, uuid_text a)) (msg_dict msg)))"

text \<open>The line that is logged, if any; a failure is logged as an error instead.\<close>

definition log_message :: "bool \<Rightarrow> message \<Rightarrow> pystr \<Rightarrow> pystr option res" where
  "log_message debug msg direction =
     (if \<not> debug then Inr None
      else rbind (dict_json (log_copy msg)) (\<lambda>d.
        Inr (Some (lit ''WebSocket message TYPE='' @ class_name msg @ lit '' DIRECTION='' @ direction @ lit '' MSG='' @
          json_dumps (JDict d)))))"

section \<open>What the log shows\<close>

lemma log_succeeds: "\<exists>line. log_message debug msg direction = Inr line"
  by (cases msg)
    (simp_all add: log_message_def log_copy_def hide_data_def hide_token_def opt_json_def has_key_def)

lemma log_hides_token: "log_message debug (AuthMessage t r i) direction = log_message debug (AuthMessage t' r i) direction"
  by (simp add: log_message_def log_copy_def hide_data_def hide_token_def has_key_def)

lemma log_hides_data:
  "length data = length data' \<Longrightarrow>
     log_message debug (DataMessage p ch data c a po ta tp) direction =
     log_message debug (DataMessage p ch data' c a po ta tp) direction"
  by (simp add: log_message_def log_copy_def hide_data_def hide_token_def has_key_def)

text \<open>A connector token is as good a secret as a token, but only an attribute named \<^verbatim>\<open>token\<close> is hidden.\<close>

lemma log_shows_connector_token:
  "dict_get (log_copy (ConnectorMessage ch connector_token operation)) (lit ''connector_token'') =
     Some (Plain (JStr connector_token))"
  by (simp add: log_copy_def hide_data_def hide_token_def has_key_def)

end
