(* ===== verification/Cli.thy ===== *)
theory Cli
  imports ClientServer Upstream
begin

text \<open>
  The command line (\<^verbatim>\<open>pywssocks/cli.py\<close>): reading the URL of an upstream proxy, and setting up a client or
  a server from the options. The options that only reach sockets (listen addresses) or logging are
  left out. Parameters: \<open>unicode_lower\<close>, the lower case of a text that is not ASCII, and \<open>err_text\<close>, the
  text of the library's own exceptions.
\<close>

section \<open>The network location of a URL\<close>

text \<open>
  The properties \<^verbatim>\<open>username\<close>, \<^verbatim>\<open>password\<close>, \<^verbatim>\<open>hostname\<close> and \<^verbatim>\<open>port\<close> of the result of \<^verbatim>\<open>urlparse\<close>. An absent port is
  the empty text in \<open>url_hostinfo\<close>.
\<close>

definition rcut :: "nat \<Rightarrow> pystr \<Rightarrow> pystr option \<times> pystr" where
  "rcut c s =
     (case cut c (rev s) of
        (a, None) \<Rightarrow> (None, s)
      | (a, Some b) \<Rightarrow> (Some (rev b), rev a))"

definition url_userinfo :: "url \<Rightarrow> pystr option \<times> pystr option" where
  "url_userinfo u =
     (case fst (rcut 64 (u_netloc u)) of
        None \<Rightarrow> (None, None)
      | Some userinfo \<Rightarrow> (case cut 58 userinfo of (username, password) \<Rightarrow> (Some username, password)))"

definition url_hostinfo :: "url \<Rightarrow> pystr \<times> pystr" where
  "url_hostinfo u =
     (let hostinfo = snd (rcut 64 (u_netloc u)) in
      case cut 91 hostinfo of
        (before, Some bracketed) \<Rightarrow>
          (case cut 93 bracketed of
             (hostname, after) \<Rightarrow> (hostname, or_empty (snd (cut 58 (or_empty after)))))
      | (before, None) \<Rightarrow> (case cut 58 hostinfo of (hostname, port) \<Rightarrow> (hostname, or_empty port)))"

definition str_lower :: "(pystr \<Rightarrow> pystr) \<Rightarrow> pystr \<Rightarrow> pystr" where
  "str_lower unicode_lower s = (if ascii s then lower s else unicode_lower s)"

definition url_hostname :: "(pystr \<Rightarrow> pystr) \<Rightarrow> url \<Rightarrow> pystr option" where
  "url_hostname unicode_lower u =
     (let hostname = fst (url_hostinfo u) in
      if hostname = [] then None
      else
        (case cut 37 hostname of
           (h, zone) \<Rightarrow>
             Some (str_lower unicode_lower h @ (case zone of None \<Rightarrow> [] | Some z \<Rightarrow> 37 # z))))"

definition url_port :: "url \<Rightarrow> int option res" where
  "url_port u =
     (let port = snd (url_hostinfo u) in
      if port = [] then Inr None
      else if list_all is_digit port then
        rbind (py_int port) (\<lambda>p.
          if 0 \<le> p \<and> p \<le> 65535 then Inr (Some p) else value_error ''Port out of range 0-65535'')
      else value_error ''Port could not be cast to integer value'')"

section \<open>Proxy URLs\<close>

definition unquoted :: "pystr option \<Rightarrow> pystr option" where
  "unquoted t = (if truthy t then Some (unquote (the t)) else None)"

definition port_or :: "int option \<Rightarrow> int \<Rightarrow> int" where
  "port_or p n = (case p of None \<Rightarrow> n | Some m \<Rightarrow> if m = 0 then n else m)"

definition parse_proxy ::
    "(pystr \<Rightarrow> bool) \<Rightarrow> (pystr \<Rightarrow> pystr) \<Rightarrow> (exn \<Rightarrow> pystr) \<Rightarrow> pystr \<Rightarrow>
     (pystr \<times> pystr option \<times> pystr option \<times> pystr) res" where
  "parse_proxy host_ok unicode_lower err_text proxy_url =
     (if proxy_url = [] then Inr ([], None, None, [])
      else case urlparse host_ok proxy_url of
        Inl e \<Rightarrow> Inl (ValueError (lit ''Invalid proxy URL: '' @ exn_text err_text e))
      | Inr u \<Rightarrow>
          (if u_scheme u \<noteq> lit ''socks5'' \<and> u_scheme u \<noteq> lit ''http'' \<and> u_scheme u \<noteq> lit ''https''
           then Inl (ValueError (lit ''Unsupported proxy scheme: '' @ u_scheme u))
           else
             (let username = unquoted (fst (url_userinfo u));
                  password = unquoted (snd (url_userinfo u));
                  host = (case url_hostname unicode_lower u of None \<Rightarrow> lit ''None'' | Some h \<Rightarrow> h) in
              rbind (url_port u) (\<lambda>p.
                if u_scheme u = lit ''socks5''
                then Inr (host @ [58] @ int_str (port_or p 1080), username, password, lit ''socks5'')
                else Inr (host @ [58] @ int_str (port_or p 8080), username, password, lit ''http'')))))"

definition parse_socks_proxy ::
    "(pystr \<Rightarrow> bool) \<Rightarrow> (pystr \<Rightarrow> pystr) \<Rightarrow> (exn \<Rightarrow> pystr) \<Rightarrow> pystr \<Rightarrow>
     (pystr \<times> pystr option \<times> pystr option) res" where
  "parse_socks_proxy host_ok unicode_lower err_text proxy_url =
     rbind (parse_proxy host_ok unicode_lower err_text proxy_url) (\<lambda>(addr, username, password, proxy_type).
       if proxy_type \<noteq> [] \<and> proxy_type \<noteq> lit ''socks5''
       then Inl (ValueError (lit ''Expected socks5 proxy, got: '' @ proxy_type))
       else Inr (addr, username, password))"

section \<open>The client command\<close>

definition no_proxy :: upstream_config where
  "no_proxy = \<lparr>up_proxy = None, up_username = None, up_password = None, up_type = None\<rparr>"

record client_options =
  co_token :: pystr
  co_url :: pystr
  co_reverse :: bool
  co_socks_username :: "pystr option"
  co_socks_password :: "pystr option"
  co_socks_no_wait :: bool
  co_no_reconnect :: bool
  co_upstream_proxy :: "pystr option"
  co_connector_token :: "pystr option"
  co_ignore_ssl :: bool

definition client_defaults :: "pystr \<Rightarrow> client_options" where
  "client_defaults token = \<lparr>co_token = token, co_url = lit ''ws://localhost:8765'', co_reverse = False,
     co_socks_username = None, co_socks_password = None, co_socks_no_wait = False, co_no_reconnect = False,
     co_upstream_proxy = None, co_connector_token = None, co_ignore_ssl = False\<rparr>"

definition client_setup ::
    "(pystr \<Rightarrow> bool) \<Rightarrow> (pystr \<Rightarrow> pystr) \<Rightarrow> (exn \<Rightarrow> pystr) \<Rightarrow> client_options \<Rightarrow> (client \<times> upstream_config) res" where
  "client_setup host_ok unicode_lower err_text opts =
     rbind
       (if truthy (co_upstream_proxy opts)
        then rbind (parse_proxy host_ok unicode_lower err_text (the (co_upstream_proxy opts)))
          (\<lambda>(addr, username, password, proxy_type).
            Inr \<lparr>up_proxy = Some addr, up_username = username, up_password = password, up_type = Some proxy_type\<rparr>)
        else Inr no_proxy) (\<lambda>cfg.
     rbind
       (client_init host_ok (co_token opts) (co_url opts) (co_reverse opts) (co_socks_username opts) (co_socks_password opts)
         (\<not> co_socks_no_wait opts) (\<not> co_no_reconnect opts) 5 (co_ignore_ssl opts)) (\<lambda>c.
       Inr (c, cfg)))"

text \<open>What follows once the client \<open>c\<close> is connected.\<close>

definition client_ready ::
    "(ws \<Rightarrow> bool) \<Rightarrow> (client \<Rightarrow> client) \<Rightarrow> uuid \<Rightarrow> client_options \<Rightarrow> client \<Rightarrow> unit res \<times> client" where
  "client_ready up meanwhile channel_id opts c =
     (if truthy (co_connector_token opts) then
        (case add_connector up meanwhile channel_id (the (co_connector_token opts)) c of
           (Inl e, c) \<Rightarrow> (Inl e, c)
         | (Inr _, c) \<Rightarrow> (Inr (), c))
      else (Inr (), c))"

text \<open>With the default options a client dials the local server over plain WebSocket and retries every 5 seconds.\<close>

lemma default_client:
  "\<exists>c. client_setup host_ok unicode_lower err_text (client_defaults token) = Inr (c, no_proxy) \<and>
     cl_ws_url c = lit ''ws://localhost:8765/socket'' \<and> cl_reconnect c \<and> cl_reconnect_interval c = 5 \<and> \<not> cl_reverse c"
proof -
  have p: "plain_scheme (lit ''ws'')" "plain_host (lit ''localhost:8765'')"
    by (auto simp: plain_scheme_def plain_host_def is_alpha_def)
  have u: "lit ''ws://localhost:8765'' = plain_url (lit ''ws'') (lit ''localhost:8765'') []" by (simp add: plain_url_def)
  have "convert_ws_path host_ok (lit ''ws://localhost:8765'') = Inr (lit ''ws://localhost:8765/socket'')"
    unfolding u convert_plain [OF p insertI1] by (simp add: ws_scheme_def plain_url_def)
  then show ?thesis by (simp add: client_setup_def client_defaults_def client_init_def del: lit_Cons)
qed

section \<open>The server command\<close>

record server_options =
  so_token :: "pystr option"
  so_reverse :: bool
  so_socks_port :: int
  so_socks_username :: "pystr option"
  so_socks_password :: "pystr option"
  so_socks_nowait :: bool
  so_upstream_proxy :: "pystr option"
  so_connector_token :: "pystr option"
  so_connector_autonomy :: bool

definition server_defaults :: server_options where
  "server_defaults = \<lparr>so_token = None, so_reverse = False, so_socks_port = 1080, so_socks_username = None,
     so_socks_password = None, so_socks_nowait = False, so_upstream_proxy = None, so_connector_token = None,
     so_connector_autonomy = False\<rparr>"

definition default_ports :: "int list" where
  "default_ports = map int [1024..<10240]"

text \<open>
  The tokens the command adds, with the tokens it reports: its own and that of the connectors. The
  result is \<open>None\<close> where no port can be had and the command gives up.
\<close>

definition add_tokens ::
    "(nat \<Rightarrow> nat) \<Rightarrow> nat \<Rightarrow> (nat \<Rightarrow> nat) \<Rightarrow> server_options \<Rightarrow> server \<Rightarrow>
     (pystr \<times> pystr option) option \<times> server" where
  "add_tokens draws draw draws' opts s =
     (if so_reverse opts then
        (case add_reverse_token draws draw (so_token opts) (Some (so_socks_port opts)) (so_socks_username opts)
                (so_socks_password opts) (so_connector_autonomy opts) s of
           (None, s) \<Rightarrow> (None, s)
         | (Some (use_token, port), s) \<Rightarrow>
             (if port = 0 then (None, s)
              else if so_connector_autonomy opts then (Some (use_token, None), s)
              else
                (case add_connector_token draws' (so_connector_token opts) (Some use_token) s of
                   (use_connector_token, s) \<Rightarrow> (Some (use_token, use_connector_token), s))))
      else
        (case add_forward_token draws (so_token opts) s of
           (use_token, s) \<Rightarrow> (Some (use_token, None), s)))"

definition server_setup ::
    "(pystr \<Rightarrow> bool) \<Rightarrow> (pystr \<Rightarrow> pystr) \<Rightarrow> (exn \<Rightarrow> pystr) \<Rightarrow> (nat \<Rightarrow> nat) \<Rightarrow> nat \<Rightarrow> (nat \<Rightarrow> nat) \<Rightarrow> server_options \<Rightarrow>
     ((pystr \<times> pystr option) option \<times> server \<times> upstream_config) res" where
  "server_setup host_ok unicode_lower err_text draws draw draws' opts =
     rbind
       (if truthy (so_upstream_proxy opts)
        then rbind (parse_socks_proxy host_ok unicode_lower err_text (the (so_upstream_proxy opts)))
          (\<lambda>(addr, username, password).
            Inr \<lparr>up_proxy = Some addr, up_username = username, up_password = password, up_type = None\<rparr>)
        else Inr no_proxy) (\<lambda>cfg.
       case add_tokens draws draw draws' opts (srv_init default_ports (\<not> so_socks_nowait opts)) of
         (None, s) \<Rightarrow> Inr (None, s, cfg)
       | (Some tokens, s) \<Rightarrow>
           rbind (fst (start_server s)) (\<lambda>_. Inr (Some tokens, snd (start_server s), cfg)))"

section \<open>Percent-encoded credentials\<close>

text \<open>The encoding that escapes every byte.\<close>

definition percent :: "bytes \<Rightarrow> pystr" where
  "percent bs = concat (map (\<lambda>b. [37, hex_upper (unat b div 16), hex_upper (unat b mod 16)]) bs)"

lemma percent_simps [simp]: "percent [] = []"
  "percent (b # bs) = 37 # hex_upper (unat b div 16) # hex_upper (unat b mod 16) # percent bs"
  by (simp_all add: percent_def)

lemma byte_nibbles: "unat (b :: byte) div 16 < 16" "unat b mod 16 < 16"
  using less_mult_imp_div_less [of "unat b" 16 16] by simp_all

lemma hex_val_upper: "d < 16 \<Longrightarrow> hex_val (hex_upper d) = Some d"
  by (auto simp: hex_val_def hex_upper_def)

lemma percent_chars: "c \<in> set (percent bs) \<Longrightarrow> 37 \<le> c \<and> c < 128 \<and> c \<notin> {47, 58, 63, 64, 91, 93, 35}"
proof (induction bs)
  case (Cons b bs)
  with byte_nibbles [of b] show ?case by (auto simp: hex_upper_def split: if_splits)
qed simp

lemma percent_empty [simp]: "percent bs = [] \<longleftrightarrow> bs = []"
  by (cases bs) simp_all

lemma percent_decoded: "unquote_to_bytes (percent bs) = bs"
proof (induction bs)
  case (Cons b bs)
  then show ?case by (simp add: hex_val_upper byte_nibbles)
qed simp

lemma decode_replace_encode: "utf8_encode s = Inr bs \<Longrightarrow> utf8_decode_replace bs = s"
proof (induction s arbitrary: bs)
  case Nil
  then show ?case by (simp add: utf8_decode_replace.simps)
next
  case (Cons c s)
  then obtain b r where b: "enc_cp c = Inr b" "utf8_encode s = Inr r" "bs = b @ r"
    by (auto simp: rbind_eq_Inr)
  with enc_cp_length(1) [OF b(1)] have "bs \<noteq> []" by auto
  with b Cons.IH [OF b(2)] dec_cp_enc_cp [OF b(1), of r] show ?case
    by (subst utf8_decode_replace.simps) simp
qed

lemma unquote_percent:
  assumes "utf8_encode s = Inr bs"
  shows "unquote (percent bs) = s"
proof -
  have t: "takeWhile (\<lambda>c. c < 128) (percent bs) = percent bs" "dropWhile (\<lambda>c. c < 128) (percent bs) = []"
    using percent_chars [of _ bs] by (simp_all add: takeWhile_eq_all_conv)
  have "s = []" if "bs = []" using utf8_decode_encode [OF assms] that by simp
  then show ?thesis
    by (subst unquote.simps)
      (use assms in \<open>auto simp: t Let_def percent_decoded decode_replace_encode unquote.simps [of "[]"]\<close>)
qed

section \<open>From the option to the proxy\<close>

lemma rcut_found: "c \<notin> set b \<Longrightarrow> rcut c (a @ c # b) = (Some a, b)"
  using cut_found [of c "rev b" "rev a"] by (simp add: rcut_def)

lemma lower_id: "\<forall>c\<in>set s. \<not> (65 \<le> c \<and> c \<le> 90) \<Longrightarrow> lower s = s"
  unfolding lower_def by (rule map_idI) auto

text \<open>A lower-case host name or an IPv4 address.\<close>

definition plain_name :: "pystr \<Rightarrow> bool" where
  "plain_name host \<longleftrightarrow> host \<noteq> [] \<and> (\<forall>c\<in>set host. 97 \<le> c \<and> c \<le> 122 \<or> is_digit c \<or> c = 45 \<or> c = 46)"

definition proxy_location :: "bytes \<Rightarrow> bytes \<Rightarrow> pystr \<Rightarrow> nat \<Rightarrow> pystr" where
  "proxy_location ub pb host port = percent ub @ [58] @ percent pb @ [64] @ host @ [58] @ digit_str port"

lemma digit_str_chars: "c \<in> set (digit_str n) \<Longrightarrow> 48 \<le> c \<and> c \<le> 57"
  using digit_str_facts(2) [of c n] by (simp add: is_digit_def)

lemma location_plain:
  assumes "plain_name host"
  shows "plain_host (proxy_location ub pb host port)"
  using assms percent_chars [of _ ub] percent_chars [of _ pb] digit_str_chars [of _ port]
  by (fastforce simp: plain_host_def plain_name_def proxy_location_def is_digit_def)

lemma location_parts:
  assumes "plain_name host" "u_netloc u = proxy_location ub pb host port"
  shows "url_userinfo u = (Some (percent ub), Some (percent pb))" "url_hostinfo u = (host, digit_str port)"
proof -
  have h: "58 \<notin> set host" "64 \<notin> set host" "91 \<notin> set host"
    using assms(1) by (auto simp: plain_name_def is_digit_def)
  have d: "64 \<notin> set (digit_str port)" "91 \<notin> set (digit_str port)" using digit_str_chars [of _ port] by fastforce+
  have c: "58 \<notin> set (percent ub)" using percent_chars [of 58 ub] by blast
  have r: "rcut 64 (u_netloc u) = (Some (percent ub @ 58 # percent pb), host @ 58 # digit_str port)"
    using rcut_found [of 64 "host @ 58 # digit_str port" "percent ub @ 58 # percent pb"] h d assms(2)
    by (simp add: proxy_location_def)
  show "url_userinfo u = (Some (percent ub), Some (percent pb))"
    by (simp add: url_userinfo_def r cut_found [OF c])
  have "cut 91 (host @ 58 # digit_str port) = (host @ 58 # digit_str port, None)"
    using h d by (intro cut_none) auto
  then show "url_hostinfo u = (host, digit_str port)"
    by (simp add: url_hostinfo_def r cut_found [OF h(1)] or_empty_def)
qed

lemma location_host:
  assumes "plain_name host" "u_netloc u = proxy_location ub pb host port"
  shows "url_hostname unicode_lower u = Some host"
proof -
  have "lower host = host" using assms(1) by (intro lower_id) (auto simp: plain_name_def is_digit_def)
  moreover have "ascii host" using assms(1) by (auto simp: plain_name_def is_digit_def ascii_def)
  moreover have "cut 37 host = (host, None)" using assms(1) by (intro cut_none) (auto simp: plain_name_def is_digit_def)
  ultimately show ?thesis
    using assms(1) by (simp add: url_hostname_def location_parts(2) [OF assms] str_lower_def plain_name_def)
qed

lemma location_port:
  assumes "plain_name host" "u_netloc u = proxy_location ub pb host port" "port < 65536"
  shows "url_port u = Inr (Some (int port))"
proof -
  have "list_all is_digit (digit_str port)" using digit_str_facts(2) [of _ port] by (auto simp: list_all_iff)
  moreover have "digit_str port \<noteq> []" by (rule digit_str_facts(1))
  ultimately show ?thesis using assms(3) by (simp add: url_port_def location_parts(2) [OF assms(1,2)])
qed

lemma endpoint_of_parts:
  assumes "plain_name host"
  shows "proxy_endpoint (host @ [58] @ int_str (int port)) = Inr (host, int port)"
proof -
  have h: "58 \<notin> set host" using assms by (auto simp: plain_name_def is_digit_def)
  have d: "58 \<notin> set (digit_str port)" using digit_str_chars [of 58 port] by auto
  have "split_all [58] (host @ [58] @ digit_str port) = [host, digit_str port]"
    using split_max_found [OF h, of _ "digit_str port"] split_max_none [OF d]
    by (simp add: split_all_def del: split_max.simps)
  then show ?thesis by (simp add: proxy_endpoint_def int_str_alt)
qed

text \<open>
  C21. The proxy that is dialled is the one the command line names: for a proxy URL with a host name or
  IPv4 address, a port and percent-encoded credentials - whatever characters these have - the command
  hands on exactly the user name and the password, the proxy type of the scheme, and an address from
  which the relay reads back the host and the port.
\<close>

theorem proxy_option_understood:
  assumes "scheme = lit ''socks5'' \<or> scheme = lit ''http'' \<or> scheme = lit ''https''"
    and "plain_name host" "0 < port" "port < 65536"
    and "utf8_encode user = Inr ub" "utf8_encode pass = Inr pb" "user \<noteq> []" "pass \<noteq> []"
  shows "\<exists>addr. parse_proxy host_ok unicode_lower err_text (plain_url scheme (proxy_location ub pb host port) []) =
      Inr (addr, Some user, Some pass, if scheme = lit ''socks5'' then lit ''socks5'' else lit ''http'') \<and>
    proxy_endpoint addr = Inr (host, int port)"
proof -
  let ?url = "plain_url scheme (proxy_location ub pb host port) []"
  have s: "plain_scheme scheme" using assms(1) by (auto simp: plain_scheme_def is_alpha_def is_digit_def)
  have "urlparse host_ok ?url = Inr \<lparr>u_scheme = scheme, u_netloc = proxy_location ub pb host port, u_path = [],
      u_params = [], u_query = [], u_fragment = []\<rparr>" (is "_ = Inr ?u")
    using urlparse_plain [OF s location_plain [OF assms(2)], of "[]"] by (simp add: cut_none or_empty_def)
  moreover have n: "u_netloc ?u = proxy_location ub pb host port" by simp
  note parts = location_parts [OF assms(2) n] location_host [OF assms(2) n] location_port [OF assms(2) n assms(4)]
  have "ub \<noteq> []" "pb \<noteq> []"
    using assms(5-8) utf8_decode_encode [of user ub] utf8_decode_encode [of pass pb] by auto
  then have "unquoted (Some (percent ub)) = Some user" "unquoted (Some (percent pb)) = Some pass"
    using unquote_percent [OF assms(5)] unquote_percent [OF assms(6)] by (simp_all add: unquoted_def)
  moreover have "?url \<noteq> []" by (simp add: plain_url_def)
  moreover have "port_or (Some (int port)) d = int port" for d using assms(3) by (simp add: port_or_def)
  ultimately have "parse_proxy host_ok unicode_lower err_text ?url =
      Inr (host @ [58] @ int_str (int port), Some user, Some pass,
        if scheme = lit ''socks5'' then lit ''socks5'' else lit ''http'')"
    using assms(1) by (auto simp: parse_proxy_def parts Let_def simp del: lit_Cons)
  with endpoint_of_parts [OF assms(2), of port] show ?thesis by blast
qed

lemma proxy_option_understood_witness:
  "\<exists>addr ub. utf8_encode [64, 233, 58] = Inr ub \<and>
     parse_proxy (\<lambda>_. True) id (\<lambda>_. [])
       (plain_url (lit ''socks5'') (proxy_location ub [112] (lit ''p.example'') 1080) []) =
     Inr (addr, Some [64, 233, 58], Some [112], lit ''socks5'') \<and>
     proxy_endpoint addr = Inr (lit ''p.example'', 1080)"
proof -
  obtain ub where ub: "utf8_encode [64, 233, 58] = Inr ub" by (simp add: enc_cp_def)
  have p: "utf8_encode [112] = Inr [112]" by (simp add: enc_cp_def byte_of_def)
  have h: "plain_name (lit ''p.example'')" by (simp add: plain_name_def)
  show ?thesis
    using proxy_option_understood [OF disjI1 [OF refl] h _ _ ub p, of 1080 "\<lambda>_. True" id "\<lambda>_. []"] ub
    by (auto simp del: lit_Cons)
qed

section \<open>Who may use a server started from the command line\<close>

lemma pending_tables: "tables (snd (handle_pending_tokens ts s)) = tables s"
proof (induction ts arbitrary: s)
  case (Cons t ts)
  obtain r s1 where p: "handle_pending_token t s = (r, s1)" by fastforce
  then have "tables s1 = tables s"
    by (auto simp: handle_pending_token_def tables_def split: if_splits option.splits)
  with Cons.IH [of s1] p show ?case by (cases r) auto
qed simp

lemma start_tables: "tables (snd (start_server s)) = tables s"
proof -
  obtain r s1 where p: "handle_pending_tokens (srv_pending_tokens s) (s\<lparr>srv_loop := True\<rparr>) = (r, s1)" by fastforce
  with pending_tables [of "srv_pending_tokens s" "s\<lparr>srv_loop := True\<rparr>"] have "tables s1 = tables s"
    by (simp add: tables_def)
  with p show ?thesis by (cases r) (simp_all add: start_server_def tables_def)
qed

lemma add_tokens_reverse:
  assumes "add_tokens draws draw draws' opts (srv_init ports wait) = (Some (t, ct), s)" "so_reverse opts"
  shows "srv_tokens s = [(t, if so_connector_autonomy opts then - 1 else so_socks_port opts)]"
    "srv_token_options s = [(t, \<lparr>opt_username = so_socks_username opts, opt_password = so_socks_password opts,
       opt_allow_manage_connector = so_connector_autonomy opts\<rparr>)]"
    "srv_connector_tokens s = (case ct of None \<Rightarrow> [] | Some c \<Rightarrow> [(c, t)])" "srv_forward_tokens s = {}"
proof -
  let ?t = "case so_token opts of None \<Rightarrow> random_token draws | Some t \<Rightarrow> t"
  let ?o = "\<lparr>opt_username = so_socks_username opts, opt_password = so_socks_password opts,
    opt_allow_manage_connector = so_connector_autonomy opts\<rparr>"
  let ?p = "if so_connector_autonomy opts then - 1 else so_socks_port opts"
  let ?init = "srv_init ports wait"
  obtain got s1 where g: "add_reverse_token draws draw (so_token opts) (Some (so_socks_port opts))
      (so_socks_username opts) (so_socks_password opts) (so_connector_autonomy opts) ?init = (got, s1)"
    by fastforce
  have new: "got = Some (?t, ?p) \<and> s1 = register_reverse_token ?t ?p ?o (?init\<lparr>srv_port_pool := srv_port_pool s1\<rparr>)"
    if "got \<noteq> None"
    using g that by (auto simp: add_reverse_token_def srv_init_def Let_def register_reverse_token_def split: if_splits)
  from assms g have "got \<noteq> None" by (cases got) (simp_all add: add_tokens_def)
  note new = new [OF this]
  then obtain pool where "s1 = register_reverse_token ?t ?p ?o (?init\<lparr>srv_port_pool := pool\<rparr>)" by blast
  then have s1: "srv_tokens s1 = [(?t, ?p)]" "srv_token_options s1 = [(?t, ?o)]" "srv_connector_tokens s1 = []"
    "srv_forward_tokens s1 = {}"
    by (simp_all add: register_reverse_token_def srv_init_def Let_def emit_if_loop_def)
  consider (autonomy) "so_connector_autonomy opts" "t = ?t" "ct = None" "s = s1"
    | (connector) "\<not> so_connector_autonomy opts" "t = ?t"
        "add_connector_token draws' (so_connector_token opts) (Some ?t) s1 = (ct, s)"
    using assms g conjunct1 [OF new] by (auto simp: add_tokens_def split: if_splits prod.splits)
  then have "srv_tokens s = [(t, ?p)] \<and> srv_token_options s = [(t, ?o)] \<and>
      srv_connector_tokens s = (case ct of None \<Rightarrow> [] | Some c \<Rightarrow> [(c, t)]) \<and> srv_forward_tokens s = {}"
  proof cases
    case autonomy
    with s1 show ?thesis by simp
  next
    case connector
    then show ?thesis using s1 by (auto simp: add_connector_token_def Let_def split: if_splits)
  qed
  then show "srv_tokens s = [(t, ?p)]" "srv_token_options s = [(t, ?o)]"
    "srv_connector_tokens s = (case ct of None \<Rightarrow> [] | Some c \<Rightarrow> [(c, t)])" "srv_forward_tokens s = {}"
    by simp_all
qed

lemma add_tokens_forward:
  assumes "add_tokens draws draw draws' opts (srv_init ports wait) = (Some (t, ct), s)" "\<not> so_reverse opts"
  shows "srv_tokens s = []" "srv_connector_tokens s = []" "ct = None" "srv_forward_tokens s = {t}"
  using assms by (auto simp: add_tokens_def add_forward_token_def srv_init_def Let_def)


definition sample_options :: server_options where
  "sample_options = server_defaults\<lparr>so_token := Some (lit ''t''), so_reverse := True, so_socks_username := Some (lit ''u''),
     so_socks_password := Some (lit ''p''), so_connector_token := Some (lit ''c'')\<rparr>"


end
