(* ===== verification/Spec2Isabelle.thy ===== *)
theory Spec2Isabelle
  imports PortPool ConnectorCache SocksTasks Upstream Tunnel UdpForwarding Isolation Heartbeat Logging Cli
begin

text \<open>
  pywssocks: SOCKS5 proxying over WebSocket connections, a Python program of the modules \<^verbatim>\<open>message\<close>, \<^verbatim>\<open>common\<close>,
  \<^verbatim>\<open>relay\<close>, \<^verbatim>\<open>server\<close>, \<^verbatim>\<open>client\<close> and \<^verbatim>\<open>cli\<close> under \<^verbatim>\<open>src/pywssocks\<close>. A server and its clients exchange binary
  messages. In forward mode the client accepts SOCKS5 requests and the server opens the connections; in
  reverse mode the server accepts the requests on a port per token and a client opens the connections;
  a connector is a client that accepts requests and has them opened by the reverse clients of a token.

  \<^bold>\<open>Parts, from the bottom up.\<close>

  \<^item> \<open>Prelude\<close>: Python values and exceptions, results \<open>'a res\<close>, bytes, big-endian numbers, dictionaries.
    \<open>Utf8\<close>, \<open>Uuid\<close>, \<open>Json\<close>, \<open>PyText\<close>, \<open>Url\<close>: what the program uses of the standard library (UTF-8, UUIDs, JSON
    both ways, \<^verbatim>\<open>int\<close>, \<^verbatim>\<open>split\<close>, base64, \<^verbatim>\<open>urlparse\<close>, \<^verbatim>\<open>parse_qs\<close>, \<^verbatim>\<open>urlencode\<close>).
  \<^item> \<open>Message\<close>, \<open>Codec\<close> (\<^verbatim>\<open>message.py\<close>): the ten message classes as one datatype, \<open>pack_message\<close> and
    \<open>parse_message\<close> with every length check; that they are inverse, when packing fails, and all that
    parsing can raise.
  \<^item> \<open>PortPool\<close> (\<^verbatim>\<open>common.py\<close>), \<open>ConnectorCache\<close>, \<open>SocketManager\<close>, \<open>SocksTasks\<close> (\<^verbatim>\<open>server.py\<close>): ports, channels of
    connectors, listening sockets with reference counts and grace period, and the SOCKS server tasks
    that hold them.
  \<^item> \<open>Conn\<close>: stream sockets that deliver their bytes in segments, and the state-and-error monad \<open>io\<close> in which
    the handlers of sockets are written.
  \<^item> \<open>Relay\<close>, \<open>SocksServer\<close>, \<open>Forward\<close>, \<open>Upstream\<close>, \<open>UdpProtocol\<close>, \<open>Logging\<close> (\<^verbatim>\<open>relay.py\<close>): the channel state both
    ends share, the SOCKS5 dialogue with an application, the forwarding loops, outgoing connections
    (direct, or through a SOCKS5 or HTTP proxy), the datagram endpoint, the message log.
    \<open>Forwarding\<close>, \<open>UdpForwarding\<close>: the forwarding phases, as tasks that run side by side one loop round at a time.
  \<^item> \<open>Tokens\<close>, \<open>Sessions\<close>, \<open>Dispatch\<close>, \<open>System\<close> (\<^verbatim>\<open>server.py\<close>): the state of \<open>WSSocksServer\<close> and its token operations;
    a connection from its HTTP request to its clean-up; the two message dispatchers; and the running
    server, all of these interleaved.
  \<^item> \<open>ClientUrl\<close>, \<open>Client\<close> (\<^verbatim>\<open>client.py\<close>): the address a client dials, its dispatcher, its connection attempts, its
    SOCKS server, connector requests. \<open>Heartbeat\<close>: the ping loops of both ends.
  \<^item> \<open>ClientServer\<close>, \<open>EndToEnd\<close>, \<open>Tunnel\<close>: client and server together, in a session, for one SOCKS request, and for
    the open channel that follows it. \<open>Isolation\<close>: that channels do not touch each other. \<open>Cli\<close> (\<^verbatim>\<open>cli.py\<close>): the command line.

  \<^bold>\<open>Correspondence.\<close> Classes are records with the attributes of the source (\<open>relay\<close> for \<^verbatim>\<open>Relay\<close>; \<open>server\<close> and \<open>client\<close>
  extend it as \<^verbatim>\<open>WSSocksServer\<close> and \<^verbatim>\<open>WSSocksClient\<close> do), methods are functions of the same name on them, local
  variables keep their names. Exceptions are the left values of \<open>res\<close>. A dictionary is an association list in
  insertion order, since the code iterates over its dictionaries; \<open>dict_ok\<close> says that its keys are
  distinct. A text is a list of code points, since a text field and its length byte agree only for ASCII.
  What a stretch of code gives to a connection or to the event loop (a frame, a close, a task to start
  or to cancel) is appended to the \<open>actions\<close> of the state. A coroutine is cut where it waits for something
  other tasks can change: the stretches are definitions, and what happens in between is an argument
  (\<open>meanwhile\<close>, \<open>serve\<close>, \<open>at_session\<close>, \<open>forwarding\<close>) or the interleaving of the steps, in \<open>System\<close>, \<open>SocksTasks\<close>,
  \<open>Forwarding\<close> (which gives the \<open>forwarding\<close> of the handlers), \<open>UdpForwarding\<close> and \<open>Tunnel\<close>.

  \<^bold>\<open>What is proved.\<close> Of data: round trips, exact conditions of success, exceptions. Of each component with
  state: an invariant kept by every operation, what an operation changes and what it leaves alone. Of
  the running server, for every reachable state (\<open>sy_inv_reachable\<close>): ports are not shared, lookups do not
  fail, a registered client has a live connection. Of the composition: bytes relayed in order and completely
  through tasks, codec, WebSocket, dispatchers and queues in every interleaving, requests reaching the peer, connected to their target and answered in both modes, a client's address and credentials understood by
  the server, connectors added across both dispatchers, the command line's options taking effect. The
  contracts between components are locales, each interpreted on the model by the component that provides
  it: \<open>wire_format\<close> (UTF-8, JSON, messages), \<open>port_allocator\<close>, \<open>channel_table\<close>, \<open>refcounted\<close> (sockets), \<open>mailbox\<close>
  (message queues and datagrams), \<open>invariant_machine\<close> and \<open>transition_system\<close> (whatever has an invariant). Some properties show where the code does not do what it means to.

  \<^bold>\<open>Parameters\<close>, for code and data outside the repository: gzip (\<open>gz\<close>, \<open>gunzip\<close>), SHA-256 (\<open>sha\<close>), the checks of
  \<^verbatim>\<open>urlparse\<close> on hosts in brackets or beyond ASCII (\<open>host_ok\<close>), lower case beyond ASCII, the address functions
  and name resolution of the C library (\<open>os_net\<close>), whether a socket can be bound or a WebSocket takes a frame (\<open>up\<close>), the text of
  library exceptions, \<^verbatim>\<open>repr\<close> of a list, the order in which a set is iterated, random draws and fresh
  UUIDs. Assumptions on them are in the statements: that \<open>gunzip\<close> undoes \<open>gz\<close>, that a digest is 64 hexadecimal
  digits and distinct for the tokens at hand.

  \<^bold>\<open>Bounds and fuel.\<close> \<open>json_loads\<close> recurses with the length of the text as fuel, which \<open>jparse_fuel\<close> shows is
  enough. \<open>remove_token\<close> has fuel 2 for its recursion into connector tokens; \<open>remove_token_result\<close> shows
  it never runs out. Bytes are 8-bit words, UUIDs 128-bit words; ports and lengths are integers with
  the range checks of \<^verbatim>\<open>struct.pack\<close> and \<^verbatim>\<open>bytearray\<close> written out. Endless loops are recursions over the
  sequence of what they receive.

  \<^bold>\<open>Not modelled.\<close> The WebSocket library and its framing; TLS; listen addresses and socket options; the
  order in which the event loop runs ready tasks (any order is allowed); time, but for the clocks of
  the socket manager and of delayed queue clean-ups and the waits given as arguments; a send that is
  slow rather than accepted or failing; logging other than the text of message logs; the package's
  lazy imports; option parsing by click; the script \<^verbatim>\<open>utils/udp_perf.py\<close>, which only times echoes.
\<close>

end
